(* ===== verification/Prelude.thy ===== *)
theory Prelude
  imports Main "HOL-Library.Word" "HOL-Library.Sublist" "HOL-Library.Multiset"
begin

unbundle bit_operations_syntax

text \<open>
  Shared vocabulary of the development: the C string and conversion functions the
  sources call, the little-endian reading of byte buffers, and the generic lemmas
  on them. A byte is a \<open>char\<close> (eight bits), a byte buffer a \<open>char list\<close>, and a C string
  is the part of a buffer before its first NUL. The target is a little-endian LP64
  platform (arm64 Android): \<open>int\<close> has 32 bits, \<open>long\<close>, \<open>size_t\<close> and pointers 64.
\<close>

section \<open>Types and collections\<close>

type_synonym bytes = "char list"
type_synonym u8 = "8 word"
type_synonym u16 = "16 word"
type_synonym u32 = "32 word"
type_synonym u64 = "64 word"

named_theorems cstr_simps "facts about the C string functions"
named_theorems io_simps "execution of the input/output monad"
named_theorems wp_rules "weakest preconditions of programs and system calls"
named_theorems track_intros "composition rules of trace disciplines"

section \<open>C strings\<close>

abbreviation NUL :: char where
  "NUL \<equiv> CHR 0x00"

definition cstr :: "bytes \<Rightarrow> string" where
  "cstr buf = takeWhile (\<lambda>c. c \<noteq> NUL) buf"

fun strstr :: "string \<Rightarrow> string \<Rightarrow> string option" where
  "strstr [] n = (if n = [] then Some [] else None)"
| "strstr (c # cs) n = (if prefix n (c # cs) then Some (c # cs) else strstr cs n)"

definition has_substr :: "string \<Rightarrow> string \<Rightarrow> bool" where
  "has_substr s n = (strstr s n \<noteq> None)"

fun strchr :: "string \<Rightarrow> char \<Rightarrow> string option" where
  "strchr [] x = None"
| "strchr (c # cs) x = (if c = x then Some (c # cs) else strchr cs x)"

fun strrchr :: "string \<Rightarrow> char \<Rightarrow> string option" where
  "strrchr [] x = None"
| "strrchr (c # cs) x =
     (case strrchr cs x of Some r \<Rightarrow> Some r
      | None \<Rightarrow> if c = x then Some (c # cs) else None)"

text \<open>
  \<open>strncpy (dst, src, n)\<close> into a buffer of \<open>n + 1\<close> bytes whose last byte is 0, and
  \<open>snprintf (dst, n + 1, "%s%s", \<dots>)\<close>: the C string left in \<open>dst\<close>.
\<close>

definition strncpy :: "string \<Rightarrow> nat \<Rightarrow> string" where
  "strncpy src n = take n (cstr src)"

definition snprintf :: "nat \<Rightarrow> string list \<Rightarrow> string" where
  "snprintf sz parts = take (sz - 1) (concat (map cstr parts))"

section \<open>Numbers in strings\<close>

definition isspace :: "char \<Rightarrow> bool" where
  "isspace c = (c = CHR '' '' \<or> 9 \<le> (of_char c :: nat) \<and> (of_char c :: nat) \<le> 13)"

definition isdigit :: "char \<Rightarrow> bool" where
  "isdigit c = (48 \<le> (of_char c :: nat) \<and> (of_char c :: nat) \<le> 57)"

definition digit_val :: "char \<Rightarrow> nat" where
  "digit_val c =
     (let n = of_char c :: nat in
      if 48 \<le> n \<and> n \<le> 57 then n - 48
      else if 97 \<le> n \<and> n \<le> 122 then n - 87
      else if 65 \<le> n \<and> n \<le> 90 then n - 55
      else 99)"

text \<open>The digits of base \<open>b\<close> at the front of a string: their value and what follows.\<close>

fun digits_of :: "nat \<Rightarrow> nat \<Rightarrow> string \<Rightarrow> nat \<times> string" where
  "digits_of b acc [] = (acc, [])"
| "digits_of b acc (c # cs) =
     (if digit_val c < b then digits_of b (acc * b + digit_val c) cs else (acc, c # cs))"

definition LONG_MAX :: int where "LONG_MAX = 2 ^ 63 - 1"
definition LONG_MIN :: int where "LONG_MIN = - (2 ^ 63)"
definition ULONG_MAX :: nat where "ULONG_MAX = 2 ^ 64 - 1"

definition sign_of :: "string \<Rightarrow> bool \<times> string" where
  "sign_of s = (case s of
      [] \<Rightarrow> (False, [])
    | c # cs \<Rightarrow> if c = CHR ''-'' then (True, cs) else if c = CHR ''+'' then (False, cs)
                else (False, s))"

definition strtol10 :: "string \<Rightarrow> int" where
  "strtol10 s =
     (let (neg, t) = sign_of (dropWhile isspace s);
          v = int (fst (digits_of 10 0 t));
          w = (if neg then - v else v)
      in max LONG_MIN (min LONG_MAX w))"

definition atoi :: "string \<Rightarrow> int" where
  "atoi s = sint (word_of_int (strtol10 s) :: 32 word)"

text \<open>
  \<open>strtoul (s, &end, 0)\<close>: the base is read off the prefix; the result is the value
  modulo \<open>2 ^ 64\<close>, whether it overflowed (\<open>ERANGE\<close>, and then the value is
  \<open>ULONG_MAX\<close>), and whether any digit was read (\<open>end \<noteq> s\<close>).
\<close>

definition strtoul0 :: "string \<Rightarrow> nat \<times> bool \<times> bool" where
  "strtoul0 s =
     (let (neg, t) = sign_of (dropWhile isspace s);
          hex = (prefix ''0x'' t \<or> prefix ''0X'' t) \<and> 2 < length t \<and> digit_val (t ! 2) < 16;
          b = (if hex then 16 else if t \<noteq> [] \<and> hd t = CHR ''0'' then 8 else 10);
          t' = (if hex then drop 2 t else t);
          (v, r) = digits_of b 0 t';
          any = (r \<noteq> t')
      in if v > ULONG_MAX then (ULONG_MAX, True, any)
         else (if neg then (2 ^ 64 - v) mod 2 ^ 64 else v, False, any))"

section \<open>Little-endian fields of byte buffers\<close>

definition byte :: "char \<Rightarrow> nat" where
  "byte c = of_char c"

fun le_nat :: "bytes \<Rightarrow> nat" where
  "le_nat [] = 0"
| "le_nat (c # cs) = byte c + 256 * le_nat cs"

definition bslice :: "nat \<Rightarrow> nat \<Rightarrow> bytes \<Rightarrow> bytes" where
  "bslice off len buf = take len (drop off buf)"

definition get_u32 :: "bytes \<Rightarrow> nat \<Rightarrow> u32" where
  "get_u32 buf off = of_nat (le_nat (bslice off 4 buf))"

definition get_u64 :: "bytes \<Rightarrow> nat \<Rightarrow> u64" where
  "get_u64 buf off = of_nat (le_nat (bslice off 8 buf))"

definition put_u32 :: "u32 \<Rightarrow> bytes" where
  "put_u32 w = (let n = unat w in
     [char_of (n mod 256), char_of (n div 256 mod 256), char_of (n div 65536 mod 256),
      char_of (n div 16777216 mod 256)])"

fun put_le :: "nat \<Rightarrow> nat \<Rightarrow> bytes" where
  "put_le 0 n = []"
| "put_le (Suc k) n = char_of (n mod 256) # put_le k (n div 256)"

definition put_u64 :: "u64 \<Rightarrow> bytes" where
  "put_u64 w = put_le 8 (unat w)"

section \<open>Lemmas\<close>

lemma strstr_suffix: "strstr s n = Some r \<Longrightarrow> suffix r s \<and> prefix n r"
  by (induction s n rule: strstr.induct) (auto split: if_splits intro: suffix_ConsI)

lemma strstr_None_iff [cstr_simps]: "strstr s n = None \<longleftrightarrow> \<not> sublist n s"
  by (induction s n rule: strstr.induct) (auto simp: sublist_Cons_right)

lemma has_substr_iff [cstr_simps]: "has_substr s n \<longleftrightarrow> sublist n s"
  by (simp add: has_substr_def cstr_simps)

lemma has_substr_Nil [simp]: "has_substr s []"
  by (simp add: cstr_simps)

lemma has_substr_refl [simp]: "has_substr s s"
  by (simp add: cstr_simps)

lemma has_substr_trans: "has_substr a b \<Longrightarrow> has_substr b c \<Longrightarrow> has_substr a c"
  using sublist_order.order_trans by (auto simp: cstr_simps)

lemma has_substr_append: "has_substr (a @ n @ b) n"
  by (auto simp: cstr_simps sublist_def)

lemma strchr_suffix: "strchr s x = Some r \<Longrightarrow> suffix r s \<and> r \<noteq> [] \<and> hd r = x"
  by (induction s x rule: strchr.induct) (auto split: if_splits intro: suffix_ConsI)

lemma strchr_None_iff [cstr_simps]: "strchr s x = None \<longleftrightarrow> x \<notin> set s"
  by (induction s x rule: strchr.induct) auto

lemma strrchr_None_iff [cstr_simps]: "strrchr s x = None \<longleftrightarrow> x \<notin> set s"
  by (induction s x rule: strrchr.induct) (auto split: option.splits)

lemma strrchr_split: "strrchr s x = Some r \<Longrightarrow> \<exists>p t. s = p @ x # t \<and> r = x # t \<and> x \<notin> set t"
proof (induction s x rule: strrchr.induct)
  case (1 x)
  then show ?case by simp
next
  case (2 c cs x)
  show ?case
  proof (cases "strrchr cs x")
    case None
    with 2 have "c = x" "r = x # cs" "x \<notin> set cs"
      by (auto simp: cstr_simps split: if_splits)
    then show ?thesis by (intro exI[of _ "[]"] exI[of _ cs]) simp
  next
    case (Some q)
    with 2 obtain p t where "cs = p @ x # t" "r = x # t" "x \<notin> set t"
      by auto
    then show ?thesis by (intro exI[of _ "c # p"] exI[of _ t]) simp
  qed
qed

lemma cstr_no_NUL: "NUL \<notin> set (cstr b)"
  by (auto simp: cstr_def dest: set_takeWhileD)

lemma cstr_id: "NUL \<notin> set s \<Longrightarrow> cstr s = s"
  by (auto simp: cstr_def takeWhile_eq_all_conv)

lemma cstr_idem [simp]: "cstr (cstr s) = cstr s"
  by (rule cstr_id) (rule cstr_no_NUL)

lemma cstr_append_NUL: "NUL \<notin> set s \<Longrightarrow> cstr (s @ NUL # t) = s"
  by (simp add: cstr_def takeWhile_append takeWhile_eq_all_conv)

lemma strncpy_length: "length (strncpy s n) \<le> n"
  by (simp add: strncpy_def)

lemma strncpy_no_NUL: "NUL \<notin> set (strncpy s n)"
  unfolding strncpy_def using cstr_no_NUL in_set_takeD by metis

lemma snprintf_length: "0 < sz \<Longrightarrow> length (snprintf sz ps) < sz"
  by (auto simp: snprintf_def)

lemma snprintf_no_NUL: "NUL \<notin> set (snprintf sz ps)"
proof -
  have "NUL \<notin> set (concat (map cstr ps))"
    using cstr_no_NUL by auto
  then show ?thesis
    unfolding snprintf_def by (meson in_set_takeD)
qed

lemma unat_of_nat_small: "n < 2 ^ LENGTH('a) \<Longrightarrow> unat (of_nat n :: 'a::len word) = n"
  by (simp add: unat_of_nat take_bit_nat_eq_self)

lemma byte_bound: "byte c < 256"
  by (simp add: byte_def)

lemma le_nat_bound: "le_nat b < 256 ^ length b"
proof (induction b)
  case Nil
  then show ?case by simp
next
  case (Cons c cs)
  have "byte c < 256" by (rule byte_bound)
  with Cons.IH show ?case by simp
qed

lemma get_u32_unat: "unat (get_u32 buf off) = le_nat (bslice off 4 buf)"
proof -
  have "length (bslice off 4 buf) \<le> 4"
    by (simp add: bslice_def)
  then have "(256::nat) ^ length (bslice off 4 buf) \<le> 256 ^ 4"
    by (intro power_increasing) auto
  with le_nat_bound [of "bslice off 4 buf"] have "le_nat (bslice off 4 buf) < 2 ^ 32"
    by simp
  then show ?thesis
    by (simp add: get_u32_def unat_of_nat take_bit_nat_eq_self)
qed

lemma length_put_u32 [simp]: "length (put_u32 w) = 4"
  by (simp add: put_u32_def Let_def)

lemma le_nat_put_u32: "le_nat (put_u32 w) = unat w"
proof -
  define x where "x = unat w"
  have bound: "x < 256 * (256 * (256 * 256))"
    using unsigned_less [of w, where 'a = nat] by (simp add: x_def)
  have "x div 65536 = x div 256 div 256" "x div 16777216 = x div 256 div 256 div 256"
    by (simp_all add: div_mult2_eq [symmetric])
  moreover have "x div 256 div 256 div 256 < 256"
    using bound by (simp add: less_mult_imp_div_less)
  moreover have "x = x mod 256 + 256 * (x div 256)"
    "x div 256 = x div 256 mod 256 + 256 * (x div 256 div 256)"
    "x div 256 div 256 = x div 256 div 256 mod 256 + 256 * (x div 256 div 256 div 256)"
    by simp_all
  ultimately show ?thesis
    by (simp add: put_u32_def Let_def byte_def x_def [symmetric])
qed

lemma get_u32_put_u32: "off = length a \<Longrightarrow> get_u32 (a @ put_u32 w @ b) off = w"
  by (simp add: get_u32_def bslice_def le_nat_put_u32)

lemma length_put_le: "length (put_le k n) = k"
  by (induction k arbitrary: n) simp_all

lemma length_put_u64 [simp]: "length (put_u64 w) = 8"
  by (simp add: put_u64_def length_put_le)

lemma le_nat_put_le: "le_nat (put_le k n) = n mod 256 ^ k"
proof (induction k arbitrary: n)
  case 0
  then show ?case by simp
next
  case (Suc k)
  have "n mod 256 + 256 * (n div 256 mod 256 ^ k) = n mod (256 * 256 ^ k)"
    by (simp add: mod_mult2_eq)
  then show ?case
    by (simp add: Suc.IH byte_def)
qed

lemma get_u64_put_u64: "off = length a \<Longrightarrow> get_u64 (a @ put_u64 w @ b) off = w"
proof -
  have "unat w < 256 ^ 8"
    using unsigned_less [of w, where 'a = nat] by simp
  then show "off = length a \<Longrightarrow> ?thesis"
    by (simp add: get_u64_def bslice_def) (simp add: put_u64_def le_nat_put_le)
qed

lemma get_u32_append: "off + 4 \<le> length a \<Longrightarrow> get_u32 (a @ b) off = get_u32 a off"
  by (simp add: get_u32_def bslice_def)

lemma get_u32_drop: "get_u32 (a @ b) (length a + off) = get_u32 b off"
  by (simp add: get_u32_def bslice_def)

lemma get_u32_zeros: "get_u32 (replicate n NUL) off = 0"
proof -
  have "le_nat (replicate k NUL) = 0" for k
    by (induction k) (simp_all add: byte_def)
  then show ?thesis
    by (simp add: get_u32_def bslice_def)
qed

end
