(* ===== verification/Modem_Types.thy ===== *)
theory Modem_Types
  imports Prelude
begin

text \<open>
  The structures, enumerations and flag words of \<open>modem_load.h\<close>,
  \<open>modem_io_control.h\<close> and \<open>modem_control.h\<close>, and the build switches of
  \<open>Android.mk\<close>. A \<open>char[n]\<close> field holds the C string the code reads from it; a table and
  its length field (\<open>load_table\<close>/\<open>table_num\<close>) are one list.
\<close>

section \<open>Build configuration\<close>

text \<open>The preprocessor switches that \<open>Android.mk\<close> sets; one model covers every variant.\<close>

record build_config =
  FEATURE_EXTERNAL_MODEM :: bool
  FEATURE_REMOVE_SPRD_MODEM :: bool
  FEATURE_PCIE_RESCAN :: bool
  SECURE_BOOT_ENABLE :: bool
  CONFIG_SPRD_SECBOOT :: bool
  CONFIG_VBOOT_V2 :: bool
  NOT_VERIFY_MODEM :: bool
  SHARKL5_CDSP :: bool
  SIMLOCK_AP_READ_EFUSE :: bool

definition base_config :: build_config where
  "base_config = \<lparr>FEATURE_EXTERNAL_MODEM = False, FEATURE_REMOVE_SPRD_MODEM = False,
     FEATURE_PCIE_RESCAN = False, SECURE_BOOT_ENABLE = False, CONFIG_SPRD_SECBOOT = False,
     CONFIG_VBOOT_V2 = False, NOT_VERIFY_MODEM = False, SHARKL5_CDSP = False,
     SIMLOCK_AP_READ_EFUSE = False\<rparr>"

definition any_secure :: "build_config \<Rightarrow> bool" where
  "any_secure cfg = (SECURE_BOOT_ENABLE cfg \<or> CONFIG_SPRD_SECBOOT cfg \<or> CONFIG_VBOOT_V2 cfg)"

definition kbc_secure :: "build_config \<Rightarrow> bool" where
  "kbc_secure cfg = (CONFIG_SPRD_SECBOOT cfg \<or> CONFIG_VBOOT_V2 cfg)"

section \<open>Image flags\<close>

definition SECURE_FLAG :: nat where "SECURE_FLAG = 0"
definition NV_FLAG :: nat where "NV_FLAG = 1"
definition BOOT_CODE :: nat where "BOOT_CODE = 2"
definition CMDLINE_FLAG :: nat where "CMDLINE_FLAG = 3"
definition SPL_FLAG :: nat where "SPL_FLAG = 4"
definition SML_FLAG :: nat where "SML_FLAG = 5"
definition UBOOT_FLAG :: nat where "UBOOT_FLAG = 6"
definition BOOT_FLAG :: nat where "BOOT_FLAG = 7"
definition MODEM_HEAD_FLAG :: nat where "MODEM_HEAD_FLAG = 8"
definition MODEM_FLAG :: nat where "MODEM_FLAG = 9"
definition MODEM_DSP_FLAG :: nat where "MODEM_DSP_FLAG = 10"
definition MODEM_OTHER_FLAG :: nat where "MODEM_OTHER_FLAG = 11"
definition SP_FLAG :: nat where "SP_FLAG = 12"
definition SP_CALI_FLAG :: nat where "SP_CALI_FLAG = 13"
definition CLR_FLAG :: nat where "CLR_FLAG = 31"

lemmas flag_bit_defs = SECURE_FLAG_def NV_FLAG_def BOOT_CODE_def CMDLINE_FLAG_def SPL_FLAG_def
  SML_FLAG_def UBOOT_FLAG_def BOOT_FLAG_def MODEM_HEAD_FLAG_def MODEM_FLAG_def
  MODEM_DSP_FLAG_def MODEM_OTHER_FLAG_def SP_FLAG_def SP_CALI_FLAG_def CLR_FLAG_def

definition MODEM_IMG_FLAG :: u32 where "MODEM_IMG_FLAG = 0x00000F00"
definition MODEM_IMG_EXCPT_HEAD_FLAG :: u32 where "MODEM_IMG_EXCPT_HEAD_FLAG = 0x00000E00"
definition SP_IMG_FLAG :: u32 where "SP_IMG_FLAG = 0x0000F000"
definition AUDIO_IMG_FLAG :: u32 where "AUDIO_IMG_FLAG = 0x000F0000"
definition NONE_IMAG_FLAG :: u32 where "NONE_IMAG_FLAG = 0"
definition SPL_IMG_FLAG :: u32 where "SPL_IMG_FLAG = push_bit SPL_FLAG 1"
definition SML_IMG_FLAG :: u32 where "SML_IMG_FLAG = push_bit SML_FLAG 1"
definition UBOOT_IMG_FLAG :: u32 where "UBOOT_IMG_FLAG = push_bit UBOOT_FLAG 1"
definition BOOT_IMG_FLAG :: u32 where "BOOT_IMG_FLAG = push_bit BOOT_FLAG 1"
definition MODEM_HEAD_IMG_FLAG :: u32 where "MODEM_HEAD_IMG_FLAG = push_bit MODEM_HEAD_FLAG 1"

lemmas img_mask_defs = MODEM_IMG_FLAG_def MODEM_IMG_EXCPT_HEAD_FLAG_def SP_IMG_FLAG_def
  AUDIO_IMG_FLAG_def NONE_IMAG_FLAG_def SPL_IMG_FLAG_def SML_IMG_FLAG_def UBOOT_IMG_FLAG_def
  BOOT_IMG_FLAG_def MODEM_HEAD_IMG_FLAG_def

definition SET_2FLAG :: "u32 \<Rightarrow> nat \<Rightarrow> nat \<Rightarrow> u32" where
  "SET_2FLAG flag b1 b2 = (flag OR push_bit b1 1) OR push_bit b2 1"

definition GET_FLAG :: "u32 \<Rightarrow> nat \<Rightarrow> bool" where
  "GET_FLAG flag b = (flag AND push_bit b 1 \<noteq> 0)"

section \<open>Load types\<close>

definition LOAD_SP_IMG :: u32 where "LOAD_SP_IMG = 0x1"
definition LOAD_MODEM_IMG :: u32 where "LOAD_MODEM_IMG = 0x2"
definition LOAD_DP_IMG :: u32 where "LOAD_DP_IMG = 0x4"
definition LOAD_MINIAP_IMG :: u32 where "LOAD_MINIAP_IMG = 0x8"
definition LOAD_AGDSP_IMG :: u32 where "LOAD_AGDSP_IMG = 0x10"
definition LOADL_ALL_EXTERNAL_IMG :: u32 where "LOADL_ALL_EXTERNAL_IMG = 0x1E"
definition LOAD_ALL_IMG :: u32 where "LOAD_ALL_IMG = 0x1F"

lemmas load_type_defs = LOAD_SP_IMG_def LOAD_MODEM_IMG_def LOAD_DP_IMG_def LOAD_MINIAP_IMG_def
  LOAD_AGDSP_IMG_def LOADL_ALL_EXTERNAL_IMG_def LOAD_ALL_IMG_def

definition has_bits :: "u32 \<Rightarrow> u32 \<Rightarrow> bool" where
  "has_bits w m = (w AND m \<noteq> 0)"

section \<open>Structures\<close>

definition MAX_PATH_LEN :: nat where "MAX_PATH_LEN = 128"
definition MAX_FILE_NAME_LEN :: nat where "MAX_FILE_NAME_LEN = 30"
definition MAX_REGION_NAME_LEN :: nat where "MAX_REGION_NAME_LEN = 20"
definition MAX_REGION_CNT :: nat where "MAX_REGION_CNT = 20"
definition MAX_MODEM_NODE_NAME_LEN :: nat where "MAX_MODEM_NODE_NAME_LEN = 32"
definition PROPERTY_VALUE_MAX :: nat where "PROPERTY_VALUE_MAX = 92"
definition CPCMDLINE_SIZE :: nat where "CPCMDLINE_SIZE = 0x1000"

text \<open>\<open>mstrncpy2\<close>/\<open>mstrncpy3\<close> into a path buffer of \<open>MAX_PATH_LEN + 1\<close> bytes.\<close>

definition mstrncpy2 :: "string \<Rightarrow> string \<Rightarrow> string" where
  "mstrncpy2 a b = snprintf (MAX_PATH_LEN + 1) [a, b]"

definition mstrncpy3 :: "string \<Rightarrow> string \<Rightarrow> string \<Rightarrow> string" where
  "mstrncpy3 a b c = snprintf (MAX_PATH_LEN + 1) [a, b, c]"

record image_load =
  path_w :: string
  path_r :: string
  img_name :: string
  img_addr :: u64
  img_size :: u32
  img_flag :: u32

definition zero_image :: image_load where
  "zero_image = \<lparr>path_w = [], path_r = [], img_name = [], img_addr = 0, img_size = 0, img_flag = 0\<rparr>"

record load_value =
  load_table :: "image_load list"
  modem_base :: u64
  modem_size :: u64
  all_base :: u64
  all_size :: u64
  xml_is_ok :: bool
  drv_is_ok :: bool
  ioctrl_is_ok :: bool
  img_type :: nat
  io_ctrl :: string
  start_path :: string
  stop_path :: string
  lv_name :: string

definition zero_load_value :: load_value where
  "zero_load_value = \<lparr>load_table = [], modem_base = 0, modem_size = 0, all_base = 0, all_size = 0,
     xml_is_ok = False, drv_is_ok = False, ioctrl_is_ok = False, img_type = 0, io_ctrl = [],
     start_path = [], stop_path = [], lv_name = []\<rparr>"

definition IMAGE_CP :: nat where "IMAGE_CP = 0"
definition IMAGE_SP :: nat where "IMAGE_SP = 1"
definition IMAGE_DP :: nat where "IMAGE_DP = 2"

record load_node_info =
  node_name :: string
  node_base :: u32
  node_size :: u32

record modem_region_info =
  reg_address :: u64
  reg_size :: u32
  reg_name :: string

record modem_load_info =
  region_cnt :: u32
  li_modem_base :: u64
  li_modem_size :: u32
  li_all_base :: u64
  li_all_size :: u32
  regions :: "modem_region_info list"

text \<open>
  The verification table handed to the secure world. Its C type belongs to the trusted
  application's library; the fields here are the ones \<open>secure_boot_load.c\<close> writes.
\<close>

record kbc_image =
  kbc_img_len :: u32
  kbc_img_addr :: u64
  kbc_map_len :: u32
  kbc_partition :: string
  kbc_footer :: bytes

record kbc_load_table =
  kbc_flag :: u32
  kbc_is_packed :: u32
  kbc_packed_offset :: u32
  kbc_pm_sys :: kbc_image
  kbc_modem :: kbc_image
  kbc_tgdsp :: kbc_image
  kbc_ldsp :: kbc_image
  kbc_cdsp :: kbc_image

definition zero_kbc_image :: kbc_image where
  "zero_kbc_image = \<lparr>kbc_img_len = 0, kbc_img_addr = 0, kbc_map_len = 0, kbc_partition = [], kbc_footer = []\<rparr>"

definition zero_kbc :: kbc_load_table where
  "zero_kbc = \<lparr>kbc_flag = 0, kbc_is_packed = 0, kbc_packed_offset = 0, kbc_pm_sys = zero_kbc_image,
     kbc_modem = zero_kbc_image, kbc_tgdsp = zero_kbc_image, kbc_ldsp = zero_kbc_image,
     kbc_cdsp = zero_kbc_image\<rparr>"

section \<open>Modem and boot states\<close>

datatype modem_state =
    MODEM_STATE_INIT | MODEM_STATE_LOADING | MODEM_STATE_BOOTING | MODEM_STATE_ALIVE
  | MODEM_STATE_ASSERT | MODEM_STATE_BLOCK | MODEM_STATE_RESET
  | MODEM_STATE_REBOOT_EXT_MODEM | MODEM_STATE_REBOOT_SYS

datatype modem_kind = TD_MODEM | W_MODEM | LTE_MODEM | NR_MODEM | NO_MODEM

datatype boot_mode = BOOT_MODE_NORMAL | BOOT_MODE_CALIBRATION | BOOT_MODE_FACTORY | BOOT_MODE_RECOVERY

definition MODEM_ALIVE :: string where "MODEM_ALIVE = ''Modem Alive''"
definition PREPARE_RESET :: string where "PREPARE_RESET = ''Prepare Reset''"
definition MODEM_RESET :: string where "MODEM_RESET = ''Modem Reset''"
definition MODEM_ASSERT :: string where "MODEM_ASSERT = ''Modem Assert''"
definition MODEM_BLOCK :: string where "MODEM_BLOCK = ''Modem Blocked''"
definition MINIAP_PANIC :: string where "MINIAP_PANIC = ''Miniap Panic''"
definition MODEM_NOT_ALIVE :: string where "MODEM_NOT_ALIVE = ''Modem Assert: modem not alive!''"

definition MODEM_BANK :: string where "MODEM_BANK = ''modem''"

section \<open>Lemmas\<close>

lemma GET_FLAG_bit: "GET_FLAG w b \<longleftrightarrow> bit w b"
proof -
  have "w AND push_bit b 1 = (if bit w b then push_bit b 1 else 0)"
    by (rule bit_eqI) (auto simp: bit_simps)
  moreover have "bit w b \<Longrightarrow> push_bit b (1::u32) \<noteq> 0"
    using bit_imp_le_length [of w b] by (simp add: bit_eq_iff bit_simps) (auto intro!: exI[of _ b])
  ultimately show ?thesis
    by (simp add: GET_FLAG_def)
qed

lemma SET_2FLAG_bit:
  "n < 32 \<Longrightarrow> bit (SET_2FLAG w a b) n \<longleftrightarrow> bit w n \<or> n = a \<or> n = b"
  by (auto simp: SET_2FLAG_def bit_simps)

lemma has_bits_or: "has_bits w (a OR b) \<longleftrightarrow> has_bits w a \<or> has_bits w b"
  by (auto simp: has_bits_def bit_eq_iff bit_simps)

lemma has_bits_0 [simp]: "\<not> has_bits 0 m" "\<not> has_bits w 0"
  by (simp_all add: has_bits_def)

lemma mstrncpy2_length: "length (mstrncpy2 a b) \<le> MAX_PATH_LEN"
  using snprintf_length [of "MAX_PATH_LEN + 1" "[a, b]"] by (simp add: mstrncpy2_def)

lemma mstrncpy3_length: "length (mstrncpy3 a b c) \<le> MAX_PATH_LEN"
  using snprintf_length [of "MAX_PATH_LEN + 1" "[a, b, c]"] by (simp add: mstrncpy3_def)

end
