(* ===== verification/OS_World.thy ===== *)
theory OS_World
  imports Modem_Types
begin

text \<open>
  The boundary to the operating system. Every system call appends one event to the
  world's trace, and its result is the value of an oracle (a field of \<open>os\<close>) applied to
  the trace so far: an arbitrary function of the whole history, so a theorem about every
  \<open>os\<close> covers every behaviour of kernel, devices, clients and property service. The
  wrappers cut the oracle's answers to what the interface documents (\<open>read\<close> delivers at
  most the bytes asked for, \<open>write\<close> accepts at most the bytes given). A program is a
  function from worlds to results; \<open>Stop\<close> is a call that never comes back: an endless
  loop (\<open>Forever\<close>) or a crash (\<open>Fault\<close>).
\<close>

section \<open>Events and oracles\<close>

datatype oflag = O_RDONLY | O_WRONLY | O_RDWR | O_NONBLOCK_RDWR | O_CREAT_WRONLY

datatype whence = SEEK_SET | SEEK_END

datatype ioarg = Arg_null | Arg_int u32 | Arg_load_info modem_load_info

datatype errno = EINTR | EAGAIN | ENOENT | EEXIST | EOTHER

datatype event =
    Open string oflag int
  | Read int nat "bytes option"
  | Write int bytes int
  | Lseek int int whence int
  | Close int
  | Ioctl int u32 ioarg int
  | Access string bool
  | Malloc int bool
  | Sleep nat
  | Prop_Get string string
  | Prop_Set string string
  | Shell string
  | Timer nat
  | Thread string bool
  | Select "int list" "int list option"
  | Accept int
  | Pipe int int int
  | Socket_Server int
  | Signal_Dump
  | Kbc_Verify kbc_load_table int
  | Kbc_Unlock kbc_load_table int
  | Secure_Check "bytes option" u32 bytes bytes
  | Tee_Msg bytes "bytes option"
  | Chown string bool
  | Opendir string bool
  | Mkdir string bool
  | Print string
  | Mutex_Lock string
  | Mutex_Unlock string
  | Cond_Timedwait nat
  | Sigaction string
  | Setgroups "nat list" bool
  | Prctl_Keepcaps
  | Setuid nat bool
  | Capset "(nat \<times> nat) list" bool
  | Uevent_Socket int
  | Poll int int

record os =
  os_open :: "event list \<Rightarrow> string \<Rightarrow> oflag \<Rightarrow> int"
  os_read :: "event list \<Rightarrow> int \<Rightarrow> nat \<Rightarrow> bytes option"
  os_write :: "event list \<Rightarrow> int \<Rightarrow> bytes \<Rightarrow> int"
  os_lseek :: "event list \<Rightarrow> int \<Rightarrow> int \<Rightarrow> whence \<Rightarrow> int"
  os_ioctl :: "event list \<Rightarrow> int \<Rightarrow> u32 \<Rightarrow> ioarg \<Rightarrow> int \<times> ioarg"
  os_access :: "event list \<Rightarrow> string \<Rightarrow> bool"
  os_malloc :: "event list \<Rightarrow> int \<Rightarrow> bool"
  os_property :: "event list \<Rightarrow> string \<Rightarrow> string"
  os_errno :: "event list \<Rightarrow> errno"
  os_thread :: "event list \<Rightarrow> string \<Rightarrow> bool"
  os_select :: "event list \<Rightarrow> int list \<Rightarrow> int list option"
  os_accept :: "event list \<Rightarrow> int"
  os_pipe :: "event list \<Rightarrow> int \<times> int \<times> int"
  os_socket_server :: "event list \<Rightarrow> int"
  os_kbc_verify :: "event list \<Rightarrow> kbc_load_table \<Rightarrow> int"
  os_kbc_unlock :: "event list \<Rightarrow> kbc_load_table \<Rightarrow> int"
  os_tee :: "event list \<Rightarrow> bytes \<Rightarrow> bytes option"
  os_chown :: "event list \<Rightarrow> string \<Rightarrow> bool"
  os_readdir :: "event list \<Rightarrow> string \<Rightarrow> (string \<times> bool) list option"
  os_uninit :: "event list \<Rightarrow> string \<Rightarrow> u64"
  os_mkdir :: "event list \<Rightarrow> string \<Rightarrow> bool"
  os_privilege :: "event list \<Rightarrow> bool"
  os_uevent_socket :: "event list \<Rightarrow> int"
  os_poll :: "event list \<Rightarrow> int"
  os_others :: "event list \<Rightarrow> modem_state \<times> bool \<times> nat \<Rightarrow> modem_state \<times> bool \<times> nat"
  os_patience :: nat

section \<open>Programs\<close>

datatype stop = Forever string | Fault string

datatype ('a, 's) result = Ret 'a 's | Stop stop 's

type_synonym ('s, 'a) io = "'s \<Rightarrow> ('a, 's) result"

definition return :: "'a \<Rightarrow> ('s, 'a) io" where
  "return a = (\<lambda>s. Ret a s)"

definition bind :: "('s, 'a) io \<Rightarrow> ('a \<Rightarrow> ('s, 'b) io) \<Rightarrow> ('s, 'b) io" where
  "bind m f = (\<lambda>s. case m s of Ret a t \<Rightarrow> f a t | Stop r t \<Rightarrow> Stop r t)"

definition seq :: "('s, 'a) io \<Rightarrow> ('s, 'b) io \<Rightarrow> ('s, 'b) io" where
  "seq m n = bind m (\<lambda>_. n)"

definition do_if :: "bool \<Rightarrow> ('s, 'a) io \<Rightarrow> ('s, unit) io" where
  "do_if b m = (if b then seq m (return ()) else return ())"

definition stop :: "stop \<Rightarrow> ('s, 'a) io" where
  "stop r = (\<lambda>s. Stop r s)"

definition gets :: "('s \<Rightarrow> 'a) \<Rightarrow> ('s, 'a) io" where
  "gets f = (\<lambda>s. Ret (f s) s)"

definition modify :: "('s \<Rightarrow> 's) \<Rightarrow> ('s, unit) io" where
  "modify f = (\<lambda>s. Ret () (f s))"

fun final :: "('a, 's) result \<Rightarrow> 's" where
  "final (Ret a s) = s"
| "final (Stop r s) = s"

fun returns :: "('a, 's) result \<Rightarrow> 'a option" where
  "returns (Ret a s) = Some a"
| "returns (Stop r s) = None"

section \<open>System calls\<close>

record world =
  trace :: "event list"

definition syscall :: "(event list \<Rightarrow> 'a \<times> event) \<Rightarrow> ('z world_scheme, 'a) io" where
  "syscall f = (\<lambda>s. case f (trace s) of (a, e) \<Rightarrow> Ret a (s\<lparr>trace := trace s @ [e]\<rparr>))"

definition sys_open :: "os \<Rightarrow> string \<Rightarrow> oflag \<Rightarrow> ('z world_scheme, int) io" where
  "sys_open os p fl = syscall (\<lambda>tr. let fd = os_open os tr p fl in (fd, Open p fl fd))"

definition sys_read :: "os \<Rightarrow> int \<Rightarrow> nat \<Rightarrow> ('z world_scheme, bytes option) io" where
  "sys_read os fd n = syscall (\<lambda>tr. let d = map_option (take n) (os_read os tr fd n) in (d, Read fd n d))"

definition sys_write :: "os \<Rightarrow> int \<Rightarrow> bytes \<Rightarrow> ('z world_scheme, int) io" where
  "sys_write os fd d = syscall (\<lambda>tr. let r = max (- 1) (min (int (length d)) (os_write os tr fd d))
     in (r, Write fd d r))"

definition sys_lseek :: "os \<Rightarrow> int \<Rightarrow> int \<Rightarrow> whence \<Rightarrow> ('z world_scheme, int) io" where
  "sys_lseek os fd off w = syscall (\<lambda>tr. let r = os_lseek os tr fd off w in (r, Lseek fd off w r))"

definition sys_close :: "int \<Rightarrow> ('z world_scheme, unit) io" where
  "sys_close fd = syscall (\<lambda>tr. ((), Close fd))"

definition sys_ioctl :: "os \<Rightarrow> int \<Rightarrow> u32 \<Rightarrow> ioarg \<Rightarrow> ('z world_scheme, int \<times> ioarg) io" where
  "sys_ioctl os fd cmd arg = syscall (\<lambda>tr. let r = os_ioctl os tr fd cmd arg in (r, Ioctl fd cmd arg (fst r)))"

definition sys_access :: "os \<Rightarrow> string \<Rightarrow> ('z world_scheme, bool) io" where
  "sys_access os p = syscall (\<lambda>tr. let b = os_access os tr p in (b, Access p b))"

definition sys_malloc :: "os \<Rightarrow> int \<Rightarrow> ('z world_scheme, bool) io" where
  "sys_malloc os n = syscall (\<lambda>tr. let b = os_malloc os tr n in (b, Malloc n b))"

definition sys_usleep :: "nat \<Rightarrow> ('z world_scheme, unit) io" where
  "sys_usleep us = syscall (\<lambda>tr. ((), Sleep us))"

definition sys_sleep :: "nat \<Rightarrow> ('z world_scheme, unit) io" where
  "sys_sleep sec = sys_usleep (sec * 1000000)"

definition property_get :: "os \<Rightarrow> string \<Rightarrow> string \<Rightarrow> ('z world_scheme, string) io" where
  "property_get os p dflt = syscall (\<lambda>tr.
     let v = strncpy (os_property os tr p) (PROPERTY_VALUE_MAX - 1);
         r = (if v \<noteq> [] then v else dflt)
     in (r, Prop_Get p r))"

definition property_set :: "string \<Rightarrow> string \<Rightarrow> ('z world_scheme, unit) io" where
  "property_set p v = syscall (\<lambda>tr. ((), Prop_Set p v))"

definition sys_system :: "string \<Rightarrow> ('z world_scheme, unit) io" where
  "sys_system c = syscall (\<lambda>tr. ((), Shell c))"

definition sys_setitimer :: "nat \<Rightarrow> ('z world_scheme, unit) io" where
  "sys_setitimer sec = syscall (\<lambda>tr. ((), Timer sec))"

definition get_errno :: "os \<Rightarrow> ('z world_scheme, errno) io" where
  "get_errno os = gets (\<lambda>s. os_errno os (trace s))"

text \<open>The indeterminate content of a local variable that was never assigned.\<close>

definition uninit :: "os \<Rightarrow> string \<Rightarrow> ('z world_scheme, u64) io" where
  "uninit os var = gets (\<lambda>s. os_uninit os (trace s) var)"

definition pthread_create :: "os \<Rightarrow> string \<Rightarrow> ('z world_scheme, bool) io" where
  "pthread_create os f = syscall (\<lambda>tr. let b = os_thread os tr f in (b, Thread f b))"

text \<open>
  \<open>select\<close> on the read set \<open>fds\<close>: \<open>None\<close> is the error return, which leaves the set as it
  is; otherwise the set becomes the descriptors that are ready, and the result is their
  number.
\<close>

definition sys_select :: "os \<Rightarrow> int list \<Rightarrow> ('z world_scheme, int list option) io" where
  "sys_select os fds = syscall (\<lambda>tr.
     let r = map_option (\<lambda>ready. filter (\<lambda>fd. fd \<in> set ready) fds) (os_select os tr fds)
     in (r, Select fds r))"

definition sys_accept :: "os \<Rightarrow> ('z world_scheme, int) io" where
  "sys_accept os = syscall (\<lambda>tr. let n = max (- 1) (os_accept os tr) in (n, Accept n))"

definition sys_pipe :: "os \<Rightarrow> ('z world_scheme, int \<times> int \<times> int) io" where
  "sys_pipe os = syscall (\<lambda>tr. let r = os_pipe os tr in (r, Pipe (fst r) (fst (snd r)) (snd (snd r))))"

definition socket_local_server :: "os \<Rightarrow> ('z world_scheme, int) io" where
  "socket_local_server os = syscall (\<lambda>tr. let r = os_socket_server os tr in (r, Socket_Server r))"

definition cond_signal_dump :: "('z world_scheme, unit) io" where
  "cond_signal_dump = syscall (\<lambda>tr. ((), Signal_Dump))"

definition kernel_bootcp_verify_all :: "os \<Rightarrow> kbc_load_table \<Rightarrow> ('z world_scheme, int) io" where
  "kernel_bootcp_verify_all os t = syscall (\<lambda>tr. let r = os_kbc_verify os tr t in (r, Kbc_Verify t r))"

definition kernel_bootcp_unlock_ddr :: "os \<Rightarrow> kbc_load_table \<Rightarrow> ('z world_scheme, int) io" where
  "kernel_bootcp_unlock_ddr os t = syscall (\<lambda>tr. let r = os_kbc_unlock os tr t in (r, Kbc_Unlock t r))"

definition secure_check :: "bytes option \<Rightarrow> u32 \<Rightarrow> bytes \<Rightarrow> bytes \<Rightarrow> ('z world_scheme, unit) io" where
  "secure_check code len vlr puk = syscall (\<lambda>tr. ((), Secure_Check code len vlr puk))"

definition TEECex_SendMsg_To_TEE :: "os \<Rightarrow> bytes \<Rightarrow> ('z world_scheme, bytes option) io" where
  "TEECex_SendMsg_To_TEE os m = syscall (\<lambda>tr. let r = os_tee os tr m in (r, Tee_Msg m r))"

definition sys_chown :: "os \<Rightarrow> string \<Rightarrow> ('z world_scheme, bool) io" where
  "sys_chown os p = syscall (\<lambda>tr. let b = os_chown os tr p in (b, Chown p b))"

text \<open>\<open>opendir\<close>: the entries \<open>readdir\<close> will deliver, each with whether it is a symbolic link.\<close>

definition sys_opendir :: "os \<Rightarrow> string \<Rightarrow> ('z world_scheme, (string \<times> bool) list option) io" where
  "sys_opendir os p = syscall (\<lambda>tr. let r = os_readdir os tr p in (r, Opendir p (r \<noteq> None)))"

definition sys_mkdir :: "os \<Rightarrow> string \<Rightarrow> ('z world_scheme, bool) io" where
  "sys_mkdir os p = syscall (\<lambda>tr. let b = os_mkdir os tr p in (b, Mkdir p b))"

definition sys_print :: "string \<Rightarrow> ('z world_scheme, unit) io" where
  "sys_print txt = syscall (\<lambda>tr. ((), Print txt))"

definition mutex_lock :: "string \<Rightarrow> ('z world_scheme, unit) io" where
  "mutex_lock m = syscall (\<lambda>tr. ((), Mutex_Lock m))"

definition mutex_unlock :: "string \<Rightarrow> ('z world_scheme, unit) io" where
  "mutex_unlock m = syscall (\<lambda>tr. ((), Mutex_Unlock m))"

definition cond_timedwait :: "nat \<Rightarrow> ('z world_scheme, unit) io" where
  "cond_timedwait sec = syscall (\<lambda>tr. ((), Cond_Timedwait sec))"

definition sys_signal :: "string \<Rightarrow> ('z world_scheme, unit) io" where
  "sys_signal h = syscall (\<lambda>tr. ((), Sigaction h))"

definition sys_setgroups :: "os \<Rightarrow> nat list \<Rightarrow> ('z world_scheme, bool) io" where
  "sys_setgroups os gs = syscall (\<lambda>tr. let b = os_privilege os tr in (b, Setgroups gs b))"

definition prctl_keepcaps :: "('z world_scheme, unit) io" where
  "prctl_keepcaps = syscall (\<lambda>tr. ((), Prctl_Keepcaps))"

definition sys_setuid :: "os \<Rightarrow> nat \<Rightarrow> ('z world_scheme, bool) io" where
  "sys_setuid os uid = syscall (\<lambda>tr. let b = os_privilege os tr in (b, Setuid uid b))"

definition sys_capset :: "os \<Rightarrow> (nat \<times> nat) list \<Rightarrow> ('z world_scheme, bool) io" where
  "sys_capset os caps = syscall (\<lambda>tr. let b = os_privilege os tr in (b, Capset caps b))"

definition uevent_open_socket :: "os \<Rightarrow> ('z world_scheme, int) io" where
  "uevent_open_socket os = syscall (\<lambda>tr. let r = os_uevent_socket os tr in (r, Uevent_Socket r))"

definition sys_poll :: "os \<Rightarrow> int \<Rightarrow> ('z world_scheme, int) io" where
  "sys_poll os fd = syscall (\<lambda>tr. let r = os_poll os tr in (r, Poll fd r))"

lemmas syscall_defs = sys_mkdir_def sys_print_def mutex_lock_def mutex_unlock_def cond_timedwait_def
  sys_signal_def sys_setgroups_def prctl_keepcaps_def sys_setuid_def sys_capset_def
  uevent_open_socket_def sys_poll_def sys_open_def sys_read_def sys_write_def sys_lseek_def sys_close_def
  sys_ioctl_def sys_access_def sys_malloc_def sys_usleep_def sys_sleep_def property_get_def
  property_set_def sys_system_def sys_setitimer_def pthread_create_def sys_select_def
  sys_accept_def sys_pipe_def socket_local_server_def cond_signal_dump_def
  kernel_bootcp_verify_all_def kernel_bootcp_unlock_ddr_def secure_check_def
  TEECex_SendMsg_To_TEE_def sys_chown_def sys_opendir_def

lemmas io_defs [io_simps] = return_def bind_def seq_def do_if_def stop_def gets_def modify_def
  syscall_def get_errno_def uninit_def

section \<open>Weakest preconditions\<close>

definition wp :: "('s, 'a) io \<Rightarrow> ('a \<Rightarrow> 's \<Rightarrow> bool) \<Rightarrow> (stop \<Rightarrow> 's \<Rightarrow> bool) \<Rightarrow> 's \<Rightarrow> bool" where
  "wp m Q R s = (case m s of Ret a t \<Rightarrow> Q a t | Stop r t \<Rightarrow> R r t)"

lemma wp_return [wp_rules]: "wp (return a) Q R = Q a"
  by (rule ext) (simp add: wp_def io_simps)

lemma wp_bind [wp_rules]: "wp (bind m f) Q R = wp m (\<lambda>a. wp (f a) Q R) R"
  by (rule ext) (simp add: wp_def io_simps split: result.splits)

lemma wp_seq [wp_rules]: "wp (seq m n) Q R = wp m (\<lambda>_. wp n Q R) R"
  by (simp add: seq_def wp_rules)

lemma wp_if [wp_rules]: "wp (if b then m else n) Q R = (if b then wp m Q R else wp n Q R)"
  by simp

lemma wp_option [wp_rules]:
  "wp (case x of None \<Rightarrow> m | Some a \<Rightarrow> f a) Q R =
     (case x of None \<Rightarrow> wp m Q R | Some a \<Rightarrow> wp (f a) Q R)"
  by (cases x) simp_all

lemma wp_do_if [wp_rules]: "wp (do_if b m) Q R = (if b then wp m (\<lambda>_. Q ()) R else Q ())"
  by (simp add: do_if_def wp_rules)

lemma wp_stop [wp_rules]: "wp (stop r) Q R = R r"
  by (rule ext) (simp add: wp_def io_simps)

lemma wp_gets [wp_rules]: "wp (gets f) Q R = (\<lambda>s. Q (f s) s)"
  by (rule ext) (simp add: wp_def io_simps)

lemma wp_modify [wp_rules]: "wp (modify f) Q R = (\<lambda>s. Q () (f s))"
  by (rule ext) (simp add: wp_def io_simps)

lemma wp_syscall [wp_rules]:
  "wp (syscall f) Q R =
     (\<lambda>s. Q (fst (f (trace s))) (s\<lparr>trace := trace s @ [snd (f (trace s))]\<rparr>))"
  by (rule ext) (simp add: wp_def io_simps split: prod.splits)

lemma wp_open [wp_rules]:
  "wp (sys_open os p fl) Q R = (\<lambda>s. let fd = os_open os (trace s) p fl
     in Q fd (s\<lparr>trace := trace s @ [Open p fl fd]\<rparr>))"
  by (simp add: syscall_defs get_errno_def uninit_def wp_syscall wp_gets Let_def)

lemma wp_read [wp_rules]:
  "wp (sys_read os fd n) Q R = (\<lambda>s. let d = map_option (take n) (os_read os (trace s) fd n)
     in Q d (s\<lparr>trace := trace s @ [Read fd n d]\<rparr>))"
  by (simp add: syscall_defs get_errno_def uninit_def wp_syscall wp_gets Let_def)

lemma wp_write [wp_rules]:
  "wp (sys_write os fd b) Q R = (\<lambda>s. let r = max (- 1) (min (int (length b)) (os_write os (trace s) fd b))
     in Q r (s\<lparr>trace := trace s @ [Write fd b r]\<rparr>))"
  by (simp add: syscall_defs get_errno_def uninit_def wp_syscall wp_gets Let_def)

lemma wp_lseek [wp_rules]:
  "wp (sys_lseek os fd off w) Q R = (\<lambda>s. let r = os_lseek os (trace s) fd off w
     in Q r (s\<lparr>trace := trace s @ [Lseek fd off w r]\<rparr>))"
  by (simp add: syscall_defs get_errno_def uninit_def wp_syscall wp_gets Let_def)

lemma wp_close [wp_rules]:
  "wp (sys_close fd) Q R = (\<lambda>s. Q () (s\<lparr>trace := trace s @ [Close fd]\<rparr>))"
  by (simp add: syscall_defs get_errno_def uninit_def wp_syscall wp_gets Let_def)

lemma wp_ioctl [wp_rules]:
  "wp (sys_ioctl os fd c a) Q R = (\<lambda>s. let r = os_ioctl os (trace s) fd c a
     in Q r (s\<lparr>trace := trace s @ [Ioctl fd c a (fst r)]\<rparr>))"
  by (simp add: syscall_defs get_errno_def uninit_def wp_syscall wp_gets Let_def)

lemma wp_access [wp_rules]:
  "wp (sys_access os p) Q R = (\<lambda>s. let b = os_access os (trace s) p
     in Q b (s\<lparr>trace := trace s @ [Access p b]\<rparr>))"
  by (simp add: syscall_defs get_errno_def uninit_def wp_syscall wp_gets Let_def)

lemma wp_malloc [wp_rules]:
  "wp (sys_malloc os k) Q R = (\<lambda>s. let b = os_malloc os (trace s) k
     in Q b (s\<lparr>trace := trace s @ [Malloc k b]\<rparr>))"
  by (simp add: syscall_defs get_errno_def uninit_def wp_syscall wp_gets Let_def)

lemma wp_usleep [wp_rules]:
  "wp (sys_usleep m) Q R = (\<lambda>s. Q () (s\<lparr>trace := trace s @ [Sleep m]\<rparr>))"
  by (simp add: syscall_defs get_errno_def uninit_def wp_syscall wp_gets Let_def)

lemma wp_property_get [wp_rules]:
  "wp (property_get os p dflt) Q R = (\<lambda>s.
     let v = strncpy (os_property os (trace s) p) (PROPERTY_VALUE_MAX - 1);
         r = (if v \<noteq> [] then v else dflt)
     in Q r (s\<lparr>trace := trace s @ [Prop_Get p r]\<rparr>))"
  by (simp add: syscall_defs get_errno_def uninit_def wp_syscall wp_gets Let_def)

lemma wp_property_set [wp_rules]:
  "wp (property_set p v) Q R = (\<lambda>s. Q () (s\<lparr>trace := trace s @ [Prop_Set p v]\<rparr>))"
  by (simp add: syscall_defs get_errno_def uninit_def wp_syscall wp_gets Let_def)

lemma wp_system [wp_rules]:
  "wp (sys_system c) Q R = (\<lambda>s. Q () (s\<lparr>trace := trace s @ [Shell c]\<rparr>))"
  by (simp add: syscall_defs get_errno_def uninit_def wp_syscall wp_gets Let_def)

lemma wp_setitimer [wp_rules]:
  "wp (sys_setitimer n) Q R = (\<lambda>s. Q () (s\<lparr>trace := trace s @ [Timer n]\<rparr>))"
  by (simp add: syscall_defs get_errno_def uninit_def wp_syscall wp_gets Let_def)

lemma wp_sleep [wp_rules]:
  "wp (sys_sleep n) Q R = (\<lambda>s. Q () (s\<lparr>trace := trace s @ [Sleep (n * 1000000)]\<rparr>))"
  by (simp add: syscall_defs get_errno_def uninit_def wp_syscall wp_gets Let_def)

lemma wp_thread [wp_rules]:
  "wp (pthread_create os f) Q R = (\<lambda>s. let b = os_thread os (trace s) f
     in Q b (s\<lparr>trace := trace s @ [Thread f b]\<rparr>))"
  by (simp add: syscall_defs get_errno_def uninit_def wp_syscall wp_gets Let_def)

lemma wp_errno [wp_rules]:
  "wp (get_errno os) Q R = (\<lambda>s. Q (os_errno os (trace s)) s)"
  by (simp add: syscall_defs get_errno_def uninit_def wp_syscall wp_gets Let_def)

lemma wp_uninit [wp_rules]:
  "wp (uninit os v) Q R = (\<lambda>s. Q (os_uninit os (trace s) v) s)"
  by (simp add: syscall_defs get_errno_def uninit_def wp_syscall wp_gets Let_def)

lemma wp_dump [wp_rules]:
  "wp cond_signal_dump Q R = (\<lambda>s. Q () (s\<lparr>trace := trace s @ [Signal_Dump]\<rparr>))"
  by (simp add: syscall_defs get_errno_def uninit_def wp_syscall wp_gets Let_def)

lemma wp_conseq:
  "wp m Q R s \<Longrightarrow> (\<And>a t. Q a t \<Longrightarrow> Q' a t) \<Longrightarrow> (\<And>r t. R r t \<Longrightarrow> R' r t) \<Longrightarrow> wp m Q' R' s"
  by (auto simp: wp_def split: result.splits)

lemma wp_any: "(\<And>a t. Q a t) \<Longrightarrow> (\<And>r t. R r t) \<Longrightarrow> wp m Q R s"
  by (auto simp: wp_def split: result.splits)

lemma wp_conj:
  "wp m Q R s \<Longrightarrow> wp m Q' R' s \<Longrightarrow> wp m (\<lambda>a t. Q a t \<and> Q' a t) (\<lambda>r t. R r t \<and> R' r t) s"
  by (auto simp: wp_def split: result.splits)

text \<open>
  \<open>keeps I m\<close>: if \<open>I\<close> holds before \<open>m\<close> it holds when \<open>m\<close> returns. \<open>ensures m I\<close>: it
  holds when \<open>m\<close> returns, whatever held before.
\<close>

definition keeps :: "('s \<Rightarrow> bool) \<Rightarrow> ('s, 'a) io \<Rightarrow> bool" where
  "keeps I m \<longleftrightarrow> (\<forall>s. I s \<longrightarrow> wp m (\<lambda>_. I) (\<lambda>_ _. True) s)"

definition ensures :: "('s, 'a) io \<Rightarrow> ('s \<Rightarrow> bool) \<Rightarrow> bool" where
  "ensures m I \<longleftrightarrow> (\<forall>s. wp m (\<lambda>_. I) (\<lambda>_ _. True) s)"

named_theorems keeps_intros "rules for invariants kept by a program"
named_theorems ensures_intros "rules for conditions established by a program"

lemma keeps_return [keeps_intros]: "keeps I (return a)"
  by (simp add: keeps_def wp_rules)

lemma keeps_bind [keeps_intros]: "keeps I m \<Longrightarrow> (\<And>a. keeps I (f a)) \<Longrightarrow> keeps I (bind m f)"
  unfolding keeps_def wp_bind by (blast intro: wp_conseq)

lemma keeps_seq [keeps_intros]: "keeps I m \<Longrightarrow> keeps I n \<Longrightarrow> keeps I (seq m n)"
  unfolding seq_def by (rule keeps_bind)

lemma keeps_if [keeps_intros]:
  "(b \<Longrightarrow> keeps I m) \<Longrightarrow> (\<not> b \<Longrightarrow> keeps I n) \<Longrightarrow> keeps I (if b then m else n)"
  by simp

lemma keeps_option [keeps_intros]:
  "(x = None \<Longrightarrow> keeps I m) \<Longrightarrow> (\<And>a. x = Some a \<Longrightarrow> keeps I (f a)) \<Longrightarrow>
   keeps I (case x of None \<Rightarrow> m | Some a \<Rightarrow> f a)"
  by (cases x) simp_all

lemma keeps_do_if [keeps_intros]: "(b \<Longrightarrow> keeps I m) \<Longrightarrow> keeps I (do_if b m)"
  by (simp add: keeps_def wp_rules)

lemma keeps_stop [keeps_intros]: "keeps I (stop r)"
  by (simp add: keeps_def wp_rules)

lemma keeps_gets [keeps_intros]: "keeps I (gets f)"
  by (simp add: keeps_def wp_rules)

lemma keeps_modify: "(\<And>s. I s \<Longrightarrow> I (f s)) \<Longrightarrow> keeps I (modify f)"
  by (simp add: keeps_def wp_rules)

lemma keeps_syscall:
  "(\<And>s. I s \<Longrightarrow> I (s\<lparr>trace := trace s @ [snd (f (trace s))]\<rparr>)) \<Longrightarrow> keeps I (syscall f)"
  by (simp add: keeps_def wp_rules)

lemma ensures_last [ensures_intros]: "(\<And>a. ensures (f a) I) \<Longrightarrow> ensures (bind m f) I"
  unfolding ensures_def wp_bind by (auto intro: wp_any)

lemma ensures_seq_last [ensures_intros]: "ensures n I \<Longrightarrow> ensures (seq m n) I"
  unfolding seq_def by (rule ensures_last)

lemma ensures_seq_first: "ensures m I \<Longrightarrow> keeps I n \<Longrightarrow> ensures (seq m n) I"
  unfolding ensures_def keeps_def seq_def wp_bind by (blast intro: wp_conseq)

lemma ensures_if [ensures_intros]:
  "(b \<Longrightarrow> ensures m I) \<Longrightarrow> (\<not> b \<Longrightarrow> ensures n I) \<Longrightarrow> ensures (if b then m else n) I"
  by simp

lemma ensures_option [ensures_intros]:
  "(x = None \<Longrightarrow> ensures m I) \<Longrightarrow> (\<And>a. x = Some a \<Longrightarrow> ensures (f a) I) \<Longrightarrow>
   ensures (case x of None \<Rightarrow> m | Some a \<Rightarrow> f a) I"
  by (cases x) simp_all

lemma ensures_stop [ensures_intros]: "ensures (stop r) I"
  by (simp add: ensures_def wp_rules)

text \<open>\<open>grows m\<close>: \<open>m\<close> only appends to the trace.\<close>

definition grows :: "('z world_scheme, 'a) io \<Rightarrow> bool" where
  "grows m \<longleftrightarrow> (\<forall>tr. keeps (\<lambda>s. prefix tr (trace s)) m)"

named_theorems grows_intros "programs that only append to the trace"

lemma grows_return [grows_intros]: "grows (return a)"
  by (simp add: grows_def keeps_return)

lemma grows_bind [grows_intros]: "grows m \<Longrightarrow> (\<And>a. grows (f a)) \<Longrightarrow> grows (bind m f)"
  by (simp add: grows_def keeps_bind)

lemma grows_seq [grows_intros]: "grows m \<Longrightarrow> grows n \<Longrightarrow> grows (seq m n)"
  by (simp add: grows_def keeps_seq)

lemma grows_if [grows_intros]: "(b \<Longrightarrow> grows m) \<Longrightarrow> (\<not> b \<Longrightarrow> grows n) \<Longrightarrow> grows (if b then m else n)"
  by simp

lemma grows_option [grows_intros]:
  "(x = None \<Longrightarrow> grows m) \<Longrightarrow> (\<And>a. x = Some a \<Longrightarrow> grows (f a)) \<Longrightarrow>
   grows (case x of None \<Rightarrow> m | Some a \<Rightarrow> f a)"
  by (cases x) simp_all

lemma grows_do_if [grows_intros]: "(b \<Longrightarrow> grows m) \<Longrightarrow> grows (do_if b m)"
  by (simp add: grows_def keeps_do_if)

lemma grows_stop [grows_intros]: "grows (stop r)"
  by (simp add: grows_def keeps_stop)

lemma grows_gets [grows_intros]: "grows (gets f)"
  by (simp add: grows_def keeps_gets)

lemma grows_modify [grows_intros]: "(\<And>s. trace (f s) = trace s) \<Longrightarrow> grows (modify f)"
  by (simp add: grows_def keeps_modify)

lemma grows_syscall [grows_intros]: "grows (syscall f)"
  by (auto simp: grows_def intro!: keeps_syscall)

lemma grows_calls [grows_intros]:
  "grows (sys_open os p fl)" "grows (sys_read os fd n)" "grows (sys_write os fd d)"
  "grows (sys_lseek os fd off w)" "grows (sys_close fd)" "grows (sys_ioctl os fd c a)"
  "grows (sys_access os p)" "grows (sys_malloc os k)" "grows (sys_usleep n)" "grows (sys_sleep n)"
  "grows (property_get os p v)" "grows (property_set p v)" "grows (sys_system p)"
  "grows (sys_setitimer n)" "grows (pthread_create os p)" "grows (sys_select os l)"
  "grows (sys_accept os)" "grows (kernel_bootcp_verify_all os t)"
  "grows (kernel_bootcp_unlock_ddr os t)" "grows (secure_check code len vlr puk)" "grows cond_signal_dump"
  "grows (TEECex_SendMsg_To_TEE os d)" "grows (sys_chown os p)" "grows (sys_opendir os p)"
  "grows (sys_mkdir os p)" "grows (sys_print p)" "grows (mutex_lock m)" "grows (mutex_unlock m)"
  "grows (cond_timedwait n)" "grows (sys_signal p)" "grows (sys_setgroups os gs)" "grows prctl_keepcaps"
  "grows (sys_setuid os u)" "grows (sys_capset os cs)" "grows (uevent_open_socket os)" "grows (sys_poll os fd)"
  by (simp_all add: syscall_defs grows_syscall)

lemma grows_reads [grows_intros]: "grows (get_errno os)" "grows (uninit os v)"
  by (simp_all add: get_errno_def uninit_def grows_gets)

lemma wp_grows:
  "grows m \<Longrightarrow> (\<And>a t. prefix (trace s) (trace t) \<Longrightarrow> Q a t) \<Longrightarrow> (\<And>r t. R r t) \<Longrightarrow> wp m Q R s"
  unfolding grows_def keeps_def
  by (rule wp_conseq [where Q = "\<lambda>_ t. prefix (trace s) (trace t)" and R = "\<lambda>_ _. True"]) auto

lemma wp_grows_chain:
  "grows m \<Longrightarrow> prefix tr (trace s) \<Longrightarrow> (\<And>a t. prefix tr (trace t) \<Longrightarrow> Q a t) \<Longrightarrow>
   (\<And>r t. R r t) \<Longrightarrow> wp m Q R s"
  by (rule wp_grows) (auto intro: prefix_order.trans)

text \<open>What has happened stays in the trace.\<close>

lemma grows_happened: "grows m \<Longrightarrow> keeps (\<lambda>s. E \<subseteq> set (trace s)) m"
  unfolding keeps_def
  by (auto intro!: wp_grows dest: set_mono_prefix)

lemma grows_keeps:
  "grows m \<Longrightarrow> (\<And>s t. prefix (trace s) (trace t) \<Longrightarrow> I s \<Longrightarrow> I t) \<Longrightarrow> keeps I m"
  unfolding keeps_def by (blast intro: wp_grows)

lemma keeps_wp: "keeps I m \<Longrightarrow> I s \<Longrightarrow> (\<And>a t. I t \<Longrightarrow> Q a t) \<Longrightarrow> (\<And>r t. R r t) \<Longrightarrow> wp m Q R s"
  unfolding keeps_def by (blast intro: wp_conseq)

lemma ensures_keeps: "ensures m I \<Longrightarrow> keeps I m"
  by (simp add: ensures_def keeps_def)

section \<open>Trace disciplines\<close>

text \<open>
  A discipline is an automaton over events; \<open>tracks step r m N\<close> says that \<open>m\<close>, started in
  a world whose trace has brought the automaton to \<open>r\<close>, leaves it at \<open>N a\<close> when it
  returns \<open>a\<close>, and never drives it into an error, also when \<open>m\<close> does not return.
\<close>

fun run_events :: "('r \<Rightarrow> event \<Rightarrow> 'r option) \<Rightarrow> 'r \<Rightarrow> event list \<Rightarrow> 'r option" where
  "run_events step r [] = Some r"
| "run_events step r (e # es) = (case step r e of None \<Rightarrow> None | Some r' \<Rightarrow> run_events step r' es)"

definition tracks ::
  "('r \<Rightarrow> event \<Rightarrow> 'r option) \<Rightarrow> 'r \<Rightarrow> ('z world_scheme, 'a) io \<Rightarrow> ('a \<Rightarrow> 'r) \<Rightarrow> bool" where
  "tracks step r m N \<longleftrightarrow>
     (\<forall>s r0. run_events step r0 (trace s) = Some r \<longrightarrow>
        wp m (\<lambda>a t. run_events step r0 (trace t) = Some (N a))
          (\<lambda>_ t. run_events step r0 (trace t) \<noteq> None) s)"

lemma run_events_append:
  "run_events step r (es @ fs) =
     (case run_events step r es of None \<Rightarrow> None | Some r' \<Rightarrow> run_events step r' fs)"
  by (induction es arbitrary: r) (auto split: option.splits)

lemma tracks_return [track_intros]: "N a = r \<Longrightarrow> tracks step r (return a) N"
  by (simp add: tracks_def wp_rules)

lemma tracks_bind [track_intros]:
  "tracks step r m N \<Longrightarrow> (\<And>a. tracks step (N a) (f a) K) \<Longrightarrow> tracks step r (bind m f) K"
  unfolding tracks_def wp_bind by (blast intro: wp_conseq)

lemma tracks_seq [track_intros]:
  "tracks step r m (\<lambda>_. r') \<Longrightarrow> tracks step r' n K \<Longrightarrow> tracks step r (seq m n) K"
  unfolding seq_def by (rule tracks_bind)

lemma tracks_if [track_intros]:
  "(b \<Longrightarrow> tracks step r m N) \<Longrightarrow> (\<not> b \<Longrightarrow> tracks step r n N) \<Longrightarrow>
   tracks step r (if b then m else n) N"
  by simp

lemma tracks_option [track_intros]:
  "(x = None \<Longrightarrow> tracks step r m N) \<Longrightarrow> (\<And>a. x = Some a \<Longrightarrow> tracks step r (f a) N) \<Longrightarrow>
   tracks step r (case x of None \<Rightarrow> m | Some a \<Rightarrow> f a) N"
  by (cases x) simp_all

lemma tracks_do_if [track_intros]:
  "(b \<Longrightarrow> tracks step r m (\<lambda>_. N ())) \<Longrightarrow> (\<not> b \<Longrightarrow> N () = r) \<Longrightarrow> tracks step r (do_if b m) N"
  by (auto simp: tracks_def wp_rules)

lemma tracks_stop [track_intros]: "tracks step r (stop x) N"
  by (simp add: tracks_def wp_rules)

lemma tracks_gets [track_intros]: "(\<And>a. N a = r) \<Longrightarrow> tracks step r (gets f) N"
  by (simp add: tracks_def wp_rules)

lemma tracks_modify [track_intros]:
  "(\<And>s. trace (f s) = trace s) \<Longrightarrow> N () = r \<Longrightarrow> tracks step r (modify f) N"
  by (simp add: tracks_def wp_rules)

lemma tracks_syscall:
  "(\<And>tr. step r (snd (f tr)) = Some (N (fst (f tr)))) \<Longrightarrow> tracks step r (syscall f) N"
  by (auto simp: tracks_def wp_rules Let_def run_events_append)

lemma tracks_same: "tracks step r m (\<lambda>_. r') \<Longrightarrow> (\<And>a. N a = r') \<Longrightarrow> tracks step r m N"
  by (simp add: tracks_def)

lemma tracksD:
  "tracks step r m N \<Longrightarrow> run_events step r0 (trace s) = Some r \<Longrightarrow> m s = Ret a t \<Longrightarrow>
   run_events step r0 (trace t) = Some (N a)"
  by (auto simp: tracks_def wp_def dest!: spec [of _ s] spec [of _ r0])

lemma tracks_safe:
  "tracks step r m N \<Longrightarrow> run_events step r0 (trace s) = Some r \<Longrightarrow>
   run_events step r0 (trace (final (m s))) \<noteq> None"
  by (cases "m s") (auto simp: tracks_def wp_def dest!: spec [of _ s] spec [of _ r0])

section \<open>Events a program may emit\<close>

text \<open>\<open>emits P m\<close>: every event \<open>m\<close> appends satisfies \<open>P\<close>.\<close>

definition emits :: "(event \<Rightarrow> bool) \<Rightarrow> ('z world_scheme, 'a) io \<Rightarrow> bool" where
  "emits P m \<longleftrightarrow> (\<forall>s. wp m (\<lambda>_ t. \<exists>es. trace t = trace s @ es \<and> list_all P es)
     (\<lambda>_ t. \<exists>es. trace t = trace s @ es \<and> list_all P es) s)"

named_theorems emits_intros "programs whose events satisfy a predicate"

lemma emits_return [emits_intros]: "emits P (return a)"
  by (simp add: emits_def wp_rules)

lemma emits_bind [emits_intros]:
  assumes "emits P m" "\<And>a. emits P (f a)"
  shows "emits P (bind m f)"
  unfolding emits_def wp_bind
proof
  fix s :: "'a world_scheme"
  let ?E = "\<lambda>s _ t. \<exists>es. trace t = trace s @ es \<and> list_all P es"
  have "?E s () t \<Longrightarrow> wp (f a) (?E s) (?E s) t" for a t
    by (rule wp_conseq [OF assms(2) [unfolded emits_def, rule_format, of a t]]) (fastforce simp: list_all_append)+
  then show "wp m (\<lambda>a. wp (f a) (?E s) (?E s)) (?E s) s"
    by (intro wp_conseq [OF assms(1) [unfolded emits_def, rule_format, of s]]) auto
qed

lemma emits_seq [emits_intros]: "emits P m \<Longrightarrow> emits P n \<Longrightarrow> emits P (seq m n)"
  unfolding seq_def by (rule emits_bind)

lemma emits_if [emits_intros]:
  "(b \<Longrightarrow> emits P m) \<Longrightarrow> (\<not> b \<Longrightarrow> emits P n) \<Longrightarrow> emits P (if b then m else n)"
  by simp

lemma emits_option [emits_intros]:
  "(x = None \<Longrightarrow> emits P m) \<Longrightarrow> (\<And>a. x = Some a \<Longrightarrow> emits P (f a)) \<Longrightarrow>
   emits P (case x of None \<Rightarrow> m | Some a \<Rightarrow> f a)"
  by (cases x) simp_all

lemma emits_do_if [emits_intros]: "(b \<Longrightarrow> emits P m) \<Longrightarrow> emits P (do_if b m)"
  by (simp add: emits_def wp_rules)

lemma emits_stop [emits_intros]: "emits P (stop r)"
  by (simp add: emits_def wp_rules)

lemma emits_gets [emits_intros]: "emits P (gets f)"
  by (simp add: emits_def wp_rules)

lemma emits_modify [emits_intros]: "(\<And>s. trace (f s) = trace s) \<Longrightarrow> emits P (modify f)"
  by (simp add: emits_def wp_rules)

lemma emits_syscall: "(\<And>tr. P (snd (f tr))) \<Longrightarrow> emits P (syscall f)"
  by (auto simp: emits_def wp_rules)

lemma emits_reads [emits_intros]: "emits P (get_errno os)" "emits P (uninit os v)"
  by (simp_all add: get_errno_def uninit_def emits_gets)

lemma run_events_neutral:
  "list_all P es \<Longrightarrow> (\<And>e. P e \<Longrightarrow> step r e = Some r) \<Longrightarrow> run_events step r es = Some r"
  by (induction es) auto

lemma emits_tracks: "emits P m \<Longrightarrow> (\<And>e. P e \<Longrightarrow> step r e = Some r) \<Longrightarrow> tracks step r m (\<lambda>_. r)"
proof -
  assume m: "emits P m" and neutral: "\<And>e. P e \<Longrightarrow> step r e = Some r"
  show ?thesis
    unfolding tracks_def
  proof (intro allI impI)
    fix s :: "'a world_scheme" and r0
    assume r: "run_events step r0 (trace s) = Some r"
    have "run_events step r es = Some r" if "list_all P es" for es
      using that neutral by (rule run_events_neutral)
    with r show "wp m (\<lambda>_ t. run_events step r0 (trace t) = Some r) (\<lambda>_ t. run_events step r0 (trace t) \<noteq> None) s"
      by (intro wp_conseq [OF m [unfolded emits_def, rule_format]]) (auto simp: run_events_append)
  qed
qed

section \<open>A cooperative environment\<close>

text \<open>
  An environment in which every call succeeds: descriptors are numbered from 3, reads
  deliver zero bytes (NUL), writes are complete, and no property is set. The witnesses run
  the model in it and in variations of it.
\<close>

definition ok_os :: os where
  "ok_os = \<lparr>os_open = (\<lambda>tr p fl. int (length tr) + 3), os_read = (\<lambda>tr fd n. Some (replicate n NUL)),
     os_write = (\<lambda>tr fd d. int (length d)), os_lseek = (\<lambda>tr fd off w. off),
     os_ioctl = (\<lambda>tr fd c a. (0, a)), os_access = (\<lambda>tr p. True), os_malloc = (\<lambda>tr n. True),
     os_property = (\<lambda>tr p. []), os_errno = (\<lambda>tr. EOTHER), os_thread = (\<lambda>tr f. True),
     os_select = (\<lambda>tr fds. Some fds), os_accept = (\<lambda>tr. int (length tr) + 3),
     os_pipe = (\<lambda>tr. (0, int (length tr) + 3, int (length tr) + 4)),
     os_socket_server = (\<lambda>tr. int (length tr) + 3), os_kbc_verify = (\<lambda>tr t. 0),
     os_kbc_unlock = (\<lambda>tr t. 0), os_tee = (\<lambda>tr m. None), os_chown = (\<lambda>tr p. True),
     os_readdir = (\<lambda>tr p. None),
     os_uninit = (\<lambda>tr v. 0), os_mkdir = (\<lambda>tr p. True), os_privilege = (\<lambda>tr. True),
     os_uevent_socket = (\<lambda>tr. int (length tr) + 3), os_poll = (\<lambda>tr. 1), os_others = (\<lambda>tr x. x),
     os_patience = 5\<rparr>"

end
