(* ===== verification/Trace_Discipline.thy ===== *)
theory Trace_Discipline
  imports OS_World
begin

text \<open>
  The disciplines the components are checked against, as automata over events: a
  descriptor is used only between its \<open>open\<close> and its \<open>close\<close> and is closed exactly once
  (\<open>fd_step\<close>); the suspend blocker \<open>modem_control\<close> is taken and released (\<open>wake_step\<close>).
  The locales state what an automaton promises about events it does not look at; their
  lemmas give the composition rules for the corresponding system calls once.
\<close>

section \<open>Events that no resource depends on\<close>

fun quiet :: "event \<Rightarrow> bool" where
  "quiet (Access p b) = True"
| "quiet (Malloc n b) = True"
| "quiet (Sleep n) = True"
| "quiet (Prop_Get p v) = True"
| "quiet (Prop_Set p v) = True"
| "quiet (Shell c) = True"
| "quiet (Timer n) = True"
| "quiet (Thread f b) = True"
| "quiet (Select a b) = True"
| "quiet Signal_Dump = True"
| "quiet (Kbc_Verify t r) = True"
| "quiet (Kbc_Unlock t r) = True"
| "quiet (Secure_Check code len vlr puk) = True"
| "quiet (Tee_Msg m r) = True"
| "quiet (Chown p b) = True"
| "quiet (Opendir p b) = True"
| "quiet (Mkdir p b) = True"
| "quiet (Print p) = True"
| "quiet (Cond_Timedwait n) = True"
| "quiet (Sigaction p) = True"
| "quiet (Setgroups g b) = True"
| "quiet Prctl_Keepcaps = True"
| "quiet (Setuid n b) = True"
| "quiet (Capset c b) = True"
| "quiet (Poll fd r) = True"
| "quiet _ = False"

locale quiet_discipline =
  fixes step :: "'r \<Rightarrow> event \<Rightarrow> 'r option"
  assumes quiet_step: "quiet e \<Longrightarrow> step r e = Some r"
begin

lemma quiet_call: "(\<And>tr. quiet (snd (f tr))) \<Longrightarrow> tracks step r (syscall f) (\<lambda>_. r)"
  by (rule tracks_syscall) (simp add: quiet_step)

lemma access: "tracks step r (sys_access os p) (\<lambda>_. r)"
  unfolding syscall_defs by (rule quiet_call) (simp add: Let_def)

lemma malloc: "tracks step r (sys_malloc os n) (\<lambda>_. r)"
  unfolding syscall_defs by (rule quiet_call) (simp add: Let_def)

lemma usleep: "tracks step r (sys_usleep n) (\<lambda>_. r)"
  unfolding syscall_defs by (rule quiet_call) simp

lemma sleep: "tracks step r (sys_sleep n) (\<lambda>_. r)"
  unfolding sys_sleep_def by (rule usleep)

lemma prop_get: "tracks step r (property_get os p d) (\<lambda>_. r)"
  unfolding syscall_defs by (rule quiet_call) (simp add: Let_def)

lemma prop_set: "tracks step r (property_set p v) (\<lambda>_. r)"
  unfolding syscall_defs by (rule quiet_call) simp

lemma system: "tracks step r (sys_system c) (\<lambda>_. r)"
  unfolding syscall_defs by (rule quiet_call) simp

lemma setitimer: "tracks step r (sys_setitimer n) (\<lambda>_. r)"
  unfolding syscall_defs by (rule quiet_call) simp

lemma thread: "tracks step r (pthread_create os f) (\<lambda>_. r)"
  unfolding syscall_defs by (rule quiet_call) (simp add: Let_def)

lemma select: "tracks step r (sys_select os fds) (\<lambda>_. r)"
  unfolding syscall_defs by (rule quiet_call) (simp add: Let_def)

lemma dump_signal: "tracks step r cond_signal_dump (\<lambda>_. r)"
  unfolding syscall_defs by (rule quiet_call) simp

lemma kbc_verify: "tracks step r (kernel_bootcp_verify_all os t) (\<lambda>_. r)"
  unfolding syscall_defs by (rule quiet_call) (simp add: Let_def)

lemma kbc_unlock: "tracks step r (kernel_bootcp_unlock_ddr os t) (\<lambda>_. r)"
  unfolding syscall_defs by (rule quiet_call) (simp add: Let_def)

lemma check: "tracks step r (secure_check code len vlr puk) (\<lambda>_. r)"
  unfolding syscall_defs by (rule quiet_call) simp

lemma tee: "tracks step r (TEECex_SendMsg_To_TEE os m) (\<lambda>_. r)"
  unfolding syscall_defs by (rule quiet_call) (simp add: Let_def)

lemma chown: "tracks step r (sys_chown os p) (\<lambda>_. r)"
  unfolding syscall_defs by (rule quiet_call) (simp add: Let_def)

lemma opendir: "tracks step r (sys_opendir os p) (\<lambda>_. r)"
  unfolding syscall_defs by (rule quiet_call) (simp add: Let_def)

lemma mkdir: "tracks step r (sys_mkdir os p) (\<lambda>_. r)"
  unfolding syscall_defs by (rule quiet_call) (simp add: Let_def)

lemma print: "tracks step r (sys_print p) (\<lambda>_. r)"
  unfolding syscall_defs by (rule quiet_call) simp

lemma timedwait: "tracks step r (cond_timedwait n) (\<lambda>_. r)"
  unfolding syscall_defs by (rule quiet_call) simp

lemma signal: "tracks step r (sys_signal p) (\<lambda>_. r)"
  unfolding syscall_defs by (rule quiet_call) simp

lemma privileges:
  "tracks step r (sys_setgroups os gs) (\<lambda>_. r)" "tracks step r prctl_keepcaps (\<lambda>_. r)"
  "tracks step r (sys_setuid os u) (\<lambda>_. r)" "tracks step r (sys_capset os cs) (\<lambda>_. r)"
  unfolding syscall_defs by (rule quiet_call, simp add: Let_def)+

lemma poll: "tracks step r (sys_poll os fd) (\<lambda>_. r)"
  unfolding syscall_defs by (rule quiet_call) (simp add: Let_def)

lemma errno: "tracks step r (get_errno os) (\<lambda>_. r)"
  unfolding get_errno_def by (rule tracks_gets) simp

lemma local_var: "tracks step r (uninit os v) (\<lambda>_. r)"
  unfolding uninit_def by (rule tracks_gets) simp

lemmas quiet_intros = access malloc usleep sleep prop_get prop_set system setitimer thread select
  dump_signal kbc_verify kbc_unlock check tee chown opendir mkdir print timedwait signal
  privileges poll errno local_var

end

text \<open>An automaton that looks at \<open>open\<close> calls only.\<close>

locale open_discipline = quiet_discipline +
  assumes only_opens: "(\<And>p fl fd. e \<noteq> Open p fl fd) \<Longrightarrow> step r e = Some r"
begin

lemma other_call: "(\<And>tr p fl fd. snd (f tr) \<noteq> Open p fl fd) \<Longrightarrow> tracks step r (syscall f) (\<lambda>_. r)"
  by (rule tracks_syscall) (simp add: only_opens)

lemma read: "tracks step r (sys_read os fd n) (\<lambda>_. r)"
  unfolding syscall_defs by (rule other_call) (simp add: Let_def)

lemma write_call: "tracks step r (sys_write os fd d) (\<lambda>_. r)"
  unfolding syscall_defs by (rule other_call) (simp add: Let_def)

lemma lseek: "tracks step r (sys_lseek os fd off w) (\<lambda>_. r)"
  unfolding syscall_defs by (rule other_call) (simp add: Let_def)

lemma close: "tracks step r (sys_close fd) (\<lambda>_. r)"
  unfolding syscall_defs by (rule other_call) simp

lemma ioctl: "tracks step r (sys_ioctl os fd c a) (\<lambda>_. r)"
  unfolding syscall_defs by (rule other_call) (simp add: Let_def)

lemma mutex: "tracks step r (mutex_lock m) (\<lambda>_. r)" "tracks step r (mutex_unlock m) (\<lambda>_. r)"
  unfolding syscall_defs by (rule other_call, simp)+

lemma accepted: "tracks step r (sys_accept os) (\<lambda>_. r)"
  unfolding syscall_defs by (rule other_call) (simp add: Let_def)

lemmas open_intros = quiet_intros read write_call lseek close ioctl mutex accepted

end

section \<open>Descriptors\<close>

fun fd_step :: "int multiset \<Rightarrow> event \<Rightarrow> int multiset option" where
  "fd_step M (Open p fl fd) = Some (if fd < 0 then M else add_mset fd M)"
| "fd_step M (Read fd n d) = (if fd \<in># M then Some M else None)"
| "fd_step M (Write fd d r) = (if fd \<in># M then Some M else None)"
| "fd_step M (Lseek fd a w r) = (if fd \<in># M then Some M else None)"
| "fd_step M (Ioctl fd c a r) = (if fd \<in># M then Some M else None)"
| "fd_step M (Close fd) = (if fd \<in># M then Some (M - {#fd#}) else None)"
| "fd_step M (Accept fd) = Some (if fd < 0 then M else add_mset fd M)"
| "fd_step M (Socket_Server fd) = Some (if fd < 0 then M else add_mset fd M)"
| "fd_step M (Pipe r a b) = Some (if r < 0 then M else add_mset a (add_mset b M))"
| "fd_step M (Uevent_Socket fd) = Some (if fd < 0 then M else add_mset fd M)"
| "fd_step M _ = Some M"

text \<open>
  \<open>fd_clean m\<close>: whatever descriptors are open when \<open>m\<close> starts, \<open>m\<close> uses only open
  descriptors and returns with exactly the same ones open.
\<close>

definition fd_clean :: "('z world_scheme, 'a) io \<Rightarrow> bool" where
  "fd_clean m \<longleftrightarrow> (\<forall>M. tracks fd_step M m (\<lambda>_. M))"

interpretation fd: quiet_discipline fd_step
proof
  fix e r
  show "quiet e \<Longrightarrow> fd_step r e = Some r" by (cases e) simp_all
qed

lemma fd_open: "tracks fd_step M (sys_open os p fl) (\<lambda>fd. if fd < 0 then M else add_mset fd M)"
  unfolding syscall_defs by (rule tracks_syscall) (simp add: Let_def)

lemma fd_accept: "tracks fd_step M (sys_accept os) (\<lambda>fd. if fd < 0 then M else add_mset fd M)"
  unfolding syscall_defs by (rule tracks_syscall) (simp add: Let_def)

lemma fd_pipe: "tracks fd_step M (sys_pipe os) (\<lambda>(r, a, b). if r < 0 then M else add_mset a (add_mset b M))"
  unfolding syscall_defs by (rule tracks_syscall) (simp add: Let_def case_prod_beta)

lemma fd_server: "tracks fd_step M (socket_local_server os) (\<lambda>fd. if fd < 0 then M else add_mset fd M)"
  unfolding syscall_defs by (rule tracks_syscall) (simp add: Let_def)

lemma fd_uevent: "tracks fd_step M (uevent_open_socket os) (\<lambda>fd. if fd < 0 then M else add_mset fd M)"
  unfolding syscall_defs by (rule tracks_syscall) (simp add: Let_def)

lemma fd_mutex: "tracks fd_step M (mutex_lock m) (\<lambda>_. M)" "tracks fd_step M (mutex_unlock m) (\<lambda>_. M)"
  unfolding syscall_defs by (rule tracks_syscall, simp)+

lemma fd_read: "fd \<in># M \<Longrightarrow> tracks fd_step M (sys_read os fd n) (\<lambda>_. M)"
  unfolding syscall_defs by (rule tracks_syscall) (simp add: Let_def)

lemma fd_write: "fd \<in># M \<Longrightarrow> tracks fd_step M (sys_write os fd d) (\<lambda>_. M)"
  unfolding syscall_defs by (rule tracks_syscall) (simp add: Let_def)

lemma fd_lseek: "fd \<in># M \<Longrightarrow> tracks fd_step M (sys_lseek os fd off w) (\<lambda>_. M)"
  unfolding syscall_defs by (rule tracks_syscall) (simp add: Let_def)

lemma fd_ioctl: "fd \<in># M \<Longrightarrow> tracks fd_step M (sys_ioctl os fd c a) (\<lambda>_. M)"
  unfolding syscall_defs by (rule tracks_syscall) (simp add: Let_def)

lemma fd_close: "fd \<in># M \<Longrightarrow> tracks fd_step M (sys_close fd) (\<lambda>_. M - {#fd#})"
  unfolding syscall_defs by (rule tracks_syscall) simp

lemma fd_close_last:
  "fd \<in># M \<Longrightarrow> M - {#fd#} = M' \<Longrightarrow> tracks fd_step M (sys_close fd) (\<lambda>_. M')"
  using fd_close by blast

lemmas fd_intros = fd_open fd_accept fd_read fd_write fd_lseek fd_ioctl fd_close fd_close_last
  fd_server fd_uevent fd_mutex fd.quiet_intros

lemma fd_cleanI: "(\<And>M. tracks fd_step M m (\<lambda>_. M)) \<Longrightarrow> fd_clean m"
  by (simp add: fd_clean_def)

lemma fd_cleanD: "fd_clean m \<Longrightarrow> tracks fd_step M m (\<lambda>_. M)"
  by (simp add: fd_clean_def)

section \<open>Data moved through descriptors\<close>

text \<open>The bytes delivered by \<open>read\<close>, offered to \<open>write\<close> and accepted by it, in order.\<close>

fun read_data :: "event list \<Rightarrow> bytes" where
  "read_data [] = []"
| "read_data (Read fd n (Some d) # es) = d @ read_data es"
| "read_data (_ # es) = read_data es"

fun offered_data :: "event list \<Rightarrow> bytes" where
  "offered_data [] = []"
| "offered_data (Write fd d r # es) = d @ offered_data es"
| "offered_data (_ # es) = offered_data es"

fun accepted_data :: "event list \<Rightarrow> bytes" where
  "accepted_data [] = []"
| "accepted_data (Write fd d r # es) = take (nat r) d @ accepted_data es"
| "accepted_data (_ # es) = accepted_data es"

fun moves_between :: "int \<Rightarrow> int \<Rightarrow> event \<Rightarrow> bool" where
  "moves_between fdin fdout (Read fd n d) = (fd = fdin)"
| "moves_between fdin fdout (Write fd d r) = (fd = fdout)"
| "moves_between fdin fdout _ = False"

fun full_write :: "event \<Rightarrow> bool" where
  "full_write (Write fd d r) = (r = int (length d))"
| "full_write _ = True"

lemma full_writes_accept: "list_all full_write es \<Longrightarrow> accepted_data es = offered_data es"
  by (induction es rule: accepted_data.induct) auto

section \<open>The suspend blocker\<close>

text \<open>
  \<open>wake_step\<close> follows the requests to take (\<open>wake_lock\<close>) and to drop
  (\<open>wake_unlock\<close>) the suspend blocker: the kernel keeps one blocker per name, so the last
  request decides.
\<close>

definition wake_lock_path :: string where "wake_lock_path = ''/sys/power/wake_lock''"
definition wake_unlock_path :: string where "wake_unlock_path = ''/sys/power/wake_unlock''"

fun wake_step :: "bool \<Rightarrow> event \<Rightarrow> bool option" where
  "wake_step b (Open p fl fd) =
     (if p = wake_lock_path then Some True else if p = wake_unlock_path then Some False else Some b)"
| "wake_step b _ = Some b"

interpretation wake: open_discipline wake_step
proof
  fix e r
  show "quiet e \<Longrightarrow> wake_step r e = Some r" by (cases e) simp_all
  show "(\<And>p fl fd. e \<noteq> Open p fl fd) \<Longrightarrow> wake_step r e = Some r" by (cases e) auto
qed

lemma wake_open: "p \<noteq> wake_lock_path \<Longrightarrow> p \<noteq> wake_unlock_path \<Longrightarrow>
  tracks wake_step b (sys_open os p fl) (\<lambda>_. b)"
  unfolding syscall_defs by (rule tracks_syscall) (simp add: Let_def)

lemma wake_open_lock: "tracks wake_step b (sys_open os wake_lock_path fl) (\<lambda>_. True)"
  unfolding syscall_defs by (rule tracks_syscall) (simp add: Let_def)

lemma wake_open_unlock: "tracks wake_step b (sys_open os wake_unlock_path fl) (\<lambda>_. False)"
  unfolding syscall_defs
  by (rule tracks_syscall) (simp add: Let_def wake_lock_path_def wake_unlock_path_def)

end
