(* ===== verification/Control_Base.thy ===== *)
theory Control_Base
  imports Trace_Discipline
begin

text \<open>
  The base layer of \<open>modem_control.c\<close> and \<open>main.c\<close>: the file-scope variables of the
  controller, their setters and getters, the suspend blocker, the bus monitor and MPU
  switches, and the readers of the kernel command line and of the device properties.
  Every other component is built on it.
\<close>

section \<open>State\<close>

record ctl_world = world +
  g_modem_type :: modem_kind
  wait_modem_reset :: bool
  g_modem_state :: modem_state
  alive_timer_sec :: nat
  b_miniap_panic :: bool
  bm_failed :: bool
  mpu_failed :: bool
  g_boot_mode :: boot_mode

definition ctl_start :: ctl_world where
  "ctl_start = \<lparr>trace = [], g_modem_type = NO_MODEM, wait_modem_reset = False,
     g_modem_state = MODEM_STATE_INIT, alive_timer_sec = 0, b_miniap_panic = False,
     bm_failed = False, mpu_failed = False, g_boot_mode = BOOT_MODE_NORMAL\<rparr>"

section \<open>Operations\<close>

definition modem_ctrl_set_modem_state :: "modem_state \<Rightarrow> ('z ctl_world_scheme, unit) io" where
  "modem_ctrl_set_modem_state st = modify (\<lambda>s. s\<lparr>g_modem_state := st\<rparr>)"

definition modem_ctrl_get_modem_state :: "('z ctl_world_scheme, modem_state) io" where
  "modem_ctrl_get_modem_state = gets g_modem_state"

definition modem_ctrl_set_wait_reset_flag :: "bool \<Rightarrow> ('z ctl_world_scheme, unit) io" where
  "modem_ctrl_set_wait_reset_flag b = modify (\<lambda>s. s\<lparr>wait_modem_reset := b\<rparr>)"

definition modem_ctrl_set_miniap_panic :: "bool \<Rightarrow> ('z ctl_world_scheme, unit) io" where
  "modem_ctrl_set_miniap_panic b = modify (\<lambda>s. s\<lparr>b_miniap_panic := b\<rparr>)"

definition modem_ctrl_get_modem_type :: "('z ctl_world_scheme, modem_kind) io" where
  "modem_ctrl_get_modem_type = gets g_modem_type"

definition modem_ctrl_get_boot_mode :: "('z ctl_world_scheme, boot_mode) io" where
  "modem_ctrl_get_boot_mode = gets g_boot_mode"

definition modem_ctrl_int_modem_type :: "os \<Rightarrow> ('z ctl_world_scheme, int) io" where
  "modem_ctrl_int_modem_type os =
     bind (property_get os ''ro.vendor.radio.modemtype'' ''not_find'') (\<lambda>modem_type.
     if modem_type = ''not_find'' then return (- 1)
     else seq (modify (\<lambda>s. s\<lparr>g_modem_type :=
            (if modem_type = ''t'' then TD_MODEM
             else if modem_type = ''w'' then W_MODEM
             else if modem_type = ''l'' then LTE_MODEM
             else if modem_type = ''nr'' then NR_MODEM
             else NO_MODEM)\<rparr>))
          (return 0))"

definition modem_ctrl_enable_wake_lock :: "os \<Rightarrow> bool \<Rightarrow> ('z ctl_world_scheme, unit) io" where
  "modem_ctrl_enable_wake_lock os bEnable =
     bind (sys_open os (if bEnable then wake_lock_path else wake_unlock_path) O_RDWR) (\<lambda>fd.
     if fd < 0 then return ()
     else seq (sys_write os fd (''modem_control'' @ [NUL]))
         (sys_close fd))"

definition BM_DEV :: string where "BM_DEV = ''/dev/sprd_bm''"
definition DMC_MPU :: string where "DMC_MPU = ''/dev/dmc_mpu''"
definition BM_DBG_INT_CLR :: u32 where "BM_DBG_INT_CLR = 18"
definition BM_DBG_INT_SET :: u32 where "BM_DBG_INT_SET = 19"

definition modem_ctrl_enable_busmonitor :: "os \<Rightarrow> bool \<Rightarrow> ('z ctl_world_scheme, unit) io" where
  "modem_ctrl_enable_busmonitor os bEnable =
     bind (gets bm_failed) (\<lambda>failed.
     if failed then return ()
     else bind (sys_open os BM_DEV O_RDWR) (\<lambda>fd.
     if fd < 0 then modify (\<lambda>s. s\<lparr>bm_failed := True\<rparr>)
     else seq (sys_ioctl os fd (if bEnable then BM_DBG_INT_SET else BM_DBG_INT_CLR) Arg_null)
         (sys_close fd)))"

definition modem_ctrl_enable_dmc_mpu :: "os \<Rightarrow> bool \<Rightarrow> ('z ctl_world_scheme, unit) io" where
  "modem_ctrl_enable_dmc_mpu os bEnable =
     bind (gets mpu_failed) (\<lambda>failed.
     if failed then return ()
     else bind (sys_open os DMC_MPU O_RDWR) (\<lambda>fd.
     if fd < 0 then modify (\<lambda>s. s\<lparr>mpu_failed := True\<rparr>)
     else seq (sys_ioctl os fd (if bEnable then 1 else 0) Arg_null)
         (sys_close fd)))"

text \<open>
  \<open>modem_ctrl_parse_cmdline\<close>: the word after \<open>modem=\<close> in the kernel command line is
  compared with the argument. \<open>None\<close> is the NULL argument.
\<close>

definition cmdline_modem_value :: "string \<Rightarrow> string option" where
  "cmdline_modem_value cmdline =
     (case strstr cmdline ''modem='' of
        None \<Rightarrow> None
      | Some str \<Rightarrow>
          (let v = drop (length ''modem='') str in
           case strchr v (CHR '' '') of
             None \<Rightarrow> Some v
           | Some rest \<Rightarrow> Some (take (length v - length rest) v)))"

definition modem_ctrl_parse_cmdline :: "os \<Rightarrow> string option \<Rightarrow> ('z ctl_world_scheme, int) io" where
  "modem_ctrl_parse_cmdline os cmdvalue =
     (case cmdvalue of None \<Rightarrow> return (- 1)
      | Some want \<Rightarrow>
        bind (sys_open os ''/proc/cmdline'' O_RDONLY) (\<lambda>fd.
        if fd < 0 then return 0
        else bind (sys_read os fd (CPCMDLINE_SIZE - 1)) (\<lambda>d.
          if d = None \<or> d = Some [] then seq (sys_close fd) (return 0)
          else (case cmdline_modem_value (cstr (the d)) of
              None \<Rightarrow> seq (sys_close fd) (return 0)
            | Some v \<Rightarrow> seq (sys_close fd) (return (if want = v then 1 else 0))))))"

definition modem_has_been_boot :: "os \<Rightarrow> ('z ctl_world_scheme, bool) io" where
  "modem_has_been_boot os =
     bind (sys_open os ''/dev/sctl_pm'' O_RDWR) (\<lambda>fd.
     if fd \<ge> 0 then seq (sys_close fd) (return True)
     else bind (property_get os ''ro.vendor.modem.tty'' ''not_find'') (\<lambda>prop_value.
     bind (sys_open os (snprintf 256 [prop_value, ''0'']) O_RDWR) (\<lambda>fd.
     if fd \<ge> 0 then seq (sys_close fd) (return True)
     else return False)))"

text \<open>The device the alive message comes from, and whether a property names it.\<close>

definition modem_ctrl_get_alive_dev :: "os \<Rightarrow> nat \<Rightarrow> ('z ctl_world_scheme, string \<times> bool) io" where
  "modem_ctrl_get_alive_dev os sz =
     bind (property_get os ''ro.vendor.modem.alive'' []) (\<lambda>v.
     if v \<noteq> [] then return (v, True)
     else bind (property_get os ''ro.vendor.modem.tty'' ''not_find'') (\<lambda>p.
       return (snprintf sz [p, ''0''], False)))"

text \<open>\<open>modem_ctrl_init_boot_mode\<close> of \<open>main.c\<close>: later matches override earlier ones.\<close>

definition boot_mode_of :: "string \<Rightarrow> boot_mode" where
  "boot_mode_of cmdline =
     (let m0 = BOOT_MODE_NORMAL;
          m1 = (if has_substr cmdline ''calibration='' \<or> has_substr cmdline ''androidboot.mode=cali''
                then BOOT_MODE_CALIBRATION else m0);
          m2 = (if has_substr cmdline ''=factorytest'' then BOOT_MODE_FACTORY else m1);
          m3 = (if has_substr cmdline ''androidboot.mode=recovery'' then BOOT_MODE_RECOVERY else m2)
      in m3)"

definition modem_ctrl_init_boot_mode :: "os \<Rightarrow> ('z ctl_world_scheme, boot_mode) io" where
  "modem_ctrl_init_boot_mode os =
     seq (modify (\<lambda>s. s\<lparr>g_boot_mode := BOOT_MODE_NORMAL\<rparr>))
     (bind (sys_open os ''/proc/cmdline'' O_RDONLY) (\<lambda>fd.
      if fd < 0 then return BOOT_MODE_NORMAL
      else bind (sys_read os fd (CPCMDLINE_SIZE - 1)) (\<lambda>d.
        seq (do_if (d \<noteq> None \<and> d \<noteq> Some [])
               (modify (\<lambda>s. s\<lparr>g_boot_mode := boot_mode_of (cstr (the d))\<rparr>)))
        (seq (sys_close fd)
        modem_ctrl_get_boot_mode))))"

section \<open>Waiting\<close>

text \<open>
  While a thread sleeps or blocks, the others may change the variables they share: the modem
  state, the reset flag and the alive timer. \<open>others\<close> is their effect, an arbitrary one.
\<close>

definition others :: "os \<Rightarrow> ('z ctl_world_scheme, unit) io" where
  "others os = modify (\<lambda>s.
     let (st, w, sec) = os_others os (trace s) (g_modem_state s, wait_modem_reset s, alive_timer_sec s)
     in s\<lparr>g_modem_state := st, wait_modem_reset := w, alive_timer_sec := sec\<rparr>)"

text \<open>
  Calls that are repeated as long as a signal interrupts them. The model follows
  \<open>os_patience\<close> repetitions; running out of them is the endless loop.
\<close>

fun read_retry :: "os \<Rightarrow> int \<Rightarrow> nat \<Rightarrow> nat \<Rightarrow> ('z ctl_world_scheme, bytes option) io" where
  "read_retry os fd n 0 = stop (Forever ''read: interrupted for ever'')"
| "read_retry os fd n (Suc k) =
     bind (sys_read os fd n) (\<lambda>d.
     bind (get_errno os) (\<lambda>e.
     if d = None \<and> e = EINTR then read_retry os fd n k else return d))"

fun select_retry :: "os \<Rightarrow> int list \<Rightarrow> nat \<Rightarrow> ('z ctl_world_scheme, int list option) io" where
  "select_retry os fds 0 = stop (Forever ''select: interrupted for ever'')"
| "select_retry os fds (Suc k) =
     bind (sys_select os fds) (\<lambda>r.
     bind (get_errno os) (\<lambda>e.
     if r = None \<and> e = EINTR then select_retry os fds k else return r))"

section \<open>The bus monitor and the memory protection unit\<close>

text \<open>
  Whether the monitors are on after a trace (they start on), and the condition every
  operation that switches them off must restore: on again, unless the device turned out
  not to exist, in which case the program never touches it again.
\<close>

fun bm_step :: "bool \<Rightarrow> event \<Rightarrow> bool" where
  "bm_step b (Ioctl fd c a r) =
     (if c = BM_DBG_INT_SET then True else if c = BM_DBG_INT_CLR then False else b)"
| "bm_step b _ = b"

fun mpu_step :: "bool \<Rightarrow> event \<Rightarrow> bool" where
  "mpu_step b (Ioctl fd c a r) = (if c = 1 then True else if c = 0 then False else b)"
| "mpu_step b _ = b"

definition bm_restored :: "'z ctl_world_scheme \<Rightarrow> bool" where
  "bm_restored s \<longleftrightarrow> bm_failed s \<or> foldl bm_step True (trace s)"

definition mpu_restored :: "'z ctl_world_scheme \<Rightarrow> bool" where
  "mpu_restored s \<longleftrightarrow> mpu_failed s \<or> foldl mpu_step True (trace s)"

definition monitors_restored :: "'z ctl_world_scheme \<Rightarrow> bool" where
  "monitors_restored s \<longleftrightarrow> bm_restored s \<and> mpu_restored s"

section \<open>Lemmas\<close>

lemmas ctl_defs = modem_ctrl_set_modem_state_def modem_ctrl_get_modem_state_def
  modem_ctrl_set_wait_reset_flag_def modem_ctrl_set_miniap_panic_def modem_ctrl_get_modem_type_def
  modem_ctrl_get_boot_mode_def

lemma wake_lock_fd: "fd_clean (modem_ctrl_enable_wake_lock os b)"
  unfolding modem_ctrl_enable_wake_lock_def
  by (rule fd_cleanI) (rule track_intros fd_intros | simp)+

lemma busmonitor_fd: "fd_clean (modem_ctrl_enable_busmonitor os b)"
  unfolding modem_ctrl_enable_busmonitor_def
  by (rule fd_cleanI) (rule track_intros fd_intros | simp)+

lemma dmc_mpu_fd: "fd_clean (modem_ctrl_enable_dmc_mpu os b)"
  unfolding modem_ctrl_enable_dmc_mpu_def
  by (rule fd_cleanI) (rule track_intros fd_intros | simp)+

lemma parse_cmdline_fd: "fd_clean (modem_ctrl_parse_cmdline os v)"
  unfolding modem_ctrl_parse_cmdline_def
  by (rule fd_cleanI) (rule track_intros fd_intros | simp split: option.split | intro conjI impI allI)+

lemma has_been_boot_fd: "fd_clean (modem_has_been_boot os)"
  unfolding modem_has_been_boot_def
  by (rule fd_cleanI) (rule track_intros fd_intros | simp)+

lemma init_boot_mode_fd: "fd_clean (modem_ctrl_init_boot_mode os)"
  unfolding modem_ctrl_init_boot_mode_def ctl_defs
  by (rule fd_cleanI) (rule track_intros fd_intros | simp)+

lemmas ctl_fd = wake_lock_fd busmonitor_fd dmc_mpu_fd parse_cmdline_fd has_been_boot_fd
  init_boot_mode_fd

lemma ctl_grows [grows_intros]:
  "grows (modem_ctrl_enable_wake_lock os b)" "grows (modem_ctrl_enable_busmonitor os b)"
  "grows (modem_ctrl_enable_dmc_mpu os b)" "grows (modem_ctrl_set_modem_state st)"
  "grows (modem_ctrl_set_wait_reset_flag b)"
  unfolding modem_ctrl_enable_wake_lock_def modem_ctrl_enable_busmonitor_def
    modem_ctrl_enable_dmc_mpu_def ctl_defs
  by (rule grows_intros | simp)+

lemma monitors_keep:
  "keeps monitors_restored (sys_open os p fl)" "keeps monitors_restored (sys_close fd)"
  "keeps monitors_restored (sys_read os fd n)" "keeps monitors_restored (sys_write os fd d)"
  "keeps monitors_restored (sys_lseek os fd off w)" "keeps monitors_restored (sys_malloc os k)"
  "keeps monitors_restored (sys_usleep n)" "keeps monitors_restored (sys_sleep n)"
  "keeps monitors_restored (sys_access os p)" "keeps monitors_restored (property_get os p v)"
  "keeps monitors_restored (property_set p v)" "keeps monitors_restored (sys_setitimer n)"
  "keeps monitors_restored (sys_system p)" "keeps monitors_restored (secure_check code len vlr puk)"
  by (auto simp: syscall_defs monitors_restored_def bm_restored_def mpu_restored_def Let_def
      intro!: keeps_syscall)

text \<open>
  Conditions on the part of the state that no system call and no monitor switch touches:
  the operations of this layer keep every one of them.
\<close>

definition io_blind :: "('z ctl_world_scheme \<Rightarrow> bool) \<Rightarrow> bool" where
  "io_blind I \<longleftrightarrow> (\<forall>s f b. I s \<longrightarrow> I (trace_update f s) \<and> I (bm_failed_update b s) \<and> I (mpu_failed_update b s))"

lemma io_blind_call: "io_blind I \<Longrightarrow> keeps I (syscall f)"
  by (auto simp: io_blind_def intro!: keeps_syscall)

lemma io_blind_keeps:
  assumes "io_blind I"
  shows "keeps I (sys_open os p fl)" "keeps I (sys_read os fd n)" "keeps I (sys_write os fd d)"
    "keeps I (sys_lseek os fd off w)" "keeps I (sys_close fd)" "keeps I (sys_ioctl os fd c a)"
    "keeps I (sys_access os p)" "keeps I (sys_malloc os k)" "keeps I (sys_usleep n)"
    "keeps I (sys_sleep n)" "keeps I (property_get os p v)" "keeps I (property_set p v)"
    "keeps I (sys_system p)" "keeps I (sys_setitimer n)" "keeps I (pthread_create os p)"
    "keeps I (kernel_bootcp_verify_all os t)" "keeps I (kernel_bootcp_unlock_ddr os t)"
    "keeps I (secure_check code len vlr puk)" "keeps I (TEECex_SendMsg_To_TEE os d)"
    "keeps I cond_signal_dump" "keeps I (sys_chown os p)" "keeps I (sys_opendir os p)"
    "keeps I (get_errno os)" "keeps I (uninit os v)" "keeps I (sys_select os fds)" "keeps I (sys_accept os)"
    "keeps I (sys_pipe os)" "keeps I (socket_local_server os)" "keeps I (sys_print p)" "keeps I (mutex_lock m)"
    "keeps I (mutex_unlock m)" "keeps I (cond_timedwait n)" "keeps I (sys_signal p)" "keeps I (sys_poll os fd)"
    "keeps I (sys_setgroups os gs)" "keeps I prctl_keepcaps" "keeps I (sys_setuid os u)" "keeps I (sys_capset os cs)"
    "keeps I (uevent_open_socket os)" "keeps I (sys_mkdir os p)"
  using assms
  by (simp_all add: syscall_defs io_blind_call get_errno_def uninit_def keeps_gets)

lemma io_blind_switch:
  assumes "io_blind I"
  shows "keeps I (modem_ctrl_enable_busmonitor os b)" "keeps I (modem_ctrl_enable_dmc_mpu os b)"
    "keeps I (modem_ctrl_enable_wake_lock os b)"
  unfolding modem_ctrl_enable_busmonitor_def modem_ctrl_enable_dmc_mpu_def
    modem_ctrl_enable_wake_lock_def
  using assms
  by (auto simp: io_blind_def intro!: keeps_intros keeps_modify io_blind_keeps [OF assms])

lemma io_blind_retry:
  assumes "io_blind I"
  shows "keeps I (read_retry os fd n k)" "keeps I (select_retry os fds k)"
  by (induction k) (auto intro!: keeps_intros io_blind_keeps [OF assms])

lemma retry_fd:
  "fd \<in># M \<Longrightarrow> tracks fd_step M (read_retry os fd n k) (\<lambda>_. M)"
  "tracks fd_step M (select_retry os fds k) (\<lambda>_. M)"
  by (induction k) (auto intro!: track_intros fd_intros)

lemma others_fd: "tracks fd_step M (others os) (\<lambda>_. M)"
  unfolding others_def by (rule tracks_modify) (simp_all add: case_prod_beta Let_def)

lemma monitors_enable:
  "ensures (seq (modem_ctrl_enable_busmonitor os True) (modem_ctrl_enable_dmc_mpu os True))
     monitors_restored"
  by (simp add: ensures_def modem_ctrl_enable_busmonitor_def modem_ctrl_enable_dmc_mpu_def
      syscall_defs wp_rules monitors_restored_def bm_restored_def mpu_restored_def Let_def
      BM_DBG_INT_SET_def BM_DBG_INT_CLR_def)

lemma seq_assoc: "seq (seq a b) c = seq a (seq b c)"
  by (auto simp: io_simps split: result.splits)

lemma monitors_enable_then:
  "keeps monitors_restored m \<Longrightarrow>
   ensures (seq (modem_ctrl_enable_busmonitor os True) (seq (modem_ctrl_enable_dmc_mpu os True) m))
     monitors_restored"
  using ensures_seq_first [OF monitors_enable] by (simp add: seq_assoc)

lemma wake_lock_wake: "tracks wake_step b0 (modem_ctrl_enable_wake_lock os b) (\<lambda>_. b)"
  unfolding modem_ctrl_enable_wake_lock_def
  by (cases b) (simp_all, (rule track_intros wake_open_lock wake_open_unlock wake.open_intros | simp)+)

end
