(* ===== verification/Io_Control.thy ===== *)
theory Io_Control
  imports Control_Base
begin

text \<open>
  \<open>modem_io_control.c\<close>: the request numbers of the modem control devices, the one
  routine that issues a request (\<open>modem_iocmd\<close>), and the operations built on it. The
  lemmas show that every operation opens the device, issues exactly its request and
  closes the device again.
\<close>

section \<open>Request numbers\<close>

text \<open>\<open>_IO\<close>, \<open>_IOR\<close> and \<open>_IOW\<close> of the kernel's \<open>ioctl.h\<close> with the type \<open>'M'\<close>.\<close>

definition IOC :: "u32 \<Rightarrow> u32 \<Rightarrow> u32 \<Rightarrow> u32" where
  "IOC dir sz nr = push_bit 30 dir OR push_bit 16 sz OR push_bit 8 0x4D OR nr"

definition sizeof_int :: u32 where "sizeof_int = 4"

text \<open>
  \<open>sizeof (modem_load_info)\<close>: five scalar fields padded to 40 bytes, then 20 regions of
  40 bytes (8 + 4 + 21 bytes, padded to a multiple of 8).
\<close>

definition sizeof_modem_load_info :: u32 where "sizeof_modem_load_info = 840"

definition MODEM_READ_LOCK_CMD :: u32 where "MODEM_READ_LOCK_CMD = IOC 0 0 0x1"
definition MODEM_READ_UNLOCK_CMD :: u32 where "MODEM_READ_UNLOCK_CMD = IOC 0 0 0x2"
definition MODEM_WRITE_LOCK_CMD :: u32 where "MODEM_WRITE_LOCK_CMD = IOC 0 0 0x3"
definition MODEM_WRITE_UNLOCK_CMD :: u32 where "MODEM_WRITE_UNLOCK_CMD = IOC 0 0 0x4"
definition MODEM_GET_LOAD_INFO_CMD :: u32 where "MODEM_GET_LOAD_INFO_CMD = IOC 2 sizeof_modem_load_info 0x5"
definition MODEM_SET_LOAD_INFO_CMD :: u32 where "MODEM_SET_LOAD_INFO_CMD = IOC 1 sizeof_modem_load_info 0x6"
definition MODEM_SET_READ_REGION_CMD :: u32 where "MODEM_SET_READ_REGION_CMD = IOC 2 sizeof_int 0x7"
definition MODEM_SET_WRITE_GEGION_CMD :: u32 where "MODEM_SET_WRITE_GEGION_CMD = IOC 1 sizeof_int 0x8"
definition MODEM_GET_REMOTE_FLAG_CMD :: u32 where "MODEM_GET_REMOTE_FLAG_CMD = IOC 2 sizeof_int 0x9"
definition MODEM_SET_REMOTE_FLAG_CMD :: u32 where "MODEM_SET_REMOTE_FLAG_CMD = IOC 1 sizeof_int 0xa"
definition MODEM_CLR_REMOTE_FLAG_CMD :: u32 where "MODEM_CLR_REMOTE_FLAG_CMD = IOC 1 sizeof_int 0xb"
definition MODEM_STOP_CMD :: u32 where "MODEM_STOP_CMD = IOC 0 0 0xc"
definition MODEM_START_CMD :: u32 where "MODEM_START_CMD = IOC 0 0 0xd"
definition MODEM_ASSERT_CMD :: u32 where "MODEM_ASSERT_CMD = IOC 0 0 0xe"
definition MODEM_REBOOT_EXT_MODEM_CMD :: u32 where "MODEM_REBOOT_EXT_MODEM_CMD = IOC 0 0 0xf"
definition MODEM_POWERON_EXT_MODEM_CMD :: u32 where "MODEM_POWERON_EXT_MODEM_CMD = IOC 0 0 0x10"
definition MODEM_POWEROFF_EXT_MODEM_CMD :: u32 where "MODEM_POWEROFF_EXT_MODEM_CMD = IOC 0 0 0x11"

lemmas cmd_defs = MODEM_READ_LOCK_CMD_def MODEM_READ_UNLOCK_CMD_def MODEM_WRITE_LOCK_CMD_def
  MODEM_WRITE_UNLOCK_CMD_def MODEM_GET_LOAD_INFO_CMD_def MODEM_SET_LOAD_INFO_CMD_def
  MODEM_SET_READ_REGION_CMD_def MODEM_SET_WRITE_GEGION_CMD_def MODEM_GET_REMOTE_FLAG_CMD_def
  MODEM_SET_REMOTE_FLAG_CMD_def MODEM_CLR_REMOTE_FLAG_CMD_def MODEM_STOP_CMD_def
  MODEM_START_CMD_def MODEM_ASSERT_CMD_def MODEM_REBOOT_EXT_MODEM_CMD_def
  MODEM_POWERON_EXT_MODEM_CMD_def MODEM_POWEROFF_EXT_MODEM_CMD_def IOC_def sizeof_int_def
  sizeof_modem_load_info_def

definition modem_cmds :: "u32 list" where
  "modem_cmds = [MODEM_READ_LOCK_CMD, MODEM_READ_UNLOCK_CMD, MODEM_WRITE_LOCK_CMD,
     MODEM_WRITE_UNLOCK_CMD, MODEM_GET_LOAD_INFO_CMD, MODEM_SET_LOAD_INFO_CMD,
     MODEM_SET_READ_REGION_CMD, MODEM_SET_WRITE_GEGION_CMD, MODEM_GET_REMOTE_FLAG_CMD,
     MODEM_SET_REMOTE_FLAG_CMD, MODEM_CLR_REMOTE_FLAG_CMD, MODEM_STOP_CMD, MODEM_START_CMD,
     MODEM_ASSERT_CMD, MODEM_REBOOT_EXT_MODEM_CMD, MODEM_POWERON_EXT_MODEM_CMD,
     MODEM_POWEROFF_EXT_MODEM_CMD]"

section \<open>Remote flags\<close>

definition REMOTE_CLEAR_FLAG :: u32 where "REMOTE_CLEAR_FLAG = 0x0"
definition REMOTE_DDR_READY_FLAG :: u32 where "REMOTE_DDR_READY_FLAG = push_bit 0 1"
definition EP_SET_BAR_DONE_FLAG :: u32 where "EP_SET_BAR_DONE_FLAG = push_bit 0 1"
definition EP_RESCAN_DONE_FLAG :: u32 where "EP_RESCAN_DONE_FLAG = push_bit 0 1"
definition MODEM_IMAGE_DONE_FLAG :: u32 where "MODEM_IMAGE_DONE_FLAG = push_bit 1 1"
definition MODEM_WARM_RESET_FLAG :: u32 where "MODEM_WARM_RESET_FLAG = push_bit 1 1"
definition UBOOT_IMAGE_DONE_FLAG :: u32 where "UBOOT_IMAGE_DONE_FLAG = push_bit 2 1"
definition BOOT_IMAGE_DONE_FLAG :: u32 where "BOOT_IMAGE_DONE_FLAG = push_bit 3 1"
definition MODEM_HEAD_DONE_FLAG :: u32 where "MODEM_HEAD_DONE_FLAG = push_bit 4 1"
definition SPL_IMAGE_DONE_FLAG :: u32 where "SPL_IMAGE_DONE_FLAG = push_bit 5 1"

lemmas remote_flag_defs = REMOTE_CLEAR_FLAG_def REMOTE_DDR_READY_FLAG_def EP_SET_BAR_DONE_FLAG_def
  EP_RESCAN_DONE_FLAG_def MODEM_IMAGE_DONE_FLAG_def MODEM_WARM_RESET_FLAG_def
  UBOOT_IMAGE_DONE_FLAG_def BOOT_IMAGE_DONE_FLAG_def MODEM_HEAD_DONE_FLAG_def
  SPL_IMAGE_DONE_FLAG_def

section \<open>Operations\<close>

text \<open>
  The result of a request and the argument block after it (the device may have written
  it). A device that cannot be opened leaves the argument as it was.
\<close>

definition modem_iocmd :: "os \<Rightarrow> u32 \<Rightarrow> ioarg \<Rightarrow> string \<Rightarrow> ('z ctl_world_scheme, int \<times> ioarg) io" where
  "modem_iocmd os cmd arg path =
     bind (sys_open os path O_RDWR) (\<lambda>fd.
     if fd < 0 then return (- 1, arg)
     else bind (sys_ioctl os fd cmd arg) (\<lambda>ret.
       seq (sys_close fd)
       (return ret)))"

definition iocmd_ret :: "os \<Rightarrow> u32 \<Rightarrow> ioarg \<Rightarrow> string \<Rightarrow> ('z ctl_world_scheme, int) io" where
  "iocmd_ret os cmd arg path = bind (modem_iocmd os cmd arg path) (\<lambda>r. return (fst r))"

definition modem_lock_read :: "os \<Rightarrow> string \<Rightarrow> ('z ctl_world_scheme, int) io" where
  "modem_lock_read os path = iocmd_ret os MODEM_READ_LOCK_CMD Arg_null path"

definition modem_unlock_read :: "os \<Rightarrow> string \<Rightarrow> ('z ctl_world_scheme, int) io" where
  "modem_unlock_read os path = iocmd_ret os MODEM_READ_UNLOCK_CMD Arg_null path"

definition modem_lock_write :: "os \<Rightarrow> string \<Rightarrow> ('z ctl_world_scheme, int) io" where
  "modem_lock_write os path = iocmd_ret os MODEM_WRITE_LOCK_CMD Arg_null path"

definition modem_unlock_write :: "os \<Rightarrow> string \<Rightarrow> ('z ctl_world_scheme, int) io" where
  "modem_unlock_write os path = iocmd_ret os MODEM_WRITE_UNLOCK_CMD Arg_null path"

definition modem_get_load_info ::
  "os \<Rightarrow> string \<Rightarrow> modem_load_info \<Rightarrow> ('z ctl_world_scheme, int \<times> modem_load_info) io" where
  "modem_get_load_info os path info =
     bind (modem_iocmd os MODEM_GET_LOAD_INFO_CMD (Arg_load_info info) path) (\<lambda>(r, a).
     return (r, case a of Arg_load_info i \<Rightarrow> i | _ \<Rightarrow> info))"

definition modem_set_load_info :: "os \<Rightarrow> string \<Rightarrow> modem_load_info \<Rightarrow> ('z ctl_world_scheme, int) io" where
  "modem_set_load_info os path info = iocmd_ret os MODEM_SET_LOAD_INFO_CMD (Arg_load_info info) path"

definition modem_set_read_region :: "os \<Rightarrow> string \<Rightarrow> u32 \<Rightarrow> ('z ctl_world_scheme, int) io" where
  "modem_set_read_region os path region = iocmd_ret os MODEM_SET_READ_REGION_CMD (Arg_int region) path"

definition modem_set_write_region :: "os \<Rightarrow> string \<Rightarrow> u32 \<Rightarrow> ('z ctl_world_scheme, int) io" where
  "modem_set_write_region os path region = iocmd_ret os MODEM_SET_WRITE_GEGION_CMD (Arg_int region) path"

text \<open>The parameter starts as \<open>-1\<close> and is returned whether or not the request succeeded.\<close>

definition modem_get_remote_flag :: "os \<Rightarrow> string \<Rightarrow> ('z ctl_world_scheme, u32) io" where
  "modem_get_remote_flag os path =
     bind (modem_iocmd os MODEM_GET_REMOTE_FLAG_CMD (Arg_int (- 1)) path) (\<lambda>(r, a).
     return (case a of Arg_int w \<Rightarrow> w | _ \<Rightarrow> - 1))"

definition modem_set_remote_flag :: "os \<Rightarrow> string \<Rightarrow> u32 \<Rightarrow> ('z ctl_world_scheme, int) io" where
  "modem_set_remote_flag os path flag = iocmd_ret os MODEM_SET_REMOTE_FLAG_CMD (Arg_int flag) path"

definition modem_clear_remote_flag :: "os \<Rightarrow> string \<Rightarrow> u32 \<Rightarrow> ('z ctl_world_scheme, u32) io" where
  "modem_clear_remote_flag os path flag =
     bind (modem_iocmd os MODEM_CLR_REMOTE_FLAG_CMD (Arg_int flag) path) (\<lambda>(r, a).
     return (case a of Arg_int w \<Rightarrow> w | _ \<Rightarrow> flag))"

definition modem_ioctrl_stop :: "os \<Rightarrow> string \<Rightarrow> ('z ctl_world_scheme, int) io" where
  "modem_ioctrl_stop os path = iocmd_ret os MODEM_STOP_CMD (Arg_int 0) path"

definition modem_ioctrl_start :: "os \<Rightarrow> string \<Rightarrow> ('z ctl_world_scheme, int) io" where
  "modem_ioctrl_start os path = iocmd_ret os MODEM_START_CMD (Arg_int 0) path"

definition modem_ioctrl_assert :: "os \<Rightarrow> string \<Rightarrow> ('z ctl_world_scheme, int) io" where
  "modem_ioctrl_assert os path = iocmd_ret os MODEM_ASSERT_CMD (Arg_int 0) path"

definition modem_ioctrl_reboot_ext_modem :: "os \<Rightarrow> string \<Rightarrow> ('z ctl_world_scheme, int) io" where
  "modem_ioctrl_reboot_ext_modem os path = iocmd_ret os MODEM_REBOOT_EXT_MODEM_CMD Arg_null path"

definition modem_ioctrl_poweron_ext_modem :: "os \<Rightarrow> string \<Rightarrow> ('z ctl_world_scheme, int) io" where
  "modem_ioctrl_poweron_ext_modem os path = iocmd_ret os MODEM_REBOOT_EXT_MODEM_CMD Arg_null path"

definition modem_ioctrl_poweroff_ext_modem :: "os \<Rightarrow> string \<Rightarrow> ('z ctl_world_scheme, int) io" where
  "modem_ioctrl_poweroff_ext_modem os path = iocmd_ret os MODEM_REBOOT_EXT_MODEM_CMD Arg_null path"

lemmas ioctrl_defs = modem_lock_read_def modem_unlock_read_def modem_lock_write_def
  modem_unlock_write_def modem_get_load_info_def modem_set_load_info_def modem_set_read_region_def
  modem_set_write_region_def modem_get_remote_flag_def modem_set_remote_flag_def
  modem_clear_remote_flag_def modem_ioctrl_stop_def modem_ioctrl_start_def modem_ioctrl_assert_def
  modem_ioctrl_reboot_ext_modem_def modem_ioctrl_poweron_ext_modem_def
  modem_ioctrl_poweroff_ext_modem_def

section \<open>Lemmas\<close>

lemma iocmd_fd: "fd_clean (modem_iocmd os cmd arg path)"
  unfolding modem_iocmd_def by (rule fd_cleanI) (rule track_intros fd_intros | simp)+

lemma iocmd_ret_fd: "fd_clean (iocmd_ret os cmd arg path)"
  unfolding iocmd_ret_def
  by (rule fd_cleanI) (rule track_intros fd_cleanD [OF iocmd_fd] | simp)+

lemma get_load_info_fd: "fd_clean (modem_get_load_info os path info)"
  unfolding modem_get_load_info_def
  by (rule fd_cleanI) (rule track_intros fd_cleanD [OF iocmd_fd] | simp add: case_prod_beta)+

lemma get_remote_flag_fd: "fd_clean (modem_get_remote_flag os path)"
  unfolding modem_get_remote_flag_def
  by (rule fd_cleanI) (rule track_intros fd_cleanD [OF iocmd_fd] | simp add: case_prod_beta)+

lemma clear_remote_flag_fd: "fd_clean (modem_clear_remote_flag os path flag)"
  unfolding modem_clear_remote_flag_def
  by (rule fd_cleanI) (rule track_intros fd_cleanD [OF iocmd_fd] | simp add: case_prod_beta)+

lemma ioctrl_fd:
  "fd_clean (modem_lock_read os p)" "fd_clean (modem_unlock_read os p)"
  "fd_clean (modem_lock_write os p)" "fd_clean (modem_unlock_write os p)"
  "fd_clean (modem_set_load_info os p i)" "fd_clean (modem_set_read_region os p w)"
  "fd_clean (modem_set_write_region os p w)" "fd_clean (modem_set_remote_flag os p w)"
  "fd_clean (modem_ioctrl_stop os p)" "fd_clean (modem_ioctrl_start os p)"
  "fd_clean (modem_ioctrl_assert os p)" "fd_clean (modem_ioctrl_reboot_ext_modem os p)"
  by (simp_all add: ioctrl_defs iocmd_ret_fd)

text \<open>
  Events that neither start a processor nor concern the verification of its images; the
  loader emits nothing else while it moves images.
\<close>

fun no_start :: "event \<Rightarrow> bool" where
  "no_start (Ioctl fd c a r) = (c \<noteq> MODEM_START_CMD)"
| "no_start (Kbc_Verify t r) = False"
| "no_start (Kbc_Unlock t r) = False"
| "no_start _ = True"

text \<open>
  What loading may do: use files and devices, ask services, but send no start request. The
  locale proves once, for every predicate on events that allows this, that the operations of
  the loader stay within it; each component adds its operations.
\<close>

locale loader_events =
  fixes P :: "event \<Rightarrow> bool"
  assumes files: "P (Open p fl fd)" "P (Read fd n d)" "P (Write fd b k)" "P (Lseek fd off w pos)" "P (Close fd)"
      "P (Access p ok)" "P (Opendir p ok)" "P (Chown p ok)"
    and devices: "c \<noteq> MODEM_START_CMD \<Longrightarrow> P (Ioctl fd c a r)"
    and services: "P (Malloc m ok)" "P (Sleep n)" "P (Prop_Get p v)" "P (Secure_Check code len vlr puk)"
      "P (Tee_Msg b d)"
begin

lemma ev_calls:
  "emits P (sys_open os p fl)" "emits P (sys_read os fd n)" "emits P (sys_write os fd d)"
  "emits P (sys_lseek os fd off w)" "emits P (sys_close fd)" "emits P (sys_access os p)"
  "emits P (sys_malloc os k)" "emits P (sys_usleep n)" "emits P (sys_sleep n)"
  "emits P (property_get os p v)" "emits P (secure_check code len vlr puk)"
  "emits P (TEECex_SendMsg_To_TEE os d)" "emits P (sys_chown os p)"
  "emits P (sys_opendir os p)"
  by (auto simp: syscall_defs Let_def intro!: emits_syscall files devices services)

lemma ev_ioctl: "c \<noteq> MODEM_START_CMD \<Longrightarrow> emits P (sys_ioctl os fd c a)"
  by (auto simp: syscall_defs Let_def intro!: emits_syscall files devices services)

lemma ev_switches:
  "emits P (modem_ctrl_enable_busmonitor os b)" "emits P (modem_ctrl_enable_dmc_mpu os b)"
  "emits P (modem_ctrl_enable_wake_lock os b)"
  unfolding modem_ctrl_enable_busmonitor_def modem_ctrl_enable_dmc_mpu_def modem_ctrl_enable_wake_lock_def
  by (rule emits_intros ev_calls ev_ioctl
      | simp add: BM_DBG_INT_SET_def BM_DBG_INT_CLR_def cmd_defs)+

lemma ev_iocmd: "c \<noteq> MODEM_START_CMD \<Longrightarrow> emits P (modem_iocmd os c a p)"
  unfolding modem_iocmd_def by (rule emits_intros ev_calls ev_ioctl | assumption)+

lemma ev_ioctrl:
  "emits P (modem_lock_read os p)" "emits P (modem_unlock_read os p)"
  "emits P (modem_lock_write os p)" "emits P (modem_unlock_write os p)"
  "emits P (modem_set_load_info os p i)" "emits P (modem_set_read_region os p w)"
  "emits P (modem_set_write_region os p w)" "emits P (modem_set_remote_flag os p w)"
  "emits P (modem_ioctrl_stop os p)" "emits P (modem_ioctrl_assert os p)"
  "emits P (modem_ioctrl_reboot_ext_modem os p)" "emits P (modem_get_remote_flag os p)"
  "emits P (modem_clear_remote_flag os p w)"
  unfolding ioctrl_defs iocmd_ret_def case_prod_beta
  by (rule emits_intros ev_iocmd | simp add: cmd_defs)+

lemmas ev_intros = ev_calls ev_switches ev_ioctrl

end

interpretation start: loader_events no_start
  by unfold_locales simp_all

text \<open>The seventeen request numbers are pairwise distinct, so no operation can be mistaken for another by the driver.\<close>

theorem modem_cmds_distinct: "distinct modem_cmds"
  by (simp add: modem_cmds_def cmd_defs)

text \<open>
  One request is one \<open>open\<close> of the control device; if that fails the result is \<open>-1\<close>
  and the device sees nothing, otherwise the request goes out exactly once on the descriptor
  just opened, the descriptor is closed, and the driver's result is the result.
\<close>

theorem modem_iocmd_spec:
  "modem_iocmd os cmd arg path s =
     (let fd = os_open os (trace s) path O_RDWR;
          tr = trace s @ [Open path O_RDWR fd];
          r = os_ioctl os tr fd cmd arg
      in if fd < 0 then Ret (- 1, arg) (s\<lparr>trace := tr\<rparr>)
         else Ret r (s\<lparr>trace := tr @ [Ioctl fd cmd arg (fst r), Close fd]\<rparr>))"
  by (simp add: modem_iocmd_def syscall_defs io_simps Let_def)

text \<open>
  Powering the external modem on and powering it off issue the reboot request: the
  requests \<open>MODEM_POWERON_EXT_MODEM_CMD\<close> and \<open>MODEM_POWEROFF_EXT_MODEM_CMD\<close>, which differ
  from it, are never issued.
\<close>

theorem poweron_poweroff_reboot:
  "modem_ioctrl_poweron_ext_modem os path = modem_ioctrl_reboot_ext_modem os path \<and>
   modem_ioctrl_poweroff_ext_modem os path = modem_ioctrl_reboot_ext_modem os path \<and>
   MODEM_REBOOT_EXT_MODEM_CMD \<notin> {MODEM_POWERON_EXT_MODEM_CMD, MODEM_POWEROFF_EXT_MODEM_CMD}"
  by (simp add: ioctrl_defs cmd_defs)

end
