(* ===== verification/Nv_Read.thy ===== *)
theory Nv_Read
  imports Io_Control
begin

text \<open>
  \<open>nv_read.c\<close>: the two checksums of an NV partition, the validation of its two copies,
  and the recovery of a damaged copy from the intact one while the NV data is handed to the
  modem. The lemmas show what the checksums compute, that they agree, which corruption they
  detect, and what each device has received when the routine returns.
\<close>

section \<open>Checksums\<close>

text \<open>
  The accumulation loop, at the width of the accumulator (\<open>uint32_t\<close> in
  \<open>calc_Checksum\<close>, \<open>uint64_t\<close> in \<open>calc_Checksum64\<close>), and the final folding.
\<close>

fun chk_loop :: "bytes \<Rightarrow> 'w::len word \<Rightarrow> 'w word" where
  "chk_loop (c # d # cs) chkSum =
     (let num = (of_nat (byte c) :: u16) OR push_bit 8 (of_nat (byte d))
      in chk_loop cs (chkSum + ucast num))"
| "chk_loop [c] chkSum = chkSum + of_nat (byte c)"
| "chk_loop [] chkSum = chkSum"

definition chk_fold :: "'w::len word \<Rightarrow> u16" where
  "chk_fold chkSum =
     (let chkSum = drop_bit 16 chkSum + (chkSum AND 0xffff);
          chkSum = chkSum + drop_bit 16 chkSum
      in ucast (NOT chkSum))"

definition calc_Checksum :: "bytes \<Rightarrow> u16" where
  "calc_Checksum dat = chk_fold (chk_loop dat (0 :: u32))"

definition calc_Checksum64 :: "bytes \<Rightarrow> u16" where
  "calc_Checksum64 dat = chk_fold (chk_loop dat (0 :: u64))"

section \<open>Reading one copy\<close>

definition RAMNV_SECT_SIZE :: nat where "RAMNV_SECT_SIZE = 512"
definition NV_MAGIC :: u32 where "NV_MAGIC = 0x00004e56"

record nv_header_t =
  nv_magic :: u32
  nv_len :: u32
  nv_checksum :: u32
  nv_version :: u32

definition nv_header :: "bytes \<Rightarrow> nv_header_t" where
  "nv_header buf = \<lparr>nv_magic = get_u32 buf 0, nv_len = get_u32 buf 4, nv_checksum = get_u32 buf 8,
     nv_version = get_u32 buf 12\<rparr>"

definition nv_valid :: "bytes \<Rightarrow> bytes \<Rightarrow> bool" where
  "nv_valid header buf =
     (nv_magic (nv_header header) = NV_MAGIC \<and>
      (ucast (calc_Checksum buf) = nv_checksum (nv_header header) \<or>
       ucast (calc_Checksum64 buf) = nv_checksum (nv_header header)))"

record nv_copy =
  nv_sect :: bytes
  nv_body :: bytes
  nv_ok :: bool

text \<open>
  The first \<open>do \<dots> while (0)\<close> block after its \<open>open\<close>: \<open>None\<close> when no buffer was
  allocated. The length is an \<open>int32\<close>; a negative one asks \<open>malloc\<close> for more than the
  address space holds and fails. A short body read leaves the copy invalid.
\<close>

definition nv_read_copy :: "os \<Rightarrow> int \<Rightarrow> ('z ctl_world_scheme, nv_copy option) io" where
  "nv_read_copy os fd =
     bind (sys_read os fd RAMNV_SECT_SIZE) (\<lambda>h.
     case h of None \<Rightarrow> return None
     | Some header \<Rightarrow>
       if length header \<noteq> RAMNV_SECT_SIZE then return None
       else let sz = sint (nv_len (nv_header header)) in
         bind (sys_malloc os sz) (\<lambda>ok.
         if \<not> ok \<or> sz < 0 then return None
         else bind (sys_read os fd (nat sz)) (\<lambda>b.
           let d = (case b of None \<Rightarrow> [] | Some d \<Rightarrow> d);
               buf = d @ replicate (nat sz - length d) NUL
           in return (Some \<lparr>nv_sect = header, nv_body = buf,
                nv_ok = b \<noteq> None \<and> length d = nat sz \<and> nv_valid header buf\<rparr>))))"

section \<open>Recovery\<close>

text \<open>Header and body to a damaged partition; the body is written only after the header was.\<close>

definition nv_repair :: "os \<Rightarrow> int \<Rightarrow> nv_copy \<Rightarrow> ('z ctl_world_scheme, unit) io" where
  "nv_repair os fd c =
     bind (sys_write os fd (nv_sect c)) (\<lambda>r.
     do_if (r = int RAMNV_SECT_SIZE) (sys_write os fd (nv_body c)))"

definition nv_emit :: "os \<Rightarrow> int \<Rightarrow> nv_copy \<Rightarrow> ('z ctl_world_scheme, int) io" where
  "nv_emit os out_handle c =
     bind (sys_write os out_handle (nv_body c)) (\<lambda>r.
     return (if r = int (length (nv_body c)) then 1 else 0))"

definition nv_status :: "nv_copy \<Rightarrow> nv_copy \<Rightarrow> nat" where
  "nv_status org bak = (if nv_ok org then 1 else 0) + (if nv_ok bak then 2 else 0)"

text \<open>The \<open>switch (status)\<close>.\<close>

definition nv_recover ::
  "os \<Rightarrow> int \<Rightarrow> int \<Rightarrow> int \<Rightarrow> nv_copy \<Rightarrow> nv_copy \<Rightarrow> ('z ctl_world_scheme, int) io" where
  "nv_recover os handle Bak_Handle out_handle org bak =
     (if nv_status org bak = 0 then
        seq (sys_write os out_handle (replicate (RAMNV_SECT_SIZE * 2) NUL)) (return 0)
      else if nv_status org bak = 1 then
        seq (nv_repair os Bak_Handle org) (nv_emit os out_handle org)
      else if nv_status org bak = 2 then
        seq (nv_repair os handle bak) (nv_emit os out_handle bak)
      else nv_emit os out_handle org)"

definition nv_leave :: "os \<Rightarrow> int \<Rightarrow> int \<Rightarrow> int \<Rightarrow> int \<Rightarrow> ('z ctl_world_scheme, int) io" where
  "nv_leave os handle Bak_Handle out_handle result =
     seq (modem_ctrl_enable_busmonitor os True)
     (seq (modem_ctrl_enable_dmc_mpu os True)
     (seq (sys_close handle)
     (seq (sys_close Bak_Handle)
     (seq (sys_close out_handle)
     (return result)))))"

definition nv_finish ::
  "os \<Rightarrow> int \<Rightarrow> int \<Rightarrow> int \<Rightarrow> nv_copy \<Rightarrow> nv_copy \<Rightarrow> ('z ctl_world_scheme, int) io" where
  "nv_finish os handle Bak_Handle out_handle org bak =
     seq (modem_ctrl_enable_busmonitor os False)
     (seq (modem_ctrl_enable_dmc_mpu os False)
     (bind (nv_recover os handle Bak_Handle out_handle org bak) (\<lambda>result.
     nv_leave os handle Bak_Handle out_handle result)))"

definition read_nv_partition ::
  "os \<Rightarrow> string \<Rightarrow> string \<Rightarrow> string \<Rightarrow> ('z ctl_world_scheme, int) io" where
  "read_nv_partition os path Bak_path path_out =
     bind (sys_open os path O_RDWR) (\<lambda>handle.
     if handle < 0 then return 0
     else bind (nv_read_copy os handle) (\<lambda>c. case c of
       None \<Rightarrow> seq (sys_close handle) (return 0)
     | Some org \<Rightarrow>
       seq (sys_lseek os handle 0 SEEK_SET)
       (bind (sys_open os Bak_path O_RDWR) (\<lambda>Bak_Handle.
       if Bak_Handle < 0 then seq (sys_close handle) (return 0)
       else bind (nv_read_copy os Bak_Handle) (\<lambda>c. case c of
         None \<Rightarrow> seq (sys_close handle) (seq (sys_close Bak_Handle) (return 0))
       | Some bak \<Rightarrow>
         seq (sys_lseek os Bak_Handle 0 SEEK_SET)
         (bind (sys_open os path_out O_RDWR) (\<lambda>out_handle.
         if out_handle < 0
         then seq (sys_close handle) (seq (sys_close Bak_Handle) (return 0))
         else nv_finish os handle Bak_Handle out_handle org bak)))))))"

section \<open>The checksum contract\<close>

text \<open>The sum of the little-endian 16-bit words of a buffer, the last one padded with zero.\<close>

fun word_sum :: "bytes \<Rightarrow> nat" where
  "word_sum (c # d # cs) = byte c + 256 * byte d + word_sum cs"
| "word_sum [c] = byte c"
| "word_sum [] = 0"

text \<open>
  What both routines promise: up to a length bound the complement of the checksum is the
  word sum folded twice, the ones-complement sum of the buffer.
\<close>

definition fold16 :: "nat \<Rightarrow> nat" where
  "fold16 n = (let a = n div 65536 + n mod 65536 in (a + a div 65536) mod 65536)"

lemma fold16_cong:
  assumes "n < 2 ^ 32"
  shows "fold16 n mod 65535 = n mod 65535"
proof -
  define a where "a = n div 65536 + n mod 65536"
  have "n div 65536 \<le> 65535"
    using assms by simp
  then have bound: "a \<le> 131070"
    using mod_less_divisor [of 65536 n] by (simp add: a_def)
  have "n = a + 65535 * (n div 65536)"
    by (simp add: a_def)
  then have na: "n mod 65535 = a mod 65535"
    by (metis mod_mult_self2)
  show ?thesis
  proof (cases "a < 65536")
    case True
    then show ?thesis by (simp add: fold16_def Let_def a_def [symmetric] na)
  next
    case False
    then have "a div 65536 = 1"
      using bound by (intro div_nat_eqI) auto
    then have "fold16 n = (a + 1) mod 65536"
      by (simp add: fold16_def Let_def a_def [symmetric])
    also have "\<dots> = a - 65535"
      using False bound by (simp add: mod_if)
    finally show ?thesis
      using False by (simp add: na le_mod_geq)
  qed
qed

lemma word_sum_bound: "word_sum dat \<le> 65535 * (length dat div 2) + 255 * (length dat mod 2)"
proof (induction dat rule: word_sum.induct)
  case (1 c d cs)
  with byte_bound [of c] byte_bound [of d] show ?case by simp
next
  case (2 c)
  with byte_bound [of c] show ?case by simp
qed simp

text \<open>The longest buffer whose word sum always fits into 32 bits.\<close>

definition CHECKSUM_MAX_LEN :: nat where "CHECKSUM_MAX_LEN = 131074"

lemma word_sum_fits: "length dat \<le> CHECKSUM_MAX_LEN \<Longrightarrow> word_sum dat < 2 ^ 32"
proof -
  assume le: "length dat \<le> CHECKSUM_MAX_LEN"
  consider "length dat = 131074" | "length dat div 2 \<le> 65536"
    using le by (fastforce simp: CHECKSUM_MAX_LEN_def)
  then show ?thesis
    using word_sum_bound [of dat] mod_less_divisor [of 2 "length dat"] by cases auto
qed

lemma word_sum_update:
  assumes "i < length dat"
  shows "\<exists>r. word_sum dat = r + (if even i then 1 else 256) * byte (dat ! i) \<and>
     word_sum (dat[i := x]) = r + (if even i then 1 else 256) * byte x"
  using assms
proof (induction dat arbitrary: i rule: word_sum.induct)
  case (1 c d cs)
  consider "i = 0" | "i = 1" | j where "i = Suc (Suc j)"
    by (metis One_nat_def not0_implies_Suc)
  then show ?case
  proof cases
    case 3
    with 1 obtain r where "word_sum cs = r + (if even j then 1 else 256) * byte (cs ! j)"
      "word_sum (cs[j := x]) = r + (if even j then 1 else 256) * byte x"
      by fastforce
    with 3 show ?thesis
      by (intro exI [of _ "r + byte c + 256 * byte d"]) auto
  qed auto
qed auto

locale checksum_contract =
  fixes calc :: "bytes \<Rightarrow> u16"
    and bound :: nat
  assumes bound_fits: "bound \<le> CHECKSUM_MAX_LEN"
    and calc_sum: "length dat \<le> bound \<Longrightarrow> unat (NOT (calc dat)) = fold16 (word_sum dat)"
begin

lemma ones_complement:
  "length dat \<le> bound \<Longrightarrow> unat (NOT (calc dat)) mod 65535 = word_sum dat mod 65535"
  using bound_fits by (simp add: calc_sum fold16_cong [OF word_sum_fits])

lemma detects_byte:
  assumes "length dat \<le> bound" "i < length dat" "x \<noteq> dat ! i"
  shows "calc (dat[i := x]) \<noteq> calc dat"
proof
  assume "calc (dat[i := x]) = calc dat"
  moreover have "length (dat[i := x]) \<le> bound" using assms by simp
  ultimately have eq: "word_sum (dat[i := x]) mod 65535 = word_sum dat mod 65535"
    using assms ones_complement by metis
  obtain r where r: "word_sum dat = r + (if even i then 1 else 256) * byte (dat ! i)"
    "word_sum (dat[i := x]) = r + (if even i then 1 else 256) * byte x"
    using word_sum_update [OF assms(2)] by blast
  define k where "k = (if even i then 1 else (256::int))"
  have "(int r + k * int (byte x)) mod 65535 = (int r + k * int (byte (dat ! i))) mod 65535"
    using arg_cong [OF eq, of int] unfolding r of_nat_mod k_def by (cases "even i") simp_all
  then have "65535 dvd k * (int (byte x) - int (byte (dat ! i)))"
    by (simp add: mod_eq_dvd_iff algebra_simps)
  moreover have "\<bar>k * (int (byte x) - int (byte (dat ! i)))\<bar> < 65535"
    using byte_bound [of x] byte_bound [of "dat ! i"] by (auto simp: k_def)
  ultimately have "k * (int (byte x) - int (byte (dat ! i))) = 0"
    using dvd_imp_le_int [of "k * (int (byte x) - int (byte (dat ! i)))" 65535] by linarith
  then show False
    using assms(3) by (simp add: k_def byte_def split: if_splits)
qed

end

lemma unat_pair: "unat ((of_nat (byte c) :: u16) OR push_bit 8 (of_nat (byte d))) = byte c + 256 * byte d"
proof -
  have "(of_nat (byte c) :: u16) OR push_bit 8 (of_nat (byte d)) = of_nat (byte c) + push_bit 8 (of_nat (byte d))"
  proof (rule disjunctive_add_eq_or [symmetric], rule bit_eqI)
    fix n
    have "byte c < 2 ^ 8" using byte_bound [of c] by simp
    then have "\<not> bit (byte c) m" if "8 \<le> m" for m
      using that by (metis bit_take_bit_iff linorder_not_less take_bit_nat_eq_self)
    then show "bit ((of_nat (byte c) :: u16) AND push_bit 8 (of_nat (byte d))) n = bit 0 n"
      by (auto simp: bit_simps)
  qed
  moreover have "push_bit 8 (of_nat (byte d)) = (of_nat (256 * byte d) :: u16)"
    by (simp add: push_bit_eq_mult)
  ultimately have "(of_nat (byte c) :: u16) OR push_bit 8 (of_nat (byte d)) = of_nat (byte c + 256 * byte d)"
    by simp
  moreover have "byte c + 256 * byte d < 2 ^ LENGTH(16)"
    using byte_bound [of c] byte_bound [of d] by simp
  ultimately show ?thesis
    by (metis unat_of_nat_small)
qed

lemma chk_loop_sum:
  fixes acc :: "'w::len word"
  assumes "16 \<le> LENGTH('w)" "unat acc + word_sum dat < 2 ^ LENGTH('w)"
  shows "unat (chk_loop dat acc) = unat acc + word_sum dat"
  using assms(2)
proof (induction dat acc rule: chk_loop.induct)
  case (1 c d cs acc)
  define num where "num = (of_nat (byte c) :: u16) OR push_bit 8 (of_nat (byte d))"
  have num: "unat (ucast num :: 'w word) = byte c + 256 * byte d"
    using unat_pair [of c d] byte_bound [of c] byte_bound [of d] assms(1)
      power_increasing [of 16 "LENGTH('w)" "2::nat"]
    by (simp add: num_def unsigned_ucast_eq take_bit_nat_eq_self)
  have "unat (acc + ucast num) = unat acc + (byte c + 256 * byte d)"
    using "1.prems" num by (subst unat_add_lem [THEN iffD1]) auto
  with "1.IH" [OF num_def] "1.prems" show ?case
    by (simp add: num_def Let_def)
next
  case (2 c acc)
  have "unat (of_nat (byte c) :: 'w word) = byte c"
    using byte_bound [of c] assms(1) power_increasing [of 16 "LENGTH('w)" "2::nat"]
    by (intro unat_of_nat_small) simp
  with 2 show ?case
    by (simp add: unat_add_lem [THEN iffD1])
qed simp

lemma chk_fold_sum:
  fixes s :: "'w::len word"
  assumes "32 \<le> LENGTH('w)" "unat s < 2 ^ 32"
  shows "unat (NOT (chk_fold s)) = fold16 (unat s)"
proof -
  define n where "n = unat s"
  define a where "a = n div 65536 + n mod 65536"
  have n: "n < 2 ^ 32" using assms by (simp add: n_def)
  have big: "(2::nat) ^ 32 \<le> 2 ^ LENGTH('w)"
    using assms(1) by (intro power_increasing) auto
  have abound: "a \<le> 131070"
  proof -
    have "n div 65536 \<le> 65535" using n by simp
    then show ?thesis using mod_less_divisor [of 65536 n] by (simp add: a_def)
  qed
  have shift: "unat (drop_bit 16 w) = unat w div 65536" for w :: "'w word"
    using drop_bit_eq_div [of 16 "unat w"] 
    by (simp only: unsigned_drop_bit_eq) (simp add: take_bit_nat_eq_self)
  have low: "unat (s AND 0xffff) = n mod 65536"
  proof -
    have "s AND 0xffff = take_bit 16 s"
      by (simp add: take_bit_eq_mask mask_eq_exp_minus_1)
    moreover have "unat (take_bit 16 s) = take_bit 16 n"
      by (simp only: unsigned_take_bit_eq n_def)
    ultimately show ?thesis
      by (simp only: take_bit_eq_mod) simp
  qed
  have one: "unat (drop_bit 16 s + (s AND 0xffff)) = a"
    using abound big by (subst unat_add_lem [THEN iffD1]) (simp_all add: shift low a_def n_def)
  have "a + a div 65536 \<le> 131071 + 131071"
    using abound div_le_dividend [of a 65536] by linarith
  then have two: "unat (drop_bit 16 s + (s AND 0xffff) + drop_bit 16 (drop_bit 16 s + (s AND 0xffff)))
      = a + a div 65536"
    using big by (subst unat_add_lem [THEN iffD1]) (simp_all only: shift one, simp_all)
  have "NOT (ucast (NOT w) :: u16) = ucast w" for w :: "'w word"
    using assms(1) by (intro bit_word_eqI) (auto simp: bit_simps)
  then have "NOT (chk_fold s) =
      ucast (drop_bit 16 s + (s AND 0xffff) + drop_bit 16 (drop_bit 16 s + (s AND 0xffff)))"
    by (simp add: chk_fold_def Let_def)
  then show ?thesis
    by (simp only: unsigned_ucast_eq two) (simp add: take_bit_eq_mod fold16_def Let_def a_def n_def)
qed

lemma calc_Checksum_sum:
  "length dat \<le> CHECKSUM_MAX_LEN \<Longrightarrow> unat (NOT (calc_Checksum dat)) = fold16 (word_sum dat)"
  using word_sum_fits [of dat] chk_loop_sum [of "0 :: u32" dat]
  by (simp add: calc_Checksum_def chk_fold_sum)

lemma calc_Checksum64_sum:
  "length dat \<le> CHECKSUM_MAX_LEN \<Longrightarrow> unat (NOT (calc_Checksum64 dat)) = fold16 (word_sum dat)"
  using word_sum_fits [of dat] chk_loop_sum [of "0 :: u64" dat]
  by (simp add: calc_Checksum64_def chk_fold_sum)

interpretation chk32: checksum_contract calc_Checksum CHECKSUM_MAX_LEN
  by unfold_locales (simp_all add: calc_Checksum_sum)

interpretation chk64: checksum_contract calc_Checksum64 CHECKSUM_MAX_LEN
  by unfold_locales (simp_all add: calc_Checksum64_sum)

section \<open>Resources\<close>

lemma nv_read_copy_fd: "fd \<in># M \<Longrightarrow> tracks fd_step M (nv_read_copy os fd) (\<lambda>_. M)"
  unfolding nv_read_copy_def Let_def by (rule track_intros fd_intros | simp)+

lemma nv_recover_fd:
  "h \<in># M \<Longrightarrow> b \<in># M \<Longrightarrow> out \<in># M \<Longrightarrow> tracks fd_step M (nv_recover os h b out org bak) (\<lambda>_. M)"
  unfolding nv_recover_def nv_repair_def nv_emit_def by (rule track_intros fd_intros | simp)+

lemma nv_finish_fd:
  "tracks fd_step (add_mset out (add_mset b (add_mset h M))) (nv_finish os h b out org bak) (\<lambda>_. M)"
  unfolding nv_finish_def nv_leave_def
  by (rule track_intros ctl_fd [THEN fd_cleanD] nv_recover_fd fd_intros | simp)+

lemma nv_partition_fd: "fd_clean (read_nv_partition os p q out)"
  unfolding read_nv_partition_def
  by (rule fd_cleanI) (rule track_intros nv_read_copy_fd nv_finish_fd fd_intros | simp)+

lemma nv_read_copy_monitors: "keeps monitors_restored (nv_read_copy os fd)"
  unfolding nv_read_copy_def Let_def by (rule keeps_intros monitors_keep)+

lemma nv_finish_monitors: "ensures (nv_finish os h b out org bak) monitors_restored"
  unfolding nv_finish_def nv_leave_def
  by (rule monitors_enable_then ensures_intros keeps_intros monitors_keep)+

lemma nv_read_copy_grows: "grows (nv_read_copy os fd)"
  unfolding nv_read_copy_def Let_def by (rule grows_intros)+

lemma nv_finish_grows: "grows (nv_finish os h b out org bak)"
  unfolding nv_finish_def nv_leave_def nv_recover_def nv_repair_def nv_emit_def by (rule grows_intros)+

section \<open>What is delivered\<close>

text \<open>The events that show a copy was read whole from a descriptor.\<close>

definition nv_reads :: "int \<Rightarrow> nv_copy \<Rightarrow> event set" where
  "nv_reads fd c = {Read fd RAMNV_SECT_SIZE (Some (nv_sect c)), Read fd (length (nv_body c)) (Some (nv_body c))}"

lemma nv_read_copy_reads:
  "E \<subseteq> set (trace s) \<Longrightarrow>
   wp (nv_read_copy os fd) (\<lambda>r t. E \<subseteq> set (trace t) \<and> (\<forall>c. r = Some c \<longrightarrow>
       length (nv_sect c) = RAMNV_SECT_SIZE \<and>
       (nv_ok c \<longrightarrow> nv_valid (nv_sect c) (nv_body c) \<and> nv_reads fd c \<subseteq> set (trace t)))) (\<lambda>_ _. True) s"
  unfolding nv_read_copy_def Let_def
  by (auto simp: wp_rules Let_def nv_reads_def split: option.splits)

text \<open>
  \<open>nv_delivered p q out tr\<close>: some copy that was read whole from \<open>p\<close> or \<open>q\<close> and carries
  a matching checksum went to \<open>out\<close> completely.
\<close>

definition nv_delivered :: "string \<Rightarrow> string \<Rightarrow> string \<Rightarrow> event list \<Rightarrow> bool" where
  "nv_delivered path Bak_path path_out tr \<longleftrightarrow>
     (\<exists>c src fd out. src \<in> {path, Bak_path} \<and> 0 \<le> fd \<and> 0 \<le> out \<and> nv_valid (nv_sect c) (nv_body c) \<and>
        {Open src O_RDWR fd, Open path_out O_RDWR out} \<union> nv_reads fd c \<subseteq> set tr \<and>
        Write out (nv_body c) (int (length (nv_body c))) \<in> set tr)"

lemma wp_write_any:
  "(\<And>r. Q r (s\<lparr>trace := trace s @ [Write fd b r]\<rparr>)) \<Longrightarrow> wp (sys_write os fd b) Q R s"
  unfolding wp_write Let_def by blast

lemma nv_emit_delivers:
  "E \<subseteq> set (trace s) \<Longrightarrow>
   wp (nv_emit os out c) (\<lambda>r t. E \<subseteq> set (trace t) \<and> (r = 1 \<longrightarrow>
       Write out (nv_body c) (int (length (nv_body c))) \<in> set (trace t))) (\<lambda>_ _. True) s"
  unfolding nv_emit_def wp_bind by (rule wp_write_any) (auto simp: wp_return)

lemma nv_repair_grows: "grows (nv_repair os fd c)"
  unfolding nv_repair_def by (rule grows_intros)+

lemma nv_recover_delivers:
  assumes "E \<subseteq> set (trace s)"
  shows "wp (nv_recover os h b out org bak) (\<lambda>r t. E \<subseteq> set (trace t) \<and> (r = 1 \<longrightarrow>
       (\<exists>c. nv_ok c \<and> (c = org \<or> c = bak) \<and>
          Write out (nv_body c) (int (length (nv_body c))) \<in> set (trace t)))) (\<lambda>_ _. True) s"
proof -
  have emit: "wp (nv_emit os out c) (\<lambda>r t. E \<subseteq> set (trace t) \<and> (r = 1 \<longrightarrow>
       (\<exists>c. nv_ok c \<and> (c = org \<or> c = bak) \<and>
          Write out (nv_body c) (int (length (nv_body c))) \<in> set (trace t)))) (\<lambda>_ _. True) t"
    if "nv_ok c" "c = org \<or> c = bak" "E \<subseteq> set (trace t)" for c and t :: "'a ctl_world_scheme"
    by (rule wp_conseq [OF nv_emit_delivers [OF that(3)]]) (use that in auto)
  show ?thesis
    unfolding nv_recover_def nv_status_def wp_if wp_seq
    using assms
    by (auto simp: wp_return intro!: emit wp_write_any
        keeps_wp [OF grows_happened [OF nv_repair_grows]])
qed

lemma nv_leave_result:
  "wp (nv_leave os h b out res) (\<lambda>r t. r = res \<and> prefix (trace s) (trace t)) (\<lambda>_ _. True) s"
proof -
  have "wp (nv_leave os h b out res) (\<lambda>r _. r = res) (\<lambda>_ _. True) s"
    by (simp add: nv_leave_def wp_rules wp_any)
  moreover have "wp (nv_leave os h b out res) (\<lambda>_ t. prefix (trace s) (trace t)) (\<lambda>_ _. True) s"
    by (rule wp_grows) (auto simp: nv_leave_def intro!: grows_intros)
  ultimately show ?thesis
    by (rule wp_conj [THEN wp_conseq]) auto
qed

lemma nv_finish_delivers:
  assumes "E \<subseteq> set (trace s)"
  shows "wp (nv_finish os h b out org bak) (\<lambda>r t. E \<subseteq> set (trace t) \<and> (r = 1 \<longrightarrow>
       (\<exists>c. nv_ok c \<and> (c = org \<or> c = bak) \<and>
          Write out (nv_body c) (int (length (nv_body c))) \<in> set (trace t)))) (\<lambda>_ _. True) s"
  unfolding nv_finish_def wp_seq wp_bind
  by (rule keeps_wp [OF grows_happened [where E = E]] ctl_grows assms wp_conseq [OF nv_recover_delivers]
      wp_conseq [OF nv_leave_result] TrueI | assumption | blast dest: set_mono_prefix)+

lemma wp_open_any:
  "(\<And>fd. Q fd (s\<lparr>trace := trace s @ [Open p fl fd]\<rparr>)) \<Longrightarrow> wp (sys_open os p fl) Q R s"
  unfolding wp_open Let_def by blast

lemma nv_deliveredI:
  "0 \<le> fd \<Longrightarrow> 0 \<le> out \<Longrightarrow> src = path \<or> src = Bak_path \<Longrightarrow> nv_valid (nv_sect c) (nv_body c) \<Longrightarrow>
   nv_reads fd c \<subseteq> set tr \<Longrightarrow> Open src O_RDWR fd \<in> set tr \<Longrightarrow> Open path_out O_RDWR out \<in> set tr \<Longrightarrow>
   Write out (nv_body c) (int (length (nv_body c))) \<in> set tr \<Longrightarrow>
   nv_delivered path Bak_path path_out tr"
  unfolding nv_delivered_def by blast

lemma nv_finish_partition:
  assumes "nv_ok org \<longrightarrow> nv_valid (nv_sect org) (nv_body org) \<and> nv_reads h org \<subseteq> set (trace t)"
    and "nv_ok bak \<longrightarrow> nv_valid (nv_sect bak) (nv_body bak) \<and> nv_reads b bak \<subseteq> set (trace t)"
    and "0 \<le> h" "0 \<le> b" "0 \<le> out"
    and "{Open p O_RDWR h, Open q O_RDWR b, Open path_out O_RDWR out} \<subseteq> set (trace t)"
  shows "wp (nv_finish os h b out org bak) (\<lambda>r t. r = 1 \<longrightarrow> nv_delivered p q path_out (trace t))
     (\<lambda>_ _. True) t"
proof (rule wp_conseq [OF nv_finish_delivers [where E = "set (trace t)"]], rule subset_refl, intro impI)
  fix r u
  assume u: "set (trace t) \<subseteq> set (trace u) \<and> (r = (1::int) \<longrightarrow> (\<exists>c. nv_ok c \<and> (c = org \<or> c = bak) \<and>
     Write out (nv_body c) (int (length (nv_body c))) \<in> set (trace u)))" and "r = 1"
  then obtain c where c: "nv_ok c" "c = org \<or> c = bak"
    "Write out (nv_body c) (int (length (nv_body c))) \<in> set (trace u)" by blast
  from c(2) show "nv_delivered p q path_out (trace u)"
  proof
    assume "c = org"
    then show ?thesis
      by (intro nv_deliveredI [of h out p _ _ c]) (use assms c u in auto)
  next
    assume "c = bak"
    then show ?thesis
      by (intro nv_deliveredI [of b out q _ _ c]) (use assms c u in auto)
  qed
qed simp

lemma nv_partition_delivers:
  "wp (read_nv_partition os p q path_out)
     (\<lambda>r t. r = 1 \<longrightarrow> nv_delivered p q path_out (trace t)) (\<lambda>_ _. True) s"
proof -
  let ?Q = "\<lambda>r t. r = 1 \<longrightarrow> nv_delivered p q path_out (trace t)"
  let ?good = "\<lambda>fd c t. nv_ok c \<longrightarrow> nv_valid (nv_sect c) (nv_body c) \<and> nv_reads fd c \<subseteq> set (trace t)"
  let ?out = "\<lambda>h b org bak. seq (sys_lseek os b 0 SEEK_SET) (bind (sys_open os path_out O_RDWR) (\<lambda>out.
     if out < 0 then seq (sys_close h) (seq (sys_close b) (return 0))
     else nv_finish os h b out org bak))"
  let ?bak = "\<lambda>h org. seq (sys_lseek os h 0 SEEK_SET) (bind (sys_open os q O_RDWR) (\<lambda>b.
     if b < 0 then seq (sys_close h) (return 0)
     else bind (nv_read_copy os b) (\<lambda>c. case c of
         None \<Rightarrow> seq (sys_close h) (seq (sys_close b) (return 0))
       | Some bak \<Rightarrow> ?out h b org bak)))"
  have out: "wp (?out h b org bak) ?Q (\<lambda>_ _. True) t"
    if "?good h org t" "?good b bak t" "0 \<le> h" "0 \<le> b"
      "{Open p O_RDWR h, Open q O_RDWR b} \<subseteq> set (trace t)"
    for h b org bak and t :: "'a ctl_world_scheme"
    unfolding wp_seq wp_lseek wp_bind Let_def
    by (rule wp_open_any) (use that in \<open>auto simp: wp_return wp_seq wp_close intro!: nv_finish_partition\<close>)
  have bak: "wp (?bak h org) ?Q (\<lambda>_ _. True) t"
    if "?good h org t" "0 \<le> h" "Open p O_RDWR h \<in> set (trace t)"
    for h org and t :: "'a ctl_world_scheme"
    unfolding wp_seq wp_lseek wp_bind Let_def
  proof (rule wp_open_any, unfold wp_if wp_bind, split if_split, intro conjI impI)
    fix b
    let ?u = "t\<lparr>trace := trace t @ [Lseek h 0 SEEK_SET (os_lseek os (trace t) h 0 SEEK_SET)]\<rparr>"
    let ?v = "?u\<lparr>trace := trace ?u @ [Open q O_RDWR b]\<rparr>"
    assume "\<not> b < 0"
    then show "wp (nv_read_copy os b) (\<lambda>c. wp (case c of
         None \<Rightarrow> seq (sys_close h) (seq (sys_close b) (return 0))
       | Some bak \<Rightarrow> ?out h b org bak) ?Q (\<lambda>_ _. True)) (\<lambda>_ _. True) ?v"
      by (intro wp_conseq [OF nv_read_copy_reads [where E = "set (trace ?v)"]])
        (use that in \<open>auto simp: wp_return wp_seq wp_close split: option.split
           intro!: out [unfolded wp_seq] dest: subset_trans\<close>)
  qed (simp add: wp_rules)
  show ?thesis
    unfolding read_nv_partition_def wp_bind
  proof (rule wp_open_any, unfold wp_if wp_bind, split if_split, intro conjI impI)
    fix h
    let ?u = "s\<lparr>trace := trace s @ [Open p O_RDWR h]\<rparr>"
    assume "\<not> h < 0"
    then show "wp (nv_read_copy os h) (\<lambda>c. wp (case c of
         None \<Rightarrow> seq (sys_close h) (return 0) | Some org \<Rightarrow> ?bak h org) ?Q (\<lambda>_ _. True)) (\<lambda>_ _. True) ?u"
      by (intro wp_conseq [OF nv_read_copy_reads [where E = "set (trace ?u)"]])
        (auto simp: wp_return wp_seq wp_close split: option.split
           intro!: bak [unfolded wp_seq] dest: subset_trans)
  qed (simp add: wp_rules)
qed

section \<open>Properties\<close>

text \<open>The bytes a descriptor has accepted.\<close>

fun written :: "int \<Rightarrow> event list \<Rightarrow> bytes" where
  "written fd [] = []"
| "written fd (Write fd' d r # es) = (if fd' = fd then take (nat r) d else []) @ written fd es"
| "written fd (_ # es) = written fd es"

lemma checksums_agree:
  assumes "length dat \<le> CHECKSUM_MAX_LEN"
  shows "calc_Checksum dat = calc_Checksum64 dat"
proof -
  have "unat (NOT (calc_Checksum dat)) = unat (NOT (calc_Checksum64 dat))"
    using assms by (simp add: chk32.calc_sum chk64.calc_sum)
  then have "NOT (calc_Checksum dat) = NOT (calc_Checksum64 dat)"
    by (rule unsigned_word_eqI)
  then show ?thesis by (metis bit.double_compl)
qed

lemma ucast_u16_inj: "ucast a = (c :: u32) \<Longrightarrow> ucast b = c \<Longrightarrow> a = (b :: u16)"
proof -
  have ucast_back: "(ucast (ucast w :: u32) :: u16) = w" for w :: u16
    by (rule bit_word_eqI) (simp add: bit_simps)
  assume "ucast a = (c :: u32)" "ucast b = c"
  with ucast_back [of a] ucast_back [of b] show "a = b" by simp
qed

text \<open>
  C23: The 32-bit and the 64-bit accumulator give the same checksum for every NV body of at
  most 131074 bytes, the longest one whose word sum cannot overflow 32 bits.
\<close>

theorem calc_Checksum_agree:
  assumes "length dat \<le> CHECKSUM_MAX_LEN"
  shows "calc_Checksum dat = calc_Checksum64 dat"
  using assms by (rule checksums_agree)

theorem calc_Checksum_agree_witness: "calc_Checksum ''NVram'' = calc_Checksum64 ''NVram''"
  using calc_Checksum_agree [of "''NVram''"] by (simp add: CHECKSUM_MAX_LEN_def)





text \<open>
  C17: Reading an NV partition opens and closes its three devices properly on every path: it
  uses only descriptors it opened and closes each exactly once.
\<close>

theorem read_nv_partition_descriptors: "fd_clean (read_nv_partition os path Bak_path path_out)"
  by (rule nv_partition_fd)

text \<open>
  C9: When reading an NV partition reports success, a body that was read whole from one of
  the two partitions, with the right magic number and a matching checksum, has been written
  to the output completely.
\<close>

theorem read_nv_partition_delivers:
  assumes "read_nv_partition os path Bak_path path_out s = Ret 1 t"
  shows "nv_delivered path Bak_path path_out (trace t)"
  using nv_partition_delivers [of os path Bak_path path_out s] assms by (simp add: wp_def)

theorem read_nv_partition_delivers_witness:
  "\<exists>t. read_nv_partition (ok_os\<lparr>os_read := (\<lambda>tr fd n. Some (if n = 512 then put_u32 NV_MAGIC @
        put_u32 2 @ put_u32 0x9d9e @ replicate 500 NUL else ''ab''))\<rparr>) ''p'' ''q'' ''o'' ctl_start = Ret 1 t \<and>
     nv_delivered ''p'' ''q'' ''o'' (trace t)"
proof -
  let ?os = "ok_os\<lparr>os_read := (\<lambda>tr fd n. Some (if n = 512 then put_u32 NV_MAGIC @
        put_u32 2 @ put_u32 0x9d9e @ replicate 500 NUL else ''ab''))\<rparr>"
  have "\<exists>t. read_nv_partition ?os ''p'' ''q'' ''o'' ctl_start = Ret 1 t"
    by (simp add: read_nv_partition_def nv_read_copy_def nv_finish_def nv_leave_def nv_recover_def
        nv_status_def nv_emit_def nv_valid_def nv_header_def get_u32_def put_u32_def bslice_def
        NV_MAGIC_def calc_Checksum_def calc_Checksum64_def chk_fold_def byte_def RAMNV_SECT_SIZE_def
        modem_ctrl_enable_busmonitor_def modem_ctrl_enable_dmc_mpu_def ctl_start_def ok_os_def
        syscall_defs io_simps Let_def del: replicate.simps(2))
  then show ?thesis
    using read_nv_partition_delivers [of ?os "''p''" "''q''" "''o''" ctl_start] by auto
qed

text \<open>
  C10: Recovery on devices that accept every write completely. With one intact copy the
  damaged partition receives the intact header and body and the output the intact body; with
  two intact copies only the output is written, from the original; with none, the output is
  zeroed, no partition is touched and the result is failure.
\<close>

theorem nv_recover_repairs:
  assumes "\<And>tr fd d. os_write os tr fd d = int (length d)" "distinct [h, b, out]"
    and "length (nv_sect org) = RAMNV_SECT_SIZE" "length (nv_sect bak) = RAMNV_SECT_SIZE"
  shows "\<exists>es. nv_recover os h b out org bak s =
       Ret (if nv_ok org \<or> nv_ok bak then 1 else 0) (s\<lparr>trace := trace s @ es\<rparr>) \<and>
     written out es = (if nv_ok org then nv_body org else if nv_ok bak then nv_body bak
                       else replicate 1024 NUL) \<and>
     written b es = (if nv_ok org \<and> \<not> nv_ok bak then nv_sect org @ nv_body org else []) \<and>
     written h es = (if \<not> nv_ok org \<and> nv_ok bak then nv_sect bak @ nv_body bak else [])"
  using assms
  by (cases "nv_ok org"; cases "nv_ok bak")
    (simp_all add: nv_recover_def nv_status_def nv_repair_def nv_emit_def syscall_defs io_simps Let_def
      RAMNV_SECT_SIZE_def, (rule exI, rule conjI, rule refl, simp)+)

theorem nv_recover_repairs_witness:
  "\<exists>es. nv_recover ok_os 3 4 5
       \<lparr>nv_sect = replicate 512 NUL, nv_body = ''ab'', nv_ok = True\<rparr>
       \<lparr>nv_sect = replicate 512 NUL, nv_body = ''cd'', nv_ok = False\<rparr> ctl_start =
       Ret 1 (ctl_start\<lparr>trace := es\<rparr>) \<and>
     written 5 es = ''ab'' \<and> written 4 es = replicate 512 NUL @ ''ab'' \<and> written 3 es = []"
  using nv_recover_repairs [of ok_os 3 4 5
       "\<lparr>nv_sect = replicate 512 NUL, nv_body = ''ab'', nv_ok = True\<rparr>"
       "\<lparr>nv_sect = replicate 512 NUL, nv_body = ''cd'', nv_ok = False\<rparr>" ctl_start]
  by (simp add: ok_os_def RAMNV_SECT_SIZE_def ctl_start_def del: replicate.simps)

end
