(* ===== verification/Simlock.thy ===== *)
theory Simlock
  imports Io_Control
begin

text \<open>
  \<open>modem_simlock.c\<close>: the SIM lock key is asked from the trusted execution environment
  and appended to the modem's command line in hexadecimal.
\<close>

section \<open>Helpers\<close>

definition cal_xor :: "bytes \<Rightarrow> u8" where
  "cal_xor pin = foldl (\<lambda>x c. x XOR of_nat (byte c)) 0 pin"

text \<open>\<open>count\<close> bytes copied in reverse order.\<close>

definition EndianConvert :: "bytes \<Rightarrow> bytes" where
  "EndianConvert src = rev src"

text \<open>The packed request; its last byte is the exclusive or of all others.\<close>

definition tee_msg_uuid :: bytes where
  "tee_msg_uuid = map char_of [0xB3::nat, 0x78, 0xEA, 0x66, 0x48, 0xF7, 0x11, 0xE6, 0xB8, 0x78, 0xE3, 0xFF,
     0xB7, 0x61, 0x7E, 0x0B]"

definition tee_msg_body :: bytes where
  "tee_msg_body = put_u32 0x19000000 @ put_le 2 0x0301 @ [char_of (0x80::nat)] @ tee_msg_uuid @
     put_u32 0x03010010 @ [char_of (1::nat)]"

definition tee_msg_rd :: bytes where
  "tee_msg_rd = tee_msg_body @ [char_of (unat (cal_xor tee_msg_body))]"

text \<open>The response is packed: length, id, flag, return code, data at offset 11, checksum.\<close>

definition TEE_RSP_SIZE :: nat where "TEE_RSP_SIZE = 16"

definition spuk_of :: "bytes \<Rightarrow> u32" where
  "spuk_of rsp = get_u32 (EndianConvert (bslice 11 4 rsp)) 0"

fun hex_digits :: "nat \<Rightarrow> nat \<Rightarrow> string" where
  "hex_digits 0 n = []"
| "hex_digits (Suc k) n =
     (if n < 16 then [char_of (if n < 10 then 48 + n else 87 + n)]
      else hex_digits k (n div 16) @ [char_of (let d = n mod 16 in if d < 10 then 48 + d else 87 + d)])"

definition print_hex :: "u32 \<Rightarrow> string" where
  "print_hex w = hex_digits 8 (unat w)"

section \<open>The key on the command line\<close>

text \<open>
  \<open>None\<close> from the environment is a non-zero return code; a short response is padded with
  the zeroes the structure was initialised with.
\<close>

definition add_spuk_cmdline :: "os \<Rightarrow> string \<Rightarrow> ('z ctl_world_scheme, string) io" where
  "add_spuk_cmdline os str =
     bind (TEECex_SendMsg_To_TEE os tee_msg_rd) (\<lambda>r.
     let spuk = (case r of None \<Rightarrow> 0
                 | Some rsp \<Rightarrow> spuk_of (take TEE_RSP_SIZE rsp @ replicate (TEE_RSP_SIZE - length rsp) NUL))
     in return (str @ snprintf 64 ['' simlock.puk=0x'', print_hex spuk]))"

section \<open>Lemmas\<close>

lemma add_spuk_fd: "fd_clean (add_spuk_cmdline os str)"
  unfolding add_spuk_cmdline_def Let_def by (rule fd_cleanI) (rule track_intros fd_intros | simp)+

lemma cal_xor_append: "cal_xor (a @ b) = cal_xor a XOR cal_xor b"
proof -
  have "foldl (\<lambda>x c. x XOR of_nat (byte c)) i b = i XOR foldl (\<lambda>x c. x XOR of_nat (byte c)) 0 b" for i :: u8
  proof (induction b arbitrary: i)
    case Nil
    then show ?case by simp
  next
    case (Cons c b)
    show ?case
      unfolding foldl.simps Cons.IH [of "i XOR of_nat (byte c)"] Cons.IH [of "0 XOR of_nat (byte c)"]
      by (simp only: xor.assoc xor.left_neutral)
  qed
  from this [of "cal_xor a"] show ?thesis
    by (simp only: cal_xor_def foldl_append)
qed

text \<open>
  The request to the trusted application carries a valid checksum: the exclusive or of
  all 29 bytes of the message, its checksum byte included, is zero.
\<close>

theorem tee_msg_checksum: "length tee_msg_rd = 29 \<and> cal_xor tee_msg_rd = 0"
proof -
  have "byte (char_of (unat (w :: u8))) = unat w" for w
    using unsigned_less [of w, where 'a = nat] by (simp add: byte_def)
  then have "cal_xor [char_of (unat (w :: u8))] = w" for w
    by (simp add: cal_xor_def)
  then have "cal_xor tee_msg_rd = 0"
    by (simp add: tee_msg_rd_def cal_xor_append)
  then show ?thesis
    by (simp add: tee_msg_rd_def tee_msg_body_def tee_msg_uuid_def length_put_le)
qed

end
