(* ===== verification/Load_Image.thy ===== *)
theory Load_Image
  imports Io_Control
begin

text \<open>
  The image level of \<open>modem_load.c\<close>: copying one image from its partition into modem
  memory (\<open>modem_load_image\<close>, \<open>modem_clear_region\<close>), writing a control file
  (\<open>write_proc_file\<close>) and finding the executable inside a packed (SCI) modem image
  (\<open>get_modem_img_info\<close>, \<open>modem_get_patiton_info\<close>). Loops are recursive functions on the
  bytes left; they terminate because each round consumes at least one byte.
\<close>

section \<open>Control files\<close>

text \<open>At most six attempts to open the file, 200 ms apart.\<close>

function open_retry :: "os \<Rightarrow> string \<Rightarrow> nat \<Rightarrow> ('z ctl_world_scheme, int) io" where
  "open_retry os file retry =
     bind (sys_open os file O_RDWR) (\<lambda>fd.
     if fd < 0
     then seq (sys_usleep 200000)
         (if Suc retry < 6 then open_retry os file (Suc retry) else return fd)
     else return fd)"
  by pat_completeness auto
termination
  by (relation "measure (\<lambda>(os, file, retry). 6 - retry)") auto

declare open_retry.simps [simp del]

definition write_proc_file :: "os \<Rightarrow> string \<Rightarrow> int \<Rightarrow> string \<Rightarrow> ('z ctl_world_scheme, int) io" where
  "write_proc_file os file offset string =
     bind (open_retry os file 0) (\<lambda>fd.
     if fd < 0 then return (- 1)
     else bind (sys_lseek os fd offset SEEK_SET) (\<lambda>pos.
       if pos \<noteq> offset then seq (sys_close fd) (return (- 1))
       else bind (sys_write os fd string) (\<lambda>r.
         if r \<noteq> int (length string) then seq (sys_close fd) (return (- 1))
         else seq (sys_close fd) (return 0))))"

section \<open>Clearing a region\<close>

definition CLEAR_BUF_SIZE :: nat where "CLEAR_BUF_SIZE = 8 * 1024"

function clear_loop :: "os \<Rightarrow> int \<Rightarrow> nat \<Rightarrow> ('z ctl_world_scheme, unit) io" where
  "clear_loop os fd sz =
     (let wsize = min sz CLEAR_BUF_SIZE in
      bind (sys_write os fd (replicate wsize NUL)) (\<lambda>rval.
      if rval \<le> 0 then return ()
      else if 0 < sz - wsize then clear_loop os fd (sz - wsize)
      else return ()))"
  by pat_completeness auto
termination
  by (relation "measure (\<lambda>(os, fd, sz). sz)") (auto simp: CLEAR_BUF_SIZE_def)

declare clear_loop.simps [simp del]

definition modem_clear_region :: "os \<Rightarrow> string \<Rightarrow> u32 \<Rightarrow> ('z ctl_world_scheme, unit) io" where
  "modem_clear_region os fout sz =
     bind (sys_open os fout O_WRONLY) (\<lambda>fd.
     if fd < 0 then return ()
     else seq (clear_loop os fd (unat sz))
         (sys_close fd))"

section \<open>Copying an image\<close>

text \<open>
  The copy loop. \<open>rsize\<close> is an \<open>int\<close>: a count of \<open>2 ^ 31\<close> or more turns negative and the
  \<open>read\<close> that follows is out of bounds of the buffer, which is a \<open>Fault\<close> here. The
  result is \<open>0\<close> when the last byte was handed over and \<open>-1\<close> otherwise.
\<close>

function copy_loop :: "os \<Rightarrow> int \<Rightarrow> int \<Rightarrow> nat \<Rightarrow> nat \<Rightarrow> ('z ctl_world_scheme, int) io" where
  "copy_loop os fdin fdout buf_size sz =
     (let rsize = min sz buf_size in
      if 2 ^ 31 \<le> rsize then stop (Fault ''modem_load_image: negative read count'')
      else bind (sys_read os fdin rsize) (\<lambda>d. case d of
        None \<Rightarrow> return (- 1)
      | Some buf \<Rightarrow>
          if buf = [] then return (- 1)
          else bind (sys_write os fdout buf) (\<lambda>wsize.
            if wsize \<le> 0 then return (- 1)
            else if 0 < sz - length buf
              then copy_loop os fdin fdout buf_size (sz - length buf)
            else return 0)))"
  by pat_completeness auto
termination
  by (relation "measure (\<lambda>(os, fdin, fdout, buf_size, sz). sz)") auto

declare copy_loop.simps [simp del]

definition LOAD_BUF_SIZE :: nat where "LOAD_BUF_SIZE = 512 * 1024"

definition load_image_leave :: "os \<Rightarrow> int \<Rightarrow> int \<Rightarrow> int \<Rightarrow> ('z ctl_world_scheme, int) io" where
  "load_image_leave os fdin fdout res =
     seq (modem_ctrl_enable_busmonitor os True)
     (seq (modem_ctrl_enable_dmc_mpu os True)
     (seq (sys_close fdin)
     (seq (sys_close fdout)
     (return res))))"

text \<open>From opening the two files to the end of the copy.\<close>

definition load_image_files ::
  "os \<Rightarrow> image_load \<Rightarrow> int \<Rightarrow> int \<Rightarrow> nat \<Rightarrow> nat \<Rightarrow> ('z ctl_world_scheme, int) io" where
  "load_image_files os img offsetin offsetout buf_size sz =
     bind (sys_open os (path_r img) O_RDONLY) (\<lambda>fdin.
     if fdin < 0 then
       seq (modem_ctrl_enable_busmonitor os True)
       (seq (modem_ctrl_enable_dmc_mpu os True)
       (return (- 1)))
     else bind (sys_open os (path_w img) O_WRONLY) (\<lambda>fdout.
     if fdout < 0 then
       seq (sys_close fdin)
       (seq (modem_ctrl_enable_busmonitor os True)
       (seq (modem_ctrl_enable_dmc_mpu os True)
       (return (- 1))))
     else bind (sys_lseek os fdin offsetin SEEK_SET) (\<lambda>pin.
     if pin \<noteq> offsetin then load_image_leave os fdin fdout (- 1)
     else bind (sys_lseek os fdout offsetout SEEK_SET) (\<lambda>pout.
     if pout \<noteq> offsetout then load_image_leave os fdin fdout (- 1)
     else bind (copy_loop os fdin fdout buf_size sz) (\<lambda>res.
     load_image_leave os fdin fdout res)))))"

definition modem_load_image ::
  "os \<Rightarrow> image_load \<Rightarrow> int \<Rightarrow> int \<Rightarrow> u32 \<Rightarrow> ('z ctl_world_scheme, int) io" where
  "modem_load_image os img offsetin offsetout sz =
     bind (if LOAD_BUF_SIZE < unat sz
           then bind (sys_malloc os (uint sz)) (\<lambda>ok. return (if ok then unat sz else LOAD_BUF_SIZE))
           else return LOAD_BUF_SIZE) (\<lambda>buf_size.
     seq (modem_ctrl_enable_busmonitor os False)
     (seq (modem_ctrl_enable_dmc_mpu os False)
     (seq (do_if (GET_FLAG (img_flag img) CLR_FLAG) (modem_clear_region os (path_w img) sz))
     (load_image_files os img offsetin offsetout buf_size (unat sz)))))"

section \<open>SCI image headers\<close>

definition MODEM_MAGIC :: string where "MODEM_MAGIC = ''SCI1''"
definition SCI_TYPE_MODEM_BIN :: u32 where "SCI_TYPE_MODEM_BIN = 1"
definition SCI_LAST_HDR :: u32 where "SCI_LAST_HDR = 0x100"
definition MODEM_SHA1_HDR :: u32 where "MODEM_SHA1_HDR = 0x400"
definition MODEM_SHA1_SIZE :: nat where "MODEM_SHA1_SIZE = 20"

record data_block_header =
  type_flags :: u32
  hdr_offset :: u32
  hdr_length :: u32

definition sci_header :: "bytes \<Rightarrow> nat \<Rightarrow> data_block_header" where
  "sci_header buf i = \<lparr>type_flags = get_u32 buf (12 * i), hdr_offset = get_u32 buf (12 * i + 4),
     hdr_length = get_u32 buf (12 * i + 8)\<rparr>"

text \<open>
  The header loop: the modem offset (\<open>-1\<close> if none), the executable size and the image
  length (\<open>-1\<close> if no header carries the last-header flag).
\<close>

fun sci_scan :: "data_block_header list \<Rightarrow> u32 \<Rightarrow> u64 \<Rightarrow> u32 \<times> u64 \<times> u32" where
  "sci_scan [] modem_offset exe_size = (modem_offset, exe_size, - 1)"
| "sci_scan (h # hs) modem_offset exe_size =
     (let (mo, ex) =
        (if type_flags h AND 0xff = SCI_TYPE_MODEM_BIN
         then (if type_flags h AND MODEM_SHA1_HDR \<noteq> 0
               then (hdr_offset h + of_nat MODEM_SHA1_SIZE,
                     ucast (hdr_length h) - of_nat MODEM_SHA1_SIZE)
               else (hdr_offset h, ucast (hdr_length h)))
         else (modem_offset, exe_size))
      in if type_flags h AND SCI_LAST_HDR \<noteq> 0
         then (mo, ex, hdr_offset h + hdr_length h)
         else sci_scan hs mo ex)"

record img_info =
  ii_offset :: u32
  ii_is_sci :: bool
  ii_total_len :: u64
  ii_exe_size :: u64

definition plain_info :: "image_load \<Rightarrow> img_info" where
  "plain_info img = \<lparr>ii_offset = 0, ii_is_sci = False, ii_total_len = ucast (img_size img),
     ii_exe_size = ucast (img_size img)\<rparr>"

text \<open>
  The part of \<open>get_modem_img_info\<close> after the headers were read; \<open>total0\<close> and \<open>exe0\<close> are
  the caller's variables, which not every path assigns.
\<close>

definition sci_info :: "image_load \<Rightarrow> bytes \<Rightarrow> u64 \<Rightarrow> u64 \<Rightarrow> img_info" where
  "sci_info img buf total0 exe0 =
     (if take 4 buf \<noteq> MODEM_MAGIC then plain_info img
      else (let (mo, ex, il) = sci_scan (map (sci_header buf) [1..<11]) (- 1) exe0
            in if mo = - 1 \<or> il = - 1
               then \<lparr>ii_offset = 0, ii_is_sci = True, ii_total_len = total0, ii_exe_size = ex\<rparr>
               else \<lparr>ii_offset = mo, ii_is_sci = True, ii_total_len = scast il, ii_exe_size = ex\<rparr>))"

definition get_modem_img_info ::
  "os \<Rightarrow> image_load \<Rightarrow> u32 \<Rightarrow> ('z ctl_world_scheme, img_info) io" where
  "get_modem_img_info os img secure_offset =
     (if \<not> has_substr (path_r img) MODEM_BANK then return (plain_info img)
      else bind (sys_open os (path_r img) O_RDONLY) (\<lambda>fdin.
      if fdin < 0 then return (plain_info img)
      else bind (sys_lseek os fdin (uint secure_offset) SEEK_SET) (\<lambda>pos.
      if pos \<noteq> uint secure_offset then seq (sys_close fdin) (return (plain_info img))
      else bind (sys_read os fdin (11 * 12)) (\<lambda>d.
      if map_option length d \<noteq> Some (11 * 12) then seq (sys_close fdin) (return (plain_info img))
      else bind (uninit os ''total_len'') (\<lambda>total0.
      bind (uninit os ''modem_exe_size'') (\<lambda>exe0.
      seq (sys_close fdin)
      (return (sci_info img (the d) total0 exe0))))))))"

definition modem_get_patiton_info ::
  "os \<Rightarrow> image_load \<Rightarrow> ('z ctl_world_scheme, u32 \<times> u64) io" where
  "modem_get_patiton_info os img =
     bind (get_modem_img_info os img 0) (\<lambda>i.
     return (ii_offset i, ii_exe_size i))"

text \<open>
  Reference definitions for the header scan: the headers up to the first one flagged as
  the last, and a packed image's header block.
\<close>

definition is_last_hdr :: "data_block_header \<Rightarrow> bool" where
  "is_last_hdr h = (type_flags h AND SCI_LAST_HDR \<noteq> 0)"

definition is_modem_hdr :: "data_block_header \<Rightarrow> bool" where
  "is_modem_hdr h = (type_flags h AND 0xff = SCI_TYPE_MODEM_BIN)"

fun upto_last :: "data_block_header list \<Rightarrow> data_block_header list" where
  "upto_last [] = []"
| "upto_last (h # hs) = (if is_last_hdr h then [h] else h # upto_last hs)"

definition exe_range :: "data_block_header \<Rightarrow> u32 \<times> u64" where
  "exe_range h =
     (if type_flags h AND MODEM_SHA1_HDR \<noteq> 0
      then (hdr_offset h + 20, ucast (hdr_length h) - 20)
      else (hdr_offset h, ucast (hdr_length h)))"

definition put_header :: "data_block_header \<Rightarrow> bytes" where
  "put_header h = put_u32 (type_flags h) @ put_u32 (hdr_offset h) @ put_u32 (hdr_length h)"

definition sci_block :: "data_block_header list \<Rightarrow> bytes" where
  "sci_block hs = MODEM_MAGIC @ replicate 8 NUL @ concat (map put_header hs) @
     replicate (12 * (10 - length hs)) NUL"

section \<open>Descriptor discipline\<close>

lemma open_retry_fd:
  "tracks fd_step M (open_retry os p k) (\<lambda>fd. if fd < 0 then M else add_mset fd M)"
proof (induction os p k rule: open_retry.induct)
  case (1 os p k)
  show ?case
    by (subst open_retry.simps) (rule track_intros fd_intros "1" | simp)+
qed

lemma write_proc_file_fd: "fd_clean (write_proc_file os file off str)"
  unfolding write_proc_file_def
  by (rule fd_cleanI) (rule track_intros open_retry_fd fd_intros | simp)+

lemma clear_loop_fd: "fd \<in># M \<Longrightarrow> tracks fd_step M (clear_loop os fd n) (\<lambda>_. M)"
proof (induction os fd n rule: clear_loop.induct)
  case (1 os fd n)
  show ?case
    by (subst clear_loop.simps, simp only: Let_def) (rule track_intros fd_intros "1" refl | simp)+
qed

lemma clear_region_fd: "fd_clean (modem_clear_region os p n)"
  unfolding modem_clear_region_def
  by (rule fd_cleanI) (rule track_intros fd_intros clear_loop_fd | simp)+

lemma copy_loop_fd:
  "fdin \<in># M \<Longrightarrow> fdout \<in># M \<Longrightarrow> tracks fd_step M (copy_loop os fdin fdout b n) (\<lambda>_. M)"
proof (induction os fdin fdout b n rule: copy_loop.induct)
  case (1 os fdin fdout b n)
  show ?case
    by (subst copy_loop.simps, simp only: Let_def)
      (rule track_intros fd_intros "1" refl | simp add: "1.prems")+
qed

lemma load_image_leave_fd:
  "tracks fd_step (add_mset fdout (add_mset fdin M)) (load_image_leave os fdin fdout res) (\<lambda>_. M)"
  unfolding load_image_leave_def
  by (rule track_intros ctl_fd [THEN fd_cleanD] fd_intros | simp)+

lemma load_image_fd: "fd_clean (modem_load_image os img oi oo n)"
  unfolding modem_load_image_def load_image_files_def
  by (rule fd_cleanI)
    (rule track_intros ctl_fd [THEN fd_cleanD] clear_region_fd [THEN fd_cleanD] load_image_leave_fd
       copy_loop_fd fd_intros | simp)+

lemma get_modem_img_info_fd: "fd_clean (get_modem_img_info os img off)"
  unfolding get_modem_img_info_def
  by (rule fd_cleanI) (rule track_intros fd_intros | simp)+

lemma get_patiton_info_fd: "fd_clean (modem_get_patiton_info os img)"
  unfolding modem_get_patiton_info_def
  by (rule fd_cleanI) (rule track_intros get_modem_img_info_fd [THEN fd_cleanD] | simp)+

lemmas image_fd = write_proc_file_fd clear_region_fd load_image_fd get_modem_img_info_fd
  get_patiton_info_fd

section \<open>Trace growth and monitors\<close>

lemma clear_loop_grows: "grows (clear_loop os fd n)"
proof (induction os fd n rule: clear_loop.induct)
  case (1 os fd n)
  show ?case
    by (subst clear_loop.simps, simp only: Let_def) (rule grows_intros "1" refl | assumption)+
qed

lemma copy_loop_grows: "grows (copy_loop os fdin fdout b n)"
proof (induction os fdin fdout b n rule: copy_loop.induct)
  case (1 os fdin fdout b n)
  show ?case
    by (subst copy_loop.simps, simp only: Let_def) (rule grows_intros "1" refl | assumption)+
qed

lemma clear_region_grows: "grows (modem_clear_region os p n)"
  unfolding modem_clear_region_def by (rule grows_intros clear_loop_grows)+

lemma load_image_leave_grows: "grows (load_image_leave os fdin fdout res)"
  unfolding load_image_leave_def by (rule grows_intros)+

lemmas image_grows = clear_region_grows copy_loop_grows load_image_leave_grows

lemma load_image_leave_monitors: "ensures (load_image_leave os fdin fdout res) monitors_restored"
  unfolding load_image_leave_def
  by (rule monitors_enable_then) (rule keeps_intros monitors_keep)+

lemma clear_loop_blind: "io_blind I \<Longrightarrow> keeps I (clear_loop os fd n)"
proof (induction os fd n rule: clear_loop.induct)
  case (1 os fd n)
  show ?case
    by (subst clear_loop.simps, simp only: Let_def)
      (rule keeps_intros io_blind_keeps "1" refl | assumption | rule "1.prems")+
qed

lemma copy_loop_blind: "io_blind I \<Longrightarrow> keeps I (copy_loop os fdin fdout b n)"
proof (induction os fdin fdout b n rule: copy_loop.induct)
  case (1 os fdin fdout b n)
  show ?case
    by (subst copy_loop.simps, simp only: Let_def)
      (rule keeps_intros io_blind_keeps "1" refl | assumption | rule "1.prems")+
qed

lemma load_image_blind: "io_blind I \<Longrightarrow> keeps I (modem_load_image os img oi oo n)"
  unfolding modem_load_image_def load_image_files_def load_image_leave_def modem_clear_region_def
  by (rule keeps_intros io_blind_keeps io_blind_switch clear_loop_blind copy_loop_blind | assumption)+

lemma img_info_blind: "io_blind I \<Longrightarrow> keeps I (get_modem_img_info os img off)"
  unfolding get_modem_img_info_def by (rule keeps_intros io_blind_keeps | assumption)+

lemmas image_blind = load_image_blind img_info_blind

section \<open>Events of loading\<close>

context loader_events
begin

lemma ev_open_retry: "emits P (open_retry os p k)"
proof (induction os p k rule: open_retry.induct)
  case (1 os p k)
  show ?case
    by (subst open_retry.simps) (rule emits_intros ev_intros "1" | assumption)+
qed

lemma ev_clear_loop: "emits P (clear_loop os fd n)"
proof (induction os fd n rule: clear_loop.induct)
  case (1 os fd n)
  show ?case
    by (subst clear_loop.simps, simp only: Let_def) (rule emits_intros ev_intros "1" refl | assumption)+
qed

lemma ev_copy_loop: "emits P (copy_loop os fdin fdout b n)"
proof (induction os fdin fdout b n rule: copy_loop.induct)
  case (1 os fdin fdout b n)
  show ?case
    by (subst copy_loop.simps, simp only: Let_def) (rule emits_intros ev_intros "1" refl | assumption)+
qed

lemma ev_image:
  "emits P (modem_load_image os img oi oo n)" "emits P (get_modem_img_info os img w)"
  "emits P (modem_get_patiton_info os img)" "emits P (write_proc_file os p k str)"
  unfolding modem_load_image_def load_image_files_def load_image_leave_def modem_clear_region_def
    modem_get_patiton_info_def get_modem_img_info_def write_proc_file_def
  by (rule emits_intros ev_intros ev_clear_loop ev_copy_loop ev_open_retry)+

end

section \<open>What a successful copy has moved\<close>

lemma copy_loop_wp:
  "wp (copy_loop os fdin fdout b n) Q R s =
     (let k = min n b;
          d = map_option (take k) (os_read os (trace s) fdin k);
          s1 = s\<lparr>trace := trace s @ [Read fdin k d]\<rparr>
      in if 2 ^ 31 \<le> k then R (Fault ''modem_load_image: negative read count'') s
         else case d of None \<Rightarrow> Q (- 1) s1
         | Some buf \<Rightarrow>
             if buf = [] then Q (- 1) s1
             else (let w = max (- 1) (min (int (length buf)) (os_write os (trace s1) fdout buf));
                       s2 = s1\<lparr>trace := trace s1 @ [Write fdout buf w]\<rparr>
                   in if w \<le> 0 then Q (- 1) s2
                      else if 0 < n - length buf
                        then wp (copy_loop os fdin fdout b (n - length buf)) Q R s2
                      else Q 0 s2))"
  by (subst copy_loop.simps)
    (simp only: Let_def wp_rules syscall_defs fst_conv snd_conv option.case_distrib [of "\<lambda>f. f _"]
       if_distrib [of "\<lambda>f. f _"])

definition moved :: "int \<Rightarrow> int \<Rightarrow> nat \<Rightarrow> event list \<Rightarrow> bool" where
  "moved fdin fdout n es \<longleftrightarrow> list_all (moves_between fdin fdout) es \<and>
     offered_data es = read_data es \<and> length (read_data es) = n"

lemma moved_Cons:
  "moved fdin fdout (n - length buf) es \<Longrightarrow> length buf \<le> n \<Longrightarrow>
   moved fdin fdout n (Read fdin k (Some buf) # Write fdout buf w # es)"
  by (simp add: moved_def)

lemma copy_loop_moves:
  "wp (copy_loop os fdin fdout b n)
     (\<lambda>r t. r = 0 \<longrightarrow> (\<exists>es. trace t = trace s @ es \<and> moved fdin fdout n es)) (\<lambda>_ _. True) s"
proof (induction os fdin fdout b n arbitrary: s rule: copy_loop.induct)
  case (1 os fdin fdout b n)
  define k where "k = min n b"
  define d where "d = map_option (take k) (os_read os (trace s) fdin k)"
  show ?case
  proof (cases "2 ^ 31 \<le> k \<or> d = None \<or> d = Some []")
    case True
    then show ?thesis
      by (subst copy_loop_wp) (auto simp: Let_def k_def [symmetric] d_def [symmetric])
  next
    case False
    then obtain buf where buf: "d = Some buf" "buf \<noteq> []" by auto
    define s1 where "s1 = s\<lparr>trace := trace s @ [Read fdin k d]\<rparr>"
    define w where "w = max (- 1) (min (int (length buf)) (os_write os (trace s1) fdout buf))"
    define s2 where "s2 = s\<lparr>trace := trace s @ [Read fdin k d, Write fdout buf w]\<rparr>"
    have len: "length buf \<le> n"
      using buf by (auto simp: d_def k_def)
    have step: "wp (copy_loop os fdin fdout b n) Q R s =
        (if w \<le> 0 then Q (- 1) s2
         else if 0 < n - length buf then wp (copy_loop os fdin fdout b (n - length buf)) Q R s2
         else Q 0 s2)" for Q R
      using False buf
      by (subst copy_loop_wp)
        (simp add: Let_def k_def [symmetric] d_def [symmetric] w_def s1_def s2_def)
    show ?thesis
    proof (cases "w \<le> 0 \<or> \<not> 0 < n - length buf")
      case True
      have "moved fdin fdout (length buf) [Read fdin k (Some buf), Write fdout buf w]"
        by (simp add: moved_def)
      with True show ?thesis
        unfolding step using buf len by (auto simp: s2_def)
    next
      case more: False
      have "wp (copy_loop os fdin fdout b (n - length buf))
          (\<lambda>r t. r = 0 \<longrightarrow> (\<exists>es. trace t = trace s2 @ es \<and> moved fdin fdout (n - length buf) es))
          (\<lambda>_ _. True) s2"
        by (rule "1" [OF refl, of buf w]) (use False buf more in \<open>simp_all add: k_def\<close>)
      then have "wp (copy_loop os fdin fdout b (n - length buf))
          (\<lambda>r t. r = 0 \<longrightarrow> (\<exists>es. trace t = trace s @ es \<and> moved fdin fdout n es)) (\<lambda>_ _. True) s2"
        by (rule wp_conseq) (use buf len in \<open>auto simp: s2_def intro: moved_Cons\<close>)
      with more show ?thesis
        unfolding step by auto
    qed
  qed
qed

definition loaded :: "event list \<Rightarrow> image_load \<Rightarrow> int \<Rightarrow> int \<Rightarrow> nat \<Rightarrow> event list \<Rightarrow> bool" where
  "loaded tr img oi oo n tr' \<longleftrightarrow>
     (\<exists>pre fdin fdout es. 0 \<le> fdin \<and> 0 \<le> fdout \<and> moved fdin fdout n es \<and>
        prefix (tr @ pre @ [Open (path_r img) O_RDONLY fdin, Open (path_w img) O_WRONLY fdout,
                  Lseek fdin oi SEEK_SET oi, Lseek fdout oo SEEK_SET oo] @ es) tr')"

lemma loadedI:
  "0 \<le> fdin \<Longrightarrow> 0 \<le> fdout \<Longrightarrow> moved fdin fdout n es \<Longrightarrow>
   prefix (tr @ pre @ Open (path_r img) O_RDONLY fdin # Open (path_w img) O_WRONLY fdout #
     Lseek fdin oi SEEK_SET oi # Lseek fdout oo SEEK_SET oo # es) tr' \<Longrightarrow>
   loaded tr img oi oo n tr'"
  unfolding loaded_def by (intro exI conjI) auto

lemma load_image_leave_result:
  "wp (load_image_leave os fdin fdout res)
     (\<lambda>r t. r = res \<and> prefix (trace s) (trace t)) (\<lambda>_ _. True) s"
proof -
  have "wp (load_image_leave os fdin fdout res) (\<lambda>r _. r = res) (\<lambda>_ _. True) s"
    by (simp add: load_image_leave_def wp_rules wp_any)
  moreover have "wp (load_image_leave os fdin fdout res) (\<lambda>_ t. prefix (trace s) (trace t))
      (\<lambda>_ _. True) s"
    by (rule wp_grows [OF load_image_leave_grows]) auto
  ultimately show ?thesis
    by (rule wp_conj [THEN wp_conseq]) auto
qed

lemma load_image_copy:
  assumes "0 \<le> fdin" "0 \<le> fdout"
    and "trace s = tr @ pre @ [Open (path_r img) O_RDONLY fdin, Open (path_w img) O_WRONLY fdout,
                  Lseek fdin oi SEEK_SET oi, Lseek fdout oo SEEK_SET oo]"
  shows "wp (copy_loop os fdin fdout b n) (\<lambda>res. wp (load_image_leave os fdin fdout res)
    (\<lambda>r t. r = 0 \<longrightarrow> loaded tr img oi oo n (trace t)) (\<lambda>_ _. True)) (\<lambda>_ _. True) s"
proof (rule wp_conseq [OF copy_loop_moves])
  fix r :: int and u :: "'a ctl_world_scheme"
  assume moves: "r = 0 \<longrightarrow> (\<exists>es. trace u = trace s @ es \<and> moved fdin fdout n es)"
  show "wp (load_image_leave os fdin fdout r) (\<lambda>r t. r = 0 \<longrightarrow> loaded tr img oi oo n (trace t))
      (\<lambda>_ _. True) u"
    by (rule wp_conseq [OF load_image_leave_result])
      (use moves assms in \<open>auto intro: loadedI [of fdin fdout]\<close>)
qed simp

lemma load_image_files_loads:
  assumes "prefix tr (trace s)"
  shows "wp (load_image_files os img oi oo b n)
    (\<lambda>r t. r = 0 \<longrightarrow> loaded tr img oi oo n (trace t)) (\<lambda>_ _. True) s"
proof -
  from assms obtain pre where pre: "trace s = tr @ pre" by (auto simp: prefix_def)
  have leave: "wp (load_image_leave os fdin fdout (- 1))
      (\<lambda>r t. r = 0 \<longrightarrow> loaded tr img oi oo n (trace t)) (\<lambda>_ _. True) u" for fdin fdout u
    by (rule wp_conseq [OF load_image_leave_result]) auto
  show ?thesis
    unfolding load_image_files_def
    by (auto simp: wp_rules Let_def pre leave wp_any intro!: load_image_copy [where pre = pre])
qed

lemma load_image_loads:
  "wp (modem_load_image os img oi oo n)
    (\<lambda>r t. r = 0 \<longrightarrow> loaded (trace s) img oi oo (unat n) (trace t)) (\<lambda>_ _. True) s"
  unfolding modem_load_image_def wp_bind [of "If _ _ _"] wp_seq
  by (rule wp_grows_chain grows_intros clear_region_grows prefix_order.refl load_image_files_loads
      | assumption | simp)+

section \<open>SCI headers\<close>

lemma sci_scan_eq:
  "sci_scan hs mo ex =
     (let ms = filter is_modem_hdr (upto_last hs);
          (mo', ex') = (if ms = [] then (mo, ex) else exe_range (last ms))
      in (mo', ex', case find is_last_hdr hs of None \<Rightarrow> - 1 | Some h \<Rightarrow> hdr_offset h + hdr_length h))"
proof (induction hs arbitrary: mo ex)
  case Nil
  then show ?case by simp
next
  case (Cons h hs)
  show ?case
    by (cases "is_last_hdr h"; cases "is_modem_hdr h")
      (simp_all add: Cons.IH Let_def is_last_hdr_def [symmetric] is_modem_hdr_def [symmetric]
        exe_range_def MODEM_SHA1_SIZE_def split: prod.split)
qed

lemma header_at:
  "off = 12 * i \<Longrightarrow> off = length a \<Longrightarrow> sci_header (a @ put_header h @ b) i = h"
  using get_u32_put_u32 [of "off + 4" "a @ put_u32 (type_flags h)" "hdr_offset h"
      "put_u32 (hdr_length h) @ b"]
    get_u32_put_u32 [of "off + 8" "a @ put_u32 (type_flags h) @ put_u32 (hdr_offset h)" "hdr_length h" b]
    get_u32_put_u32 [of off a "type_flags h" "put_u32 (hdr_offset h) @ put_u32 (hdr_length h) @ b"]
  by (simp add: sci_header_def put_header_def)

lemma length_put_header [simp]: "length (put_header h) = 12"
  by (simp add: put_header_def)

lemma length_put_headers: "length (concat (map put_header hs)) = 12 * length hs"
  by (induction hs) simp_all

lemma sci_block_header:
  assumes "i < length hs"
  shows "sci_header (sci_block hs) (Suc i) = hs ! i"
proof -
  let ?z = "replicate (12 * (10 - length hs)) NUL"
  have "hs = take i hs @ hs ! i # drop (Suc i) hs"
    using assms by (rule id_take_nth_drop)
  then have "concat (map put_header hs) =
      concat (map put_header (take i hs)) @ put_header (hs ! i) @
      concat (map put_header (drop (Suc i) hs))"
    by (metis concat_append concat.simps(2) map_append list.simps(9))
  then have "sci_block hs =
      (MODEM_MAGIC @ replicate 8 NUL @ concat (map put_header (take i hs))) @ put_header (hs ! i) @
      (concat (map put_header (drop (Suc i) hs)) @ ?z)"
    by (simp add: sci_block_def)
  moreover have "12 * Suc i =
      length (MODEM_MAGIC @ replicate 8 NUL @ concat (map put_header (take i hs)))"
    using assms by (simp add: length_put_headers MODEM_MAGIC_def)
  ultimately show ?thesis
    using header_at [OF refl] by metis
qed

section \<open>Properties\<close>

text \<open>
  Loading an image touches only the descriptors it opened itself and closes each of
  them exactly once, whatever the operating system answers.
\<close>

theorem modem_load_image_descriptors: "fd_clean (modem_load_image os img offsetin offsetout n)"
  by (rule load_image_fd)




text \<open>
  A destination that accepts only part of what it is offered goes unnoticed: in an
  environment where each \<open>write\<close> takes a single byte, loading a four byte image reports
  success although the destination received one byte.
\<close>

theorem modem_load_image_short_write:
  "\<exists>t. modem_load_image (ok_os\<lparr>os_write := (\<lambda>tr fd d. 1)\<rparr>)
      (zero_image\<lparr>path_r := ''r'', path_w := ''w''\<rparr>) 0 0 4 ctl_start = Ret 0 t \<and>
     length (accepted_data (trace t)) = 1"
  by (simp add: modem_load_image_def load_image_files_def load_image_leave_def copy_loop.simps
      modem_ctrl_enable_busmonitor_def modem_ctrl_enable_dmc_mpu_def LOAD_BUF_SIZE_def
      GET_FLAG_def zero_image_def ctl_start_def ok_os_def syscall_defs io_simps Let_def)

text \<open>
  C35: The header scan of a packed modem image finds, among the headers up to the first one
  flagged as last, the last one of modem type, skipping its SHA1 digest if it has one; the
  image length is the end of the first header flagged as last.
\<close>

theorem sci_scan_spec:
  "sci_scan hs mo ex =
     (let ms = filter is_modem_hdr (upto_last hs);
          (mo', ex') = (if ms = [] then (mo, ex) else exe_range (last ms))
      in (mo', ex', case find is_last_hdr hs of None \<Rightarrow> - 1 | Some h \<Rightarrow> hdr_offset h + hdr_length h))"
  by (rule sci_scan_eq)

text \<open>Decoding the header block of a packed image gives back the headers it was built from.\<close>

theorem sci_headers_roundtrip: "map (sci_header (sci_block hs)) [1..<Suc (length hs)] = hs"
proof -
  have "map (sci_header (sci_block hs)) [1..<Suc (length hs)] =
      map (\<lambda>i. sci_header (sci_block hs) (Suc i)) [0..<length hs]"
    by (simp add: map_Suc_upt [symmetric] del: upt_Suc)
  also have "\<dots> = map (\<lambda>i. hs ! i) [0..<length hs]"
    by (simp add: sci_block_header)
  finally show ?thesis by (simp add: map_nth)
qed

text \<open>
  For a packed image without a modem header the executable size is never assigned: the
  caller goes on with whatever its uninitialised variable held.
\<close>

theorem sci_without_modem_uninitialised:
  "sci_info img (sci_block []) total0 exe0 =
     \<lparr>ii_offset = 0, ii_is_sci = True, ii_total_len = total0, ii_exe_size = exe0\<rparr>"
proof -
  have "sci_header (sci_block []) i = \<lparr>type_flags = 0, hdr_offset = 0, hdr_length = 0\<rparr>"
    if "1 \<le> i" for i
  proof -
    have "sci_block [] = (MODEM_MAGIC @ replicate 8 NUL) @ replicate 120 NUL"
      by (simp add: sci_block_def)
    then have "get_u32 (sci_block []) (12 * i + k) = 0" for k
      using that get_u32_drop [of "MODEM_MAGIC @ replicate 8 NUL" "replicate 120 NUL" "12 * (i - 1) + k"]
      by (simp add: MODEM_MAGIC_def get_u32_zeros diff_mult_distrib2 del: replicate.simps)
    from this [of 0] this [of 4] this [of 8] show ?thesis
      by (simp add: sci_header_def)
  qed
  then have "map (sci_header (sci_block [])) [1..<11] =
      replicate 10 \<lparr>type_flags = 0, hdr_offset = 0, hdr_length = 0\<rparr>"
    by (simp add: upt_rec numeral_eq_Suc)
  then show ?thesis
    by (simp add: sci_info_def sci_block_def MODEM_MAGIC_def SCI_TYPE_MODEM_BIN_def numeral_eq_Suc)
qed

end
