(* ===== verification/Secure_Boot.thy ===== *)
theory Secure_Boot
  imports Load_Image
begin

text \<open>
  \<open>secure_boot_load.c\<close> and \<open>modem_verify.c\<close>: the signed images of the older scheme
  (public key on the kernel command line, VLR block in the image) and the verification table
  handed to the trusted application by the newer ones. The layouts of \<open>sys_img_header\<close>,
  \<open>vlr_info_t\<close> and the AVB footer belong to headers outside the repository; they are the
  parameters collected in \<open>secure_params\<close>.
\<close>

section \<open>Parameters and state\<close>

record secure_params =
  sizeof_sys_img_header :: nat
  sih_is_packed :: "bytes \<Rightarrow> u32"
  sih_mFirmwareSize :: "bytes \<Rightarrow> u32"
  sih_mImgSize :: "bytes \<Rightarrow> u32"
  AVB_FOOTER_SIZE :: nat
  vlr_length :: "bytes \<Rightarrow> u32"

record sec_world = ctl_world +
  kbc_table :: kbc_load_table
  s_modem_puk :: bytes

definition sec_start :: sec_world where
  "sec_start = ctl_world.extend ctl_start \<lparr>kbc_table = zero_kbc, s_modem_puk = []\<rparr>"

text \<open>One concrete choice of the parameters, for evaluating the model.\<close>

definition sample_params :: secure_params where
  "sample_params = \<lparr>sizeof_sys_img_header = 512, sih_is_packed = (\<lambda>h. get_u32 h 0),
     sih_mFirmwareSize = (\<lambda>h. get_u32 h 4), sih_mImgSize = (\<lambda>h. get_u32 h 8), AVB_FOOTER_SIZE = 64,
     vlr_length = (\<lambda>v. get_u32 v 4)\<rparr>"

definition BOOT_INFO_SIZE :: nat where "BOOT_INFO_SIZE = 512"
definition VLR_INFO_SIZ :: nat where "VLR_INFO_SIZ = 512"
definition MIN_UNIT :: u32 where "MIN_UNIT = 512"
definition HEADER_NAME :: string where "HEADER_NAME = ''SPRD-SECUREFLAG''"
definition VLR_NAME :: u32 where "VLR_NAME = 0x3A524C56"
definition CODE_NAME :: u32 where "CODE_NAME = 0x45444F43"
definition CMDLINE_LENGTH :: nat where "CMDLINE_LENGTH = 2048"
definition CMD_PUKSTRING :: string where "CMD_PUKSTRING = ''pubk=''"
definition PUBKEY_LEN :: nat where "PUBKEY_LEN = 260"
definition MAX_CERT_SIZE :: nat where "MAX_CERT_SIZE = 4096"
definition AVB_CERT_SIZE :: nat where "AVB_CERT_SIZE = 8192"
definition GDSP_BANK :: string where "GDSP_BANK = ''gdsp''"
definition LDSP_BANK :: string where "LDSP_BANK = ''ldsp''"
definition CDSP_BANK :: string where "CDSP_BANK = ''cdsp''"

section \<open>The signed image header\<close>

text \<open>Reads inside a buffer; \<open>None\<close> is a read past its end.\<close>

definition peek_u32 :: "bytes \<Rightarrow> nat \<Rightarrow> u32 option" where
  "peek_u32 buf off = (if off + 4 \<le> length buf then Some (get_u32 buf off) else None)"

definition secure_header_parser :: "bytes \<Rightarrow> bool" where
  "secure_header_parser header_addr = (cstr header_addr = HEADER_NAME)"

text \<open>
  The tag loop of \<open>get_code_addr\<close> and \<open>get_vlr_addr\<close>: the byte offset of the first tag with
  the given name. The outer \<open>None\<close> is a read past the buffer, which the unchecked
  \<open>tags_number\<close> allows.
\<close>

function find_tag :: "bytes \<Rightarrow> u32 \<Rightarrow> nat \<Rightarrow> nat \<Rightarrow> nat option option" where
  "find_tag data name tags_number i =
     (if i < tags_number then
        (case peek_u32 data (32 + 16 * i) of
           None \<Rightarrow> None
         | Some tag_name \<Rightarrow>
             if tag_name = name then
               (case peek_u32 data (32 + 16 * i + 4) of
                  None \<Rightarrow> None
                | Some tag_offset \<Rightarrow> Some (Some (unat (tag_offset * MIN_UNIT))))
             else find_tag data name tags_number (Suc i))
      else Some None)"
  by pat_completeness auto
termination
  by (relation "measure (\<lambda>(data, name, tags_number, i). tags_number - i)") auto

declare find_tag.simps [simp del]

definition find_named_tag :: "u32 \<Rightarrow> bytes \<Rightarrow> nat option option" where
  "find_named_tag name data =
     (case peek_u32 data 20 of
        None \<Rightarrow> None
      | Some tags_number \<Rightarrow> find_tag data name (unat tags_number) 0)"

definition get_code_addr :: "bytes \<Rightarrow> nat option option" where
  "get_code_addr = find_named_tag CODE_NAME"

definition get_vlr_addr :: "bytes \<Rightarrow> nat option option" where
  "get_vlr_addr = find_named_tag VLR_NAME"

definition secure_verify :: "secure_params \<Rightarrow> bytes \<Rightarrow> bytes \<Rightarrow> ('z sec_world_scheme, unit) io" where
  "secure_verify sp data puk =
     (if NUL \<notin> set data \<and> prefix data HEADER_NAME then stop (Fault ''secure_header_parser: strcmp past the image'')
      else if \<not> secure_header_parser data then return ()
      else (case get_vlr_addr data of
          None \<Rightarrow> stop (Fault ''get_vlr_addr: tag past the image'')
        | Some vlr_addr \<Rightarrow>
          (case get_code_addr data of
             None \<Rightarrow> stop (Fault ''get_code_addr: tag past the image'')
           | Some code_addr \<Rightarrow>
             (case vlr_addr of
                None \<Rightarrow> stop (Fault ''secure_verify: NULL vlr'')
              | Some v \<Rightarrow>
                if length data \<le> v then stop (Fault ''secure_verify: vlr past the image'')
                else secure_check (map_option (\<lambda>c. drop c data) code_addr)
                       (vlr_length sp (drop v data)) (drop v data) puk))))"

section \<open>The public key\<close>

definition hex_nibble :: "char \<Rightarrow> nat option" where
  "hex_nibble ch =
     (let n = byte ch in
      if 48 \<le> n \<and> n \<le> 57 then Some (n - 48)
      else if 97 \<le> n \<and> n \<le> 102 then Some (n - 97 + 10)
      else if 65 \<le> n \<and> n \<le> 70 then Some (n - 65 + 10)
      else None)"

text \<open>
  The bytes \<open>HexToBin\<close> has written when it stops, and whether it reached the end. A bad
  low digit leaves the high half of its byte behind; an odd last digit is paired with the
  string's terminator.
\<close>

fun hex_bytes :: "bytes \<Rightarrow> bytes \<times> bool" where
  "hex_bytes [] = ([], True)"
| "hex_bytes [a] =
     (case hex_nibble a of None \<Rightarrow> ([], False) | Some h \<Rightarrow> ([char_of (16 * h)], False))"
| "hex_bytes (a # b # cs) =
     (case hex_nibble a of
        None \<Rightarrow> ([], False)
      | Some h \<Rightarrow>
          (case hex_nibble b of
             None \<Rightarrow> ([char_of (16 * h)], False)
           | Some l \<Rightarrow> (let (r, ok) = hex_bytes cs in (char_of (16 * h + l) # r, ok))))"

definition HexToBin :: "bytes \<Rightarrow> nat \<Rightarrow> bytes \<Rightarrow> int \<times> bytes" where
  "HexToBin hex_ptr len bin =
     (let (w, ok) = hex_bytes (take len hex_ptr)
      in (if ok then 0 else - 1, w @ drop (length w) bin))"

text \<open>
  The command line buffer is filled completely, so it may lack a terminator; the 520 digits
  are copied without a look at what is left of it.
\<close>

definition modem_parse_puk_cmdline :: "os \<Rightarrow> bytes \<Rightarrow> ('z sec_world_scheme, bool \<times> bytes) io" where
  "modem_parse_puk_cmdline os puk =
     bind (sys_open os ''/proc/cmdline'' O_RDONLY) (\<lambda>fd.
     if fd < 0 then return (False, puk)
     else bind (sys_read os fd CMDLINE_LENGTH) (\<lambda>d. case d of
       None \<Rightarrow> seq (sys_close fd) (return (False, puk))
     | Some r \<Rightarrow>
       let cmdline = r @ replicate (CMDLINE_LENGTH - length r) NUL in
       if NUL \<notin> set cmdline then stop (Fault ''modem_parse_puk_cmdline: unterminated command line'')
       else (case strstr (cstr cmdline) CMD_PUKSTRING of
           None \<Rightarrow> return (False, puk)
         | Some p_str \<Rightarrow>
           let off = length (cstr cmdline) - length p_str + length CMD_PUKSTRING in
           if CMDLINE_LENGTH < off + PUBKEY_LEN * 2
           then stop (Fault ''modem_parse_puk_cmdline: key past the command line'')
           else return (True, snd (HexToBin (bslice off (PUBKEY_LEN * 2) cmdline) (PUBKEY_LEN * 2) puk)))))"

definition modem_verify_image ::
  "os \<Rightarrow> secure_params \<Rightarrow> string \<Rightarrow> int \<Rightarrow> int \<Rightarrow> ('z sec_world_scheme, int) io" where
  "modem_verify_image os sp fin offsetin imagesize =
     bind (sys_open os fin O_RDONLY) (\<lambda>fdin.
     if fdin < 0 then return (- 1)
     else bind (sys_lseek os fdin offsetin SEEK_SET) (\<lambda>pos.
     if pos \<noteq> offsetin then seq (sys_close fdin) (return (- 1))
     else bind (sys_malloc os imagesize) (\<lambda>ok.
     if \<not> ok \<or> imagesize < 0 then seq (sys_close fdin) (return (- 1))
     else bind (sys_read os fdin (nat imagesize)) (\<lambda>d.
     if d = None \<or> d = Some [] then seq (sys_close fdin) (return (- 1))
     else bind (gets s_modem_puk) (\<lambda>puk.
     seq (secure_verify sp (the d @ replicate (nat imagesize - length (the d)) NUL) puk)
     (seq (sys_close fdin)
     (return 0)))))))"

section \<open>The verification table\<close>

text \<open>
  The image size from the system image header. \<open>read_len\<close> is unsigned: a failed \<open>read\<close>
  goes on with the zeroed header.
\<close>

definition get_verify_img_info ::
  "os \<Rightarrow> secure_params \<Rightarrow> string \<Rightarrow> u32 \<Rightarrow> ('z sec_world_scheme, u32 \<times> u32) io" where
  "get_verify_img_info os sp fin is_packed =
     seq (modem_ctrl_enable_busmonitor os False)
     (seq (modem_ctrl_enable_dmc_mpu os False)
     (bind (sys_open os fin O_RDONLY) (\<lambda>fd.
     if fd < 0 then
       seq (modem_ctrl_enable_busmonitor os True)
       (seq (modem_ctrl_enable_dmc_mpu os True)
       (return (0, is_packed)))
     else bind (sys_lseek os fd 0 SEEK_SET) (\<lambda>pos.
     bind (if pos \<noteq> 0 then return (0, is_packed)
           else bind (sys_read os fd (sizeof_sys_img_header sp)) (\<lambda>d.
             let r = (case d of None \<Rightarrow> [] | Some r \<Rightarrow> r);
                 header = r @ replicate (sizeof_sys_img_header sp - length r) NUL
             in return (if d = Some [] then (0, is_packed)
                else if sih_is_packed sp header = 1
                then (sih_mFirmwareSize sp header, sih_is_packed sp header)
                else (sih_mImgSize sp header, is_packed)))) (\<lambda>res.
     seq (modem_ctrl_enable_busmonitor os True)
     (seq (modem_ctrl_enable_dmc_mpu os True)
     (seq (sys_close fd)
     (return res))))))))"

datatype kbc_slot = Slot_pm_sys | Slot_modem | Slot_tgdsp | Slot_ldsp | Slot_cdsp

text \<open>The \<open>strstr\<close> chain shared by \<open>fill_verify_table\<close> and \<open>get_image_footer_byname\<close>.\<close>

definition kbc_slot_of :: "build_config \<Rightarrow> string \<Rightarrow> kbc_slot option" where
  "kbc_slot_of cfg name =
     (if has_substr name ''pm_sys'' \<or> has_substr name ''dev/pmsys'' then Some Slot_pm_sys
      else if \<not> NOT_VERIFY_MODEM cfg \<and> has_substr name MODEM_BANK then Some Slot_modem
      else if \<not> NOT_VERIFY_MODEM cfg \<and> has_substr name GDSP_BANK then Some Slot_tgdsp
      else if \<not> NOT_VERIFY_MODEM cfg \<and> has_substr name LDSP_BANK then Some Slot_ldsp
      else if SHARKL5_CDSP cfg \<and> has_substr name CDSP_BANK then Some Slot_cdsp
      else None)"

fun kbc_get :: "kbc_slot \<Rightarrow> kbc_load_table \<Rightarrow> kbc_image" where
  "kbc_get Slot_pm_sys t = kbc_pm_sys t"
| "kbc_get Slot_modem t = kbc_modem t"
| "kbc_get Slot_tgdsp t = kbc_tgdsp t"
| "kbc_get Slot_ldsp t = kbc_ldsp t"
| "kbc_get Slot_cdsp t = kbc_cdsp t"

fun kbc_upd :: "kbc_slot \<Rightarrow> (kbc_image \<Rightarrow> kbc_image) \<Rightarrow> kbc_load_table \<Rightarrow> kbc_load_table" where
  "kbc_upd Slot_pm_sys f t = t\<lparr>kbc_pm_sys := f (kbc_pm_sys t)\<rparr>"
| "kbc_upd Slot_modem f t = t\<lparr>kbc_modem := f (kbc_modem t)\<rparr>"
| "kbc_upd Slot_tgdsp f t = t\<lparr>kbc_tgdsp := f (kbc_tgdsp t)\<rparr>"
| "kbc_upd Slot_ldsp f t = t\<lparr>kbc_ldsp := f (kbc_ldsp t)\<rparr>"
| "kbc_upd Slot_cdsp f t = t\<lparr>kbc_cdsp := f (kbc_cdsp t)\<rparr>"

definition fill_verify_table ::
  "build_config \<Rightarrow> u32 \<Rightarrow> u64 \<Rightarrow> string \<Rightarrow> u32 \<Rightarrow> kbc_load_table \<Rightarrow> kbc_load_table" where
  "fill_verify_table cfg sz addr name maplen table =
     (case kbc_slot_of cfg name of
        None \<Rightarrow> table
      | Some slot \<Rightarrow> kbc_upd slot
          (\<lambda>i. i\<lparr>kbc_img_len := sz, kbc_img_addr := addr, kbc_map_len := maplen\<rparr>) table)"

definition get_verify_img_footer ::
  "os \<Rightarrow> secure_params \<Rightarrow> string \<Rightarrow> bytes \<Rightarrow> ('z sec_world_scheme, bytes) io" where
  "get_verify_img_footer os sp fin footer =
     seq (modem_ctrl_enable_busmonitor os False)
     (seq (modem_ctrl_enable_dmc_mpu os False)
     (bind (sys_open os fin O_RDONLY) (\<lambda>fd.
     if fd < 0 then
       seq (modem_ctrl_enable_busmonitor os True)
       (seq (modem_ctrl_enable_dmc_mpu os True)
       (return footer))
     else bind (sys_lseek os fd 0 SEEK_END) (\<lambda>end_pos.
     let sz = sint (word_of_int end_pos :: u32); offset = sz - int (AVB_FOOTER_SIZE sp) in
     bind (if sz < 0 then return footer
           else bind (sys_lseek os fd offset SEEK_SET) (\<lambda>pos.
             if pos = - 1 \<or> pos \<noteq> offset then return footer
             else bind (sys_read os fd (AVB_FOOTER_SIZE sp)) (\<lambda>d.
               return (case d of None \<Rightarrow> footer | Some r \<Rightarrow> r @ drop (length r) footer)))) (\<lambda>res.
     seq (modem_ctrl_enable_busmonitor os True)
     (seq (modem_ctrl_enable_dmc_mpu os True)
     (seq (sys_close fd)
     (return res))))))))"

definition parse_file_name :: "string \<Rightarrow> string option" where
  "parse_file_name path_name = map_option tl (strrchr path_name (CHR ''/''))"

definition get_image_footer_byname ::
  "os \<Rightarrow> build_config \<Rightarrow> secure_params \<Rightarrow> string \<Rightarrow> string \<Rightarrow> ('z sec_world_scheme, unit) io" where
  "get_image_footer_byname os cfg sp name fin =
     (case kbc_slot_of cfg name of
        None \<Rightarrow> return ()
      | Some slot \<Rightarrow>
        (case parse_file_name fin of
           None \<Rightarrow> return ()
         | Some part \<Rightarrow>
           seq (modify (\<lambda>s. s\<lparr>kbc_table := kbc_upd slot (\<lambda>i. i\<lparr>kbc_partition := part\<rparr>) (kbc_table s)\<rparr>))
           (bind (gets (\<lambda>s. kbc_footer (kbc_get slot (kbc_table s)))) (\<lambda>footer.
           bind (get_verify_img_footer os sp fin footer) (\<lambda>footer'.
           modify (\<lambda>s. s\<lparr>kbc_table := kbc_upd slot (\<lambda>i. i\<lparr>kbc_footer := footer'\<rparr>) (kbc_table s)\<rparr>))))))"

definition modem_check_cmdline :: "os \<Rightarrow> string \<Rightarrow> ('z sec_world_scheme, bool) io" where
  "modem_check_cmdline os value =
     bind (sys_open os ''/proc/cmdline'' O_RDONLY) (\<lambda>fd.
     if fd < 0 then return False
     else bind (sys_read os fd CPCMDLINE_SIZE) (\<lambda>d. case d of
       None \<Rightarrow> seq (sys_close fd) (return False)
     | Some r \<Rightarrow>
       let cmdline = r @ replicate (CPCMDLINE_SIZE - length r) NUL in
       if NUL \<notin> set cmdline then stop (Fault ''modem_check_cmdline: unterminated command line'')
       else seq (sys_close fd) (return (has_substr (cstr cmdline) value))))"

section \<open>Interface to the loader\<close>

definition secure_boot_init :: "os \<Rightarrow> build_config \<Rightarrow> ('z sec_world_scheme, unit) io" where
  "secure_boot_init os cfg =
     seq (do_if (SECURE_BOOT_ENABLE cfg)
       (bind (modem_parse_puk_cmdline os (replicate PUBKEY_LEN NUL)) (\<lambda>r.
        modify (\<lambda>s. s\<lparr>s_modem_puk := snd r\<rparr>))))
     (do_if (kbc_secure cfg) (modify (\<lambda>s. s\<lparr>kbc_table := zero_kbc\<rparr>)))"

definition secure_offset_of :: "build_config \<Rightarrow> secure_params \<Rightarrow> image_load \<Rightarrow> u32" where
  "secure_offset_of cfg sp img =
     (if GET_FLAG (img_flag img) SECURE_FLAG then
        (if SECURE_BOOT_ENABLE cfg then of_nat (BOOT_INFO_SIZE + VLR_INFO_SIZ)
         else if CONFIG_SPRD_SECBOOT cfg then of_nat (sizeof_sys_img_header sp)
         else 0)
      else 0)"

definition secure_boot_get_patiton_info ::
  "os \<Rightarrow> build_config \<Rightarrow> secure_params \<Rightarrow> image_load \<Rightarrow> ('z ctl_world_scheme, u32 \<times> u64) io" where
  "secure_boot_get_patiton_info os cfg sp img =
     (let secure_offset = secure_offset_of cfg sp img in
      bind (get_modem_img_info os img secure_offset) (\<lambda>i.
      return (ii_offset i + secure_offset,
        ii_exe_size i +
          (if has_substr (path_r img) MODEM_BANK \<and> GET_FLAG (img_flag img) SECURE_FLAG
           then (if CONFIG_SPRD_SECBOOT cfg then of_nat MAX_CERT_SIZE
                 else if CONFIG_VBOOT_V2 cfg then of_nat AVB_CERT_SIZE
                 else 0)
           else 0))))"

definition secure_boot_load_img ::
  "os \<Rightarrow> build_config \<Rightarrow> secure_params \<Rightarrow> image_load \<Rightarrow> ('z sec_world_scheme, int) io" where
  "secure_boot_load_img os cfg sp img =
     bind (secure_boot_get_patiton_info os cfg sp img) (\<lambda>(load_offset, load_size).
     seq (if SECURE_BOOT_ENABLE cfg then
            seq (modem_verify_image os sp (path_r img) 0 (sint (ucast load_size :: u32))) (return ())
          else if CONFIG_SPRD_SECBOOT cfg then
            bind (gets (\<lambda>s. kbc_is_packed (kbc_table s))) (\<lambda>pk.
            bind (get_verify_img_info os sp (path_r img) pk) (\<lambda>(mImgsize, is_packed).
            seq (modify (\<lambda>s. s\<lparr>kbc_table := (kbc_table s)\<lparr>kbc_is_packed := is_packed\<rparr>\<rparr>))
            (do_if (mImgsize \<noteq> 0) (modify (\<lambda>s. s\<lparr>kbc_table :=
               fill_verify_table cfg mImgsize (img_addr img) (path_w img) (img_size img) (kbc_table s)\<rparr>)))))
          else if CONFIG_VBOOT_V2 cfg then
            seq (get_image_footer_byname os cfg sp (path_w img) (path_r img))
            (seq (modify (\<lambda>s. s\<lparr>kbc_table :=
               fill_verify_table cfg (img_size img) (img_addr img) (path_w img) (img_size img) (kbc_table s)\<rparr>))
            (do_if (0 < load_offset)
               (modify (\<lambda>s. s\<lparr>kbc_table := (kbc_table s)\<lparr>kbc_packed_offset := load_offset\<rparr>\<rparr>))))
          else return ())
     (modem_load_image os img (sint load_offset) 0 (ucast load_size)))"

definition secure_boot_verify_all :: "os \<Rightarrow> build_config \<Rightarrow> ('z sec_world_scheme, unit) io" where
  "secure_boot_verify_all os cfg =
     do_if (kbc_secure cfg)
       (seq (modem_check_cmdline os ''calibration'')
       (bind (gets kbc_table) (\<lambda>table.
       bind (kernel_bootcp_verify_all os table) (\<lambda>ret.
       if ret < 0 then stop (Forever ''secure_boot_verify_all: verify failed'')
       else modify (\<lambda>s. s\<lparr>kbc_table := zero_kbc\<rparr>)))))"

definition secure_boot_set_flag :: "u32 \<Rightarrow> ('z sec_world_scheme, unit) io" where
  "secure_boot_set_flag load_type = modify (\<lambda>s. s\<lparr>kbc_table := (kbc_table s)\<lparr>kbc_flag := load_type\<rparr>\<rparr>)"

definition secure_boot_unlock_ddr :: "os \<Rightarrow> ('z sec_world_scheme, unit) io" where
  "secure_boot_unlock_ddr os =
     bind (gets kbc_table) (\<lambda>table.
     bind (kernel_bootcp_unlock_ddr os table) (\<lambda>ret.
     if ret < 0 then stop (Forever ''secure_boot_unlock_ddr: unlock_ddr failed'')
     else return ()))"

section \<open>Lemmas\<close>

lemma kbc_get_upd: "kbc_get a (kbc_upd b f t) = (if a = b then f (kbc_get a t) else kbc_get a t)"
  by (cases a; cases b) simp_all

lemma kbc_upd_rest:
  "kbc_flag (kbc_upd a f t) = kbc_flag t" "kbc_is_packed (kbc_upd a f t) = kbc_is_packed t"
  "kbc_packed_offset (kbc_upd a f t) = kbc_packed_offset t"
  by (cases a; simp)+

text \<open>Tags as a list: the reference reading of the tag table.\<close>

definition tag_names :: "bytes \<Rightarrow> nat \<Rightarrow> u32 list" where
  "tag_names data n = map (\<lambda>i. get_u32 data (32 + 16 * i)) [0..<n]"

lemma find_tag_first:
  assumes "32 + 16 * n \<le> length data" "i \<le> n"
  shows "find_tag data name n i =
     Some (map_option (\<lambda>j. unat (get_u32 data (36 + 16 * j) * MIN_UNIT))
       (find (\<lambda>j. get_u32 data (32 + 16 * j) = name) [i..<n]))"
  using assms(2)
proof (induction "n - i" arbitrary: i)
  case 0
  then show ?case by (subst find_tag.simps) simp
next
  case (Suc k)
  then have i: "i < n" by simp
  have peek: "peek_u32 data (32 + 16 * i) = Some (get_u32 data (32 + 16 * i))"
    "peek_u32 data (32 + 16 * i + 4) = Some (get_u32 data (36 + 16 * i))"
    using assms(1) i by (simp_all add: peek_u32_def)
  have "find_tag data name n (Suc i) =
     Some (map_option (\<lambda>j. unat (get_u32 data (36 + 16 * j) * MIN_UNIT))
       (find (\<lambda>j. get_u32 data (32 + 16 * j) = name) [Suc i..<n]))"
    using Suc by (intro Suc(1)) simp_all
  then show ?case
    using i peek by (subst find_tag.simps) (simp add: upt_conv_Cons)
qed

lemma hex_bytes_pair:
  "hex_nibble a = Some h \<Longrightarrow> hex_nibble b = Some l \<Longrightarrow>
   hex_bytes (a # b # cs) = (char_of (16 * h + l) # fst (hex_bytes cs), snd (hex_bytes cs))"
  by (simp add: case_prod_beta)

definition hex_digit :: "nat \<Rightarrow> char" where
  "hex_digit n = char_of (if n < 10 then 48 + n else 87 + n)"

definition hex_string :: "bytes \<Rightarrow> string" where
  "hex_string bs = concat (map (\<lambda>c. [hex_digit (byte c div 16), hex_digit (byte c mod 16)]) bs)"

lemma hex_nibble_digit: "n < 16 \<Longrightarrow> hex_nibble (hex_digit n) = Some n"
  by (auto simp: hex_nibble_def hex_digit_def byte_def Let_def)

lemma hex_bytes_string: "hex_bytes (hex_string bs) = (bs, True)"
proof (induction bs)
  case Nil
  then show ?case by (simp add: hex_string_def)
next
  case (Cons c cs)
  have "byte c div 16 < 16" "byte c mod 16 < 16"
    using byte_bound [of c] by auto
  then have "hex_bytes (hex_string (c # cs)) =
      (char_of (16 * (byte c div 16) + byte c mod 16) # fst (hex_bytes (hex_string cs)),
       snd (hex_bytes (hex_string cs)))"
    using hex_bytes_pair [OF hex_nibble_digit hex_nibble_digit] by (simp add: hex_string_def)
  then show ?case
    by (simp add: Cons.IH) (simp add: byte_def)
qed

lemma length_hex_string: "length (hex_string bs) = 2 * length bs"
  by (induction bs) (simp_all add: hex_string_def)

lemma verify_image_fd: "fd_clean (modem_verify_image os sp p off n)"
  unfolding modem_verify_image_def secure_verify_def
  by (rule fd_cleanI) (rule track_intros fd_intros | simp)+

lemma verify_info_fd: "fd_clean (get_verify_img_info os sp p w)"
  unfolding get_verify_img_info_def Let_def
  by (rule fd_cleanI) (rule track_intros ctl_fd [THEN fd_cleanD] fd_intros | simp)+

lemma verify_footer_fd: "fd_clean (get_verify_img_footer os sp p f)"
  unfolding get_verify_img_footer_def Let_def
  by (rule fd_cleanI) (rule track_intros ctl_fd [THEN fd_cleanD] fd_intros | simp)+

lemma footer_byname_fd: "fd_clean (get_image_footer_byname os cfg sp p q)"
  unfolding get_image_footer_byname_def
  by (rule fd_cleanI) (rule track_intros verify_footer_fd [THEN fd_cleanD] | simp)+

lemma check_cmdline_fd: "fd_clean (modem_check_cmdline os v)"
  unfolding modem_check_cmdline_def Let_def
  by (rule fd_cleanI) (rule track_intros fd_intros | simp)+

lemma secure_patiton_fd: "fd_clean (secure_boot_get_patiton_info os cfg sp img)"
  unfolding secure_boot_get_patiton_info_def Let_def
  by (rule fd_cleanI) (rule track_intros image_fd [THEN fd_cleanD] | simp)+

lemma secure_load_img_fd: "fd_clean (secure_boot_load_img os cfg sp img)"
  unfolding secure_boot_load_img_def case_prod_beta
  by (rule fd_cleanI)
    (rule track_intros secure_patiton_fd [THEN fd_cleanD] verify_image_fd [THEN fd_cleanD]
       verify_info_fd [THEN fd_cleanD] footer_byname_fd [THEN fd_cleanD] image_fd [THEN fd_cleanD] | simp)+

lemma verify_all_fd: "fd_clean (secure_boot_verify_all os cfg)"
  unfolding secure_boot_verify_all_def
  by (rule fd_cleanI) (rule track_intros check_cmdline_fd [THEN fd_cleanD] fd_intros | simp)+

lemma unlock_ddr_fd: "fd_clean (secure_boot_unlock_ddr os)"
  unfolding secure_boot_unlock_ddr_def
  by (rule fd_cleanI) (rule track_intros fd_intros | simp)+

lemma set_flag_fd: "fd_clean (secure_boot_set_flag w)"
  unfolding secure_boot_set_flag_def by (rule fd_cleanI) (rule track_intros | simp)+

lemmas secure_fd = secure_patiton_fd secure_load_img_fd verify_all_fd unlock_ddr_fd set_flag_fd

lemma secure_patiton_blind: "io_blind I \<Longrightarrow> keeps I (secure_boot_get_patiton_info os cfg sp img)"
  unfolding secure_boot_get_patiton_info_def Let_def
  by (rule keeps_intros image_blind | assumption)+

lemma verify_footer_blind: "io_blind I \<Longrightarrow> keeps I (get_verify_img_footer os sp p f)"
  unfolding get_verify_img_footer_def Let_def
  by (rule keeps_intros io_blind_keeps io_blind_switch | assumption)+

text \<open>What an image's slot holds once it has been entered into the table.\<close>

definition kbc_entered :: "kbc_slot \<Rightarrow> image_load \<Rightarrow> kbc_load_table \<Rightarrow> kbc_load_table \<Rightarrow> bool" where
  "kbc_entered slot img t0 t \<longleftrightarrow>
     kbc_img_addr (kbc_get slot t) = img_addr img \<and> kbc_img_len (kbc_get slot t) = img_size img \<and>
     kbc_map_len (kbc_get slot t) = img_size img \<and>
     (\<forall>other. other \<noteq> slot \<longrightarrow> kbc_get other t = kbc_get other t0)"

lemma footer_byname_others:
  assumes "kbc_slot_of cfg name = Some slot"
  shows "keeps (\<lambda>s. \<forall>other. other \<noteq> slot \<longrightarrow> kbc_get other (kbc_table s) = kbc_get other t0)
     (get_image_footer_byname os cfg sp name fin)"
  using assms unfolding get_image_footer_byname_def
  by (auto simp: kbc_get_upd io_blind_def intro!: keeps_intros keeps_modify verify_footer_blind)

lemma fill_enters:
  "kbc_slot_of cfg (path_w img) = Some slot \<Longrightarrow>
   (\<forall>other. other \<noteq> slot \<longrightarrow> kbc_get other t = kbc_get other t0) \<Longrightarrow>
   kbc_entered slot img t0
     (fill_verify_table cfg (img_size img) (img_addr img) (path_w img) (img_size img) t)"
  by (simp add: kbc_entered_def fill_verify_table_def kbc_get_upd)

lemma kbc_get_packed [simp]: "kbc_get slot (t\<lparr>kbc_packed_offset := w\<rparr>) = kbc_get slot t"
  by (cases slot) simp_all

lemma kbc_entered_packed [simp]:
  "kbc_entered slot img t0 (t\<lparr>kbc_packed_offset := w\<rparr>) = kbc_entered slot img t0 t"
  by (simp add: kbc_entered_def)

lemma vboot_enters:
  assumes "\<not> SECURE_BOOT_ENABLE cfg" "\<not> CONFIG_SPRD_SECBOOT cfg" "CONFIG_VBOOT_V2 cfg"
    and slot: "kbc_slot_of cfg (path_w img) = Some slot"
  shows "wp (secure_boot_load_img os cfg sp img)
     (\<lambda>_ t. kbc_entered slot img (kbc_table s) (kbc_table t)) (\<lambda>_ _. True) s"
proof -
  let ?others = "\<lambda>u. \<forall>other. other \<noteq> slot \<longrightarrow> kbc_get other (kbc_table u) = kbc_get other (kbc_table s)"
  let ?entered = "\<lambda>u. kbc_entered slot img (kbc_table s) (kbc_table u)"
  have load: "wp (modem_load_image os img a 0 b) (\<lambda>_ t. ?entered t) (\<lambda>_ _. True) u"
    if "?entered u" for a b u
    by (rule keeps_wp [OF load_image_blind [where I = ?entered]]) (use that in \<open>auto simp: io_blind_def\<close>)
  have footer: "wp (get_image_footer_byname os cfg sp (path_w img) (path_r img)) (\<lambda>_. wp
      (seq (modify (\<lambda>s. s\<lparr>kbc_table := fill_verify_table cfg (img_size img) (img_addr img) (path_w img)
             (img_size img) (kbc_table s)\<rparr>))
       (do_if (0 < off) (modify (\<lambda>s. s\<lparr>kbc_table := (kbc_table s)\<lparr>kbc_packed_offset := off\<rparr>\<rparr>))))
       (\<lambda>_. wp (modem_load_image os img (sint off) 0 n) (\<lambda>_. ?entered) (\<lambda>_ _. True)) (\<lambda>_ _. True))
      (\<lambda>_ _. True) u"
    if "?others u" for off n u
    by (rule keeps_wp [OF footer_byname_others [OF slot]])
      (use that fill_enters [OF slot, of _ "kbc_table s"] in
        \<open>auto simp: wp_seq wp_modify wp_do_if intro!: load\<close>)
  show ?thesis
    unfolding secure_boot_load_img_def wp_bind wp_seq case_prod_beta
    using assms(1-3)
    by (simp only: if_False if_True wp_seq)
      (rule keeps_wp [OF secure_patiton_blind [where I = "\<lambda>u. kbc_table u = kbc_table s"]],
       auto simp: io_blind_def intro!: footer [unfolded wp_seq])
qed

section \<open>Properties\<close>

text \<open>
  C8: The verification step is a gate. It hands the current table to the trusted
  application; it returns only after a verdict that is not negative, with the table cleared;
  a negative verdict ends in the endless loop; and a crash can only come before the
  verdict was asked for.
\<close>

theorem secure_boot_verify_all_gate:
  assumes "kbc_secure cfg"
  shows "case secure_boot_verify_all os cfg s of
      Ret _ t \<Rightarrow> kbc_table t = zero_kbc \<and> (\<exists>tr r. trace t = tr @ [Kbc_Verify (kbc_table s) r] \<and> 0 \<le> r)
    | Stop (Forever _) t \<Rightarrow> \<exists>tr r. trace t = tr @ [Kbc_Verify (kbc_table s) r] \<and> r < 0
    | Stop (Fault _) t \<Rightarrow> \<forall>r. Kbc_Verify (kbc_table s) r \<notin> set (drop (length (trace s)) (trace t))"
  using assms
  by (simp add: secure_boot_verify_all_def modem_check_cmdline_def syscall_defs io_simps Let_def
      split: option.split)

theorem secure_boot_verify_all_gate_witness:
  "case secure_boot_verify_all ok_os (base_config\<lparr>CONFIG_VBOOT_V2 := True\<rparr>) sec_start of
     Ret _ t \<Rightarrow> kbc_table t = zero_kbc \<and> (\<exists>tr r. trace t = tr @ [Kbc_Verify zero_kbc r] \<and> 0 \<le> r)
   | _ \<Rightarrow> False"
proof -
  let ?cfg = "base_config\<lparr>CONFIG_VBOOT_V2 := True\<rparr>"
  have "\<exists>t. secure_boot_verify_all ok_os ?cfg sec_start = Ret () t"
    by (simp add: secure_boot_verify_all_def modem_check_cmdline_def syscall_defs io_simps Let_def
        kbc_secure_def ok_os_def CPCMDLINE_SIZE_def)
  then show ?thesis
    using secure_boot_verify_all_gate [of ?cfg sec_start ok_os]
    by (auto simp: kbc_secure_def sec_start_def sec_world.defs ctl_world.defs)
qed

text \<open>
  C26: Decoding the hexadecimal text of any byte string succeeds and gives back exactly that
  byte string, leaving the rest of the destination alone.
\<close>

theorem HexToBin_roundtrip:
  "HexToBin (hex_string bs) (2 * length bs) bin = (0, bs @ drop (length bs) bin)"
  by (simp add: HexToBin_def hex_bytes_string length_hex_string [symmetric])



text \<open>
  If the table of tags lies inside the image, the address search finds the first tag
  with the wanted name and yields its offset in units of 512 bytes, or nothing if there is
  no such tag; it never reads outside the image.
\<close>

theorem find_named_tag_first:
  assumes "32 + 16 * unat (get_u32 data 20) \<le> length data"
  shows "find_named_tag name data =
     Some (map_option (\<lambda>j. unat (get_u32 data (36 + 16 * j) * 512))
       (find (\<lambda>j. get_u32 data (32 + 16 * j) = name) [0..<unat (get_u32 data 20)]))"
  using assms find_tag_first [of "unat (get_u32 data 20)" data 0 name]
  by (simp add: find_named_tag_def peek_u32_def MIN_UNIT_def)

theorem find_named_tag_first_witness:
  "find_named_tag CODE_NAME (replicate 20 NUL @ put_u32 1 @ replicate 8 NUL @ put_u32 CODE_NAME @
      put_u32 3 @ replicate 8 NUL) = Some (Some 1536)"
proof -
  let ?data = "replicate 20 NUL @ put_u32 1 @ replicate 8 NUL @ put_u32 CODE_NAME @ put_u32 3 @ replicate 8 NUL"
  have n: "get_u32 ?data 20 = 1" "get_u32 ?data 32 = CODE_NAME" "get_u32 ?data 36 = 3"
    using get_u32_put_u32 [of 20 "replicate 20 NUL"]
      get_u32_put_u32 [of 32 "replicate 20 NUL @ put_u32 1 @ replicate 8 NUL"]
      get_u32_put_u32 [of 36 "replicate 20 NUL @ put_u32 1 @ replicate 8 NUL @ put_u32 CODE_NAME"]
    by (simp_all del: replicate.simps)
  show ?thesis
    using find_named_tag_first [of ?data CODE_NAME] n by (simp del: replicate.simps)
qed

end
