(* ===== verification/Head_Parse.thy ===== *)
theory Head_Parse
  imports Secure_Boot
begin

text \<open>
  \<open>modem_head_parse.c\<close>: the decoupling header at the start of the modem image, in its
  old and its new format, and the correction of the load table from the regions it lists.
  The header is a buffer of \<open>MAX_HEADER_SIZE\<close> bytes read at the offsets the C structures
  have on the LP64 target. Nothing in the code checks the counts and offsets found in the
  header; a read or copy outside the buffers is the value \<open>None\<close> of the parsers and a
  \<open>Fault\<close> of the program.
\<close>

section \<open>Layout\<close>

definition OLD_HEAD_MAGIC_INFO :: u32 where "OLD_HEAD_MAGIC_INFO = 0x5043454D"
definition NEW_HEAD_MAGIC_INFO :: u32 where "NEW_HEAD_MAGIC_INFO = 0x44485043"
definition MAX_NAME_LEN :: nat where "MAX_NAME_LEN = 0x14"
definition MAX_REGION_NUM :: nat where "MAX_REGION_NUM = 0xC"
definition MAX_CODE_NUM :: nat where "MAX_CODE_NUM = 0x32"
definition MAX_HEADER_SIZE :: nat where "MAX_HEADER_SIZE = 0x600"

text \<open>
  \<open>mem_data\<close> is 40 bytes (name, padding, base at 24, size at 32), \<open>region_data\<close> 48;
  \<open>coupling_info.boot_info\<close> starts at 208, its \<open>bcode\<close> there and its \<open>regions\<close> at 416.
  \<open>new_img_desc\<close> is 28 bytes from offset 4; \<open>img_region_info\<close> is 40 bytes, and the regions
  of \<open>new_coupling_info\<close> start at 8.
\<close>

definition OLD_BCODE_OFF :: nat where "OLD_BCODE_OFF = 208"
definition OLD_REGIONS_OFF :: nat where "OLD_REGIONS_OFF = 416"
definition REGION_DATA_SIZE :: nat where "REGION_DATA_SIZE = 48"
definition IMG_DESC_SIZE :: nat where "IMG_DESC_SIZE = 28"
definition IMG_REGION_SIZE :: nat where "IMG_REGION_SIZE = 40"

lemmas head_layout = OLD_BCODE_OFF_def OLD_REGIONS_OFF_def REGION_DATA_SIZE_def IMG_DESC_SIZE_def
  IMG_REGION_SIZE_def MAX_NAME_LEN_def MAX_REGION_NUM_def MAX_CODE_NUM_def MAX_HEADER_SIZE_def

record img_region_info =
  ir_name :: string
  ir_base :: u64
  ir_size :: u32

text \<open>
  \<open>table\<close> and \<open>region_num\<close> are one list: entries past \<open>region_num\<close> are never read. The
  code array keeps all its bytes, because the copy out of it is not bounded by what was
  copied in.
\<close>

record modem_image_info =
  mi_regions :: "img_region_info list"
  bc_count :: u32
  bc_code :: bytes

record head_world = sec_world +
  modem_decouple_head :: bytes
  modem_img :: modem_image_info

definition zero_image_info :: modem_image_info where
  "zero_image_info = \<lparr>mi_regions = [], bc_count = 0, bc_code = replicate (4 * MAX_CODE_NUM) NUL\<rparr>"

definition head_start :: head_world where
  "head_start = sec_world.extend sec_start
     \<lparr>modem_decouple_head = replicate MAX_HEADER_SIZE NUL, modem_img = zero_image_info\<rparr>"

section \<open>Parsing\<close>

text \<open>The C string at an offset; \<open>None\<close> if it has no end inside the buffer.\<close>

definition cstr_at :: "bytes \<Rightarrow> nat \<Rightarrow> string option" where
  "cstr_at buf off = (if NUL \<in> set (drop off buf) then Some (cstr (drop off buf)) else None)"

definition peek_u64 :: "bytes \<Rightarrow> nat \<Rightarrow> u64 option" where
  "peek_u64 buf off = (if off + 8 \<le> length buf then Some (get_u64 buf off) else None)"

definition head_region :: "bytes \<Rightarrow> nat \<Rightarrow> img_region_info option" where
  "head_region head off =
     (case (cstr_at head off, peek_u64 head (off + 24), peek_u32 head (off + 32)) of
        (Some nm, Some base, Some sz) \<Rightarrow>
          Some \<lparr>ir_name = strncpy nm (MAX_NAME_LEN - 1), ir_base = base, ir_size = sz\<rparr>
      | _ \<Rightarrow> None)"

text \<open>The region loop of the old format: until an empty name, at most twelve.\<close>

function old_regions :: "bytes \<Rightarrow> nat \<Rightarrow> img_region_info list option" where
  "old_regions head i =
     (if i < MAX_REGION_NUM then
        (case cstr_at head (OLD_REGIONS_OFF + REGION_DATA_SIZE * i) of
           None \<Rightarrow> None
         | Some nm \<Rightarrow>
             if nm = [] then Some []
             else (case head_region head (OLD_REGIONS_OFF + REGION_DATA_SIZE * i) of
                 None \<Rightarrow> None
               | Some r \<Rightarrow> map_option ((#) r) (old_regions head (Suc i))))
      else Some [])"
  by pat_completeness auto
termination
  by (relation "measure (\<lambda>(head, i). MAX_REGION_NUM - i)") auto

declare old_regions.simps [simp del]

definition put_code :: "bytes \<Rightarrow> bytes \<Rightarrow> bytes" where
  "put_code data code = data @ drop (length data) code"

definition modem_head_old_construct :: "bytes \<Rightarrow> modem_image_info \<Rightarrow> modem_image_info option" where
  "modem_head_old_construct head img =
     (case old_regions head 0 of
        None \<Rightarrow> None
      | Some rs \<Rightarrow>
          (case peek_u32 head OLD_BCODE_OFF of
             None \<Rightarrow> None
           | Some cnt \<Rightarrow>
               if MAX_CODE_NUM < unat cnt \<or> length head < OLD_BCODE_OFF + 4 + 4 * unat cnt then None
               else Some (img\<lparr>mi_regions := rs, bc_count := cnt,
                 bc_code := put_code (bslice (OLD_BCODE_OFF + 4) (4 * unat cnt) head) (bc_code img)\<rparr>)))"

text \<open>The region loop of the new format: until a zero size, at most twelve.\<close>

function new_regions :: "bytes \<Rightarrow> nat \<Rightarrow> nat \<Rightarrow> img_region_info list option" where
  "new_regions head off i =
     (if i < MAX_REGION_NUM then
        (case peek_u32 head (off + IMG_REGION_SIZE * i + 32) of
           None \<Rightarrow> None
         | Some sz \<Rightarrow>
             if sz = 0 then Some []
             else (case head_region head (off + IMG_REGION_SIZE * i) of
                 None \<Rightarrow> None
               | Some r \<Rightarrow> map_option ((#) r) (new_regions head off (Suc i))))
      else Some [])"
  by pat_completeness auto
termination
  by (relation "measure (\<lambda>(head, off, i). MAX_REGION_NUM - i)") auto

declare new_regions.simps [simp del]

text \<open>
  One descriptor. For \<open>boot-code\<close> the size in bytes is stored as the instruction count,
  although the old format and \<open>modem_head_get_boot_code\<close> count words.
\<close>

definition new_desc :: "bytes \<Rightarrow> string \<Rightarrow> nat \<Rightarrow> u32 \<Rightarrow> modem_image_info \<Rightarrow> modem_image_info option" where
  "new_desc head desc offs sz img =
     (if desc = ''decoup-desc'' then
        map_option (\<lambda>rs. img\<lparr>mi_regions := rs\<rparr>) (new_regions head (offs + 8) 0)
      else if desc = ''boot-code'' then
        (if 4 * MAX_CODE_NUM < unat sz \<or> length head < offs + unat sz then None
         else Some (img\<lparr>bc_count := sz, bc_code := put_code (bslice offs (unat sz) head) (bc_code img)\<rparr>))
      else Some img)"

function new_descs :: "bytes \<Rightarrow> nat \<Rightarrow> modem_image_info \<Rightarrow> modem_image_info option" where
  "new_descs head off img =
     (if length head < off + IMG_DESC_SIZE then None
      else if get_u32 head (off + 24) = 0 then Some img
      else (case cstr_at head off of
          None \<Rightarrow> None
        | Some desc \<Rightarrow>
            (case new_desc head desc (unat (get_u32 head (off + 20))) (get_u32 head (off + 24)) img of
               None \<Rightarrow> None
             | Some img' \<Rightarrow> new_descs head (off + IMG_DESC_SIZE) img')))"
  by pat_completeness auto
termination
  by (relation "measure (\<lambda>(head, off, img). length head - off)") (auto simp: IMG_DESC_SIZE_def)

declare new_descs.simps [simp del]

definition modem_head_new_construct :: "bytes \<Rightarrow> modem_image_info \<Rightarrow> modem_image_info option" where
  "modem_head_new_construct head img = new_descs head 4 img"

definition construct_img :: "bytes \<Rightarrow> modem_image_info \<Rightarrow> modem_image_info option" where
  "construct_img head img =
     (if get_u32 head 0 = OLD_HEAD_MAGIC_INFO then modem_head_old_construct head img
      else if get_u32 head 0 = NEW_HEAD_MAGIC_INFO then modem_head_new_construct head img
      else Some img)"

section \<open>Operations\<close>

definition modem_head_find_modem :: "load_value \<Rightarrow> image_load option" where
  "modem_head_find_modem load_info = find (\<lambda>t. img_name t = MODEM_BANK) (load_table load_info)"

definition patiton_info ::
  "os \<Rightarrow> build_config \<Rightarrow> secure_params \<Rightarrow> image_load \<Rightarrow> ('z ctl_world_scheme, u32 \<times> u64) io" where
  "patiton_info os cfg sp img =
     (if any_secure cfg then secure_boot_get_patiton_info os cfg sp img
      else modem_get_patiton_info os img)"

definition modem_head_get_head ::
  "os \<Rightarrow> build_config \<Rightarrow> secure_params \<Rightarrow> load_value \<Rightarrow> ('z head_world_scheme, int) io" where
  "modem_head_get_head os cfg sp load_info =
     (case modem_head_find_modem load_info of
        None \<Rightarrow> return (- 1)
      | Some img \<Rightarrow>
        bind (patiton_info os cfg sp img) (\<lambda>(offset, _).
        bind (sys_open os (path_r img) O_RDONLY) (\<lambda>fd.
        if fd < 0 then return (- 1)
        else bind (sys_lseek os fd (uint offset) SEEK_SET) (\<lambda>pos.
        if pos \<noteq> uint offset then seq (sys_close fd) (return (- 1))
        else bind (sys_read os fd MAX_HEADER_SIZE) (\<lambda>d.
        seq (modify (\<lambda>s. s\<lparr>modem_decouple_head :=
               (case d of None \<Rightarrow> modem_decouple_head s
                | Some r \<Rightarrow> r @ drop (length r) (modem_decouple_head s))\<rparr>))
        (if map_option length d \<noteq> Some MAX_HEADER_SIZE
         then seq (sys_close fd) (return (- 1))
         else seq (sys_close fd) (return 0)))))))"

definition modem_head_construct_img :: "('z head_world_scheme, unit) io" where
  "modem_head_construct_img =
     bind (gets (\<lambda>s. construct_img (modem_decouple_head s) (modem_img s))) (\<lambda>r.
     case r of
       None \<Rightarrow> stop (Fault ''modem_head_construct_img: outside the header'')
     | Some img \<Rightarrow> modify (\<lambda>s. s\<lparr>modem_img := img\<rparr>))"

definition convert_entry :: "bool \<Rightarrow> img_region_info list \<Rightarrow> image_load \<Rightarrow> image_load" where
  "convert_entry xml rs t =
     (case find (\<lambda>r. img_name t = ir_name r) rs of
        Some r \<Rightarrow> t\<lparr>img_addr := ir_base r, img_size := ir_size r\<rparr>
      | None \<Rightarrow>
          if \<not> xml then t\<lparr>img_size := 0\<rparr>
          else if has_bits MODEM_IMG_EXCPT_HEAD_FLAG (img_flag t) then t\<lparr>img_size := 0\<rparr>
          else t)"

definition modem_head_convert_img :: "modem_image_info \<Rightarrow> load_value \<Rightarrow> int \<times> load_value" where
  "modem_head_convert_img mi load_info =
     (if mi_regions mi = [] \<or> load_table load_info = [] then (- 1, load_info)
      else (0, load_info\<lparr>load_table :=
        map (convert_entry (xml_is_ok load_info) (mi_regions mi)) (load_table load_info)\<rparr>))"

definition modem_head_correct_load_info ::
  "os \<Rightarrow> build_config \<Rightarrow> secure_params \<Rightarrow> load_value \<Rightarrow> ('z head_world_scheme, int \<times> load_value) io" where
  "modem_head_correct_load_info os cfg sp load_info =
     bind (modem_head_get_head os cfg sp load_info) (\<lambda>r.
     seq (do_if (r = 0) modem_head_construct_img)
     (gets (\<lambda>s. modem_head_convert_img (modem_img s) load_info)))"

text \<open>The copy count is an \<open>uint32_t\<close>; copying past the code array is a \<open>Fault\<close>.\<close>

definition modem_head_get_boot_code :: "nat \<Rightarrow> ('z head_world_scheme, bytes) io" where
  "modem_head_get_boot_code sz =
     bind (gets modem_img) (\<lambda>mi.
     let copy = (if 0 < bc_count mi then min (unat (bc_count mi * 4)) sz else 0) in
     if length (bc_code mi) < copy then stop (Fault ''modem_head_get_boot_code: past the code array'')
     else return (take copy (bc_code mi)))"

section \<open>Well-formedness\<close>

definition mi_wf :: "modem_image_info \<Rightarrow> bool" where
  "mi_wf mi \<longleftrightarrow> length (mi_regions mi) \<le> MAX_REGION_NUM \<and>
     list_all (\<lambda>r. length (ir_name r) < MAX_NAME_LEN \<and> NUL \<notin> set (ir_name r)) (mi_regions mi) \<and>
     length (bc_code mi) = 4 * MAX_CODE_NUM"

abbreviation region_ok :: "img_region_info \<Rightarrow> bool" where
  "region_ok r \<equiv> length (ir_name r) < MAX_NAME_LEN \<and> NUL \<notin> set (ir_name r)"

lemma head_region_name: "head_region head off = Some r \<Longrightarrow> region_ok r"
  using le_less_trans [OF strncpy_length, of 19 20] strncpy_no_NUL
  by (auto simp: head_region_def head_layout split: option.splits)

lemma old_regions_Cons:
  "old_regions head i = Some (r # rs) \<Longrightarrow>
   i < MAX_REGION_NUM \<and> region_ok r \<and> old_regions head (Suc i) = Some rs"
  by (subst (asm) old_regions.simps) (auto split: if_splits option.splits dest: head_region_name)

lemma old_regions_wf:
  "old_regions head i = Some rs \<Longrightarrow> length rs \<le> MAX_REGION_NUM - i \<and> list_all region_ok rs"
  by (induction rs arbitrary: i) (fastforce dest: old_regions_Cons)+

lemma new_regions_Cons:
  "new_regions head off i = Some (r # rs) \<Longrightarrow>
   i < MAX_REGION_NUM \<and> region_ok r \<and> new_regions head off (Suc i) = Some rs"
  by (subst (asm) new_regions.simps) (auto split: if_splits option.splits dest: head_region_name)

lemma new_regions_wf:
  "new_regions head off i = Some rs \<Longrightarrow> length rs \<le> MAX_REGION_NUM - i \<and> list_all region_ok rs"
  by (induction rs arbitrary: i) (fastforce dest: new_regions_Cons)+

lemma length_put_code: "length data \<le> length code \<Longrightarrow> length (put_code data code) = length code"
  by (simp add: put_code_def)

lemma length_bslice: "length (bslice off n b) \<le> n"
  by (simp add: bslice_def)

lemma put_code_bslice:
  "n \<le> length code \<Longrightarrow> length (put_code (bslice off n b) code) = length code"
  using length_bslice [of off n b] by (simp add: length_put_code)

lemma old_construct_wf: "modem_head_old_construct head mi = Some mi' \<Longrightarrow> mi_wf mi \<Longrightarrow> mi_wf mi'"
  by (auto simp: modem_head_old_construct_def mi_wf_def put_code_bslice
      split: option.splits if_splits dest!: old_regions_wf)

lemma new_desc_wf: "new_desc head desc offs sz mi = Some mi' \<Longrightarrow> mi_wf mi \<Longrightarrow> mi_wf mi'"
  by (auto simp: new_desc_def mi_wf_def put_code_bslice split: option.splits if_splits
      dest!: new_regions_wf)

lemma new_descs_wf: "new_descs head off mi = Some mi' \<Longrightarrow> mi_wf mi \<Longrightarrow> mi_wf mi'"
proof (induction head off mi rule: new_descs.induct)
  case (1 head off mi)
  show ?case
    using "1.prems"
    by (subst (asm) new_descs.simps)
      (auto split: if_splits option.splits intro: "1.IH" new_desc_wf)
qed

lemma construct_wf: "construct_img head mi = Some mi' \<Longrightarrow> mi_wf mi \<Longrightarrow> mi_wf mi'"
  by (auto simp: construct_img_def modem_head_new_construct_def split: if_splits
      intro: old_construct_wf new_descs_wf)

lemma zero_image_info_wf: "mi_wf zero_image_info"
  by (simp add: mi_wf_def zero_image_info_def)

section \<open>Encoding\<close>

text \<open>A header built from its contents, to state what the parser recovers.\<close>

definition put_region :: "img_region_info \<Rightarrow> bytes" where
  "put_region r = ir_name r @ replicate (24 - length (ir_name r)) NUL @ put_u64 (ir_base r) @
     put_u32 (ir_size r) @ replicate 4 NUL"

definition good_region :: "img_region_info \<Rightarrow> bool" where
  "good_region r \<longleftrightarrow> ir_name r \<noteq> [] \<and> length (ir_name r) < MAX_NAME_LEN \<and> NUL \<notin> set (ir_name r) \<and>
     ir_size r \<noteq> 0"

definition old_head :: "img_region_info list \<Rightarrow> u32 \<Rightarrow> bytes \<Rightarrow> bytes" where
  "old_head rs cnt code =
     put_u32 OLD_HEAD_MAGIC_INFO @ replicate 204 NUL @ put_u32 cnt @ code @
     replicate (204 - length code) NUL @ concat (map (\<lambda>r. put_region r @ replicate 8 NUL) rs) @
     replicate (1120 - 48 * length rs) NUL"

definition new_head :: "img_region_info list \<Rightarrow> bytes" where
  "new_head rs =
     put_u32 NEW_HEAD_MAGIC_INFO @ (''decoup-desc'' @ replicate 9 NUL) @ put_u32 60 @ put_u32 1 @
     replicate 28 NUL @ replicate 8 NUL @ concat (map put_region rs) @
     replicate (1468 - 40 * length rs) NUL"

lemma length_put_region: "good_region r \<Longrightarrow> length (put_region r) = 40"
  by (simp add: put_region_def good_region_def MAX_NAME_LEN_def)

lemma cstr_at_name:
  assumes "NUL \<notin> set nm" "0 < k"
  shows "cstr_at (a @ nm @ replicate k NUL @ b) (length a) = Some nm"
proof -
  obtain j where "k = Suc j" using assms(2) gr0_implies_Suc by blast
  with assms(1) show ?thesis
    by (simp add: cstr_at_def cstr_append_NUL)
qed

lemma head_region_at:
  assumes "good_region r" "off = length a"
  shows "head_region (a @ put_region r @ b) off = Some r"
proof -
  let ?k = "24 - length (ir_name r)"
  let ?pre = "a @ ir_name r @ replicate ?k NUL"
  have len: "length (ir_name r) < 20" "NUL \<notin> set (ir_name r)"
    using assms(1) by (simp_all add: good_region_def MAX_NAME_LEN_def)
  have eq: "a @ put_region r @ b = ?pre @ put_u64 (ir_base r) @ put_u32 (ir_size r) @ replicate 4 NUL @ b"
    by (simp add: put_region_def del: replicate.simps)
  have name: "cstr_at (a @ put_region r @ b) off = Some (ir_name r)"
    using cstr_at_name [of "ir_name r" ?k a] len assms(2) by (simp add: eq)
  have base: "peek_u64 (a @ put_region r @ b) (off + 24) = Some (ir_base r)"
    using get_u64_put_u64 [of "off + 24" ?pre "ir_base r"] len assms(2) by (simp add: eq peek_u64_def)
  have sz: "peek_u32 (a @ put_region r @ b) (off + 32) = Some (ir_size r)"
    using get_u32_put_u32 [of "off + 32" "?pre @ put_u64 (ir_base r)" "ir_size r"] len assms(2)
    by (simp add: eq peek_u32_def)
  show ?thesis
    unfolding head_region_def name base sz
    using len by (simp add: strncpy_def cstr_id MAX_NAME_LEN_def)
qed

lemma old_regions_at:
  assumes "list_all good_region rs" "i + length rs \<le> MAX_REGION_NUM" "z \<noteq> []" "hd z = NUL"
    and "length a = OLD_REGIONS_OFF + REGION_DATA_SIZE * i"
  shows "old_regions (a @ concat (map (\<lambda>r. put_region r @ replicate 8 NUL) rs) @ z) i = Some rs"
  using assms
proof (induction rs arbitrary: a i)
  case Nil
  then show ?case
    by (subst old_regions.simps, cases z) (auto simp: cstr_at_def cstr_def)
next
  case (Cons r rs)
  let ?rest = "concat (map (\<lambda>r. put_region r @ replicate 8 NUL) rs) @ z"
  let ?head = "a @ put_region r @ replicate 8 NUL @ ?rest"
  let ?off = "OLD_REGIONS_OFF + REGION_DATA_SIZE * i"
  have r: "good_region r" using Cons.prems by simp
  have reg: "head_region ?head ?off = Some r"
    using r Cons.prems(5) by (intro head_region_at) simp_all
  then obtain nm where nm: "cstr_at ?head ?off = Some nm"
    by (auto simp: head_region_def split: option.splits)
  with reg have "strncpy nm (MAX_NAME_LEN - 1) = ir_name r"
    by (auto simp: head_region_def split: option.splits)
  then have "nm \<noteq> []"
    using r by (auto simp: good_region_def strncpy_def cstr_def)
  moreover have "old_regions ((a @ put_region r @ replicate 8 NUL) @ ?rest) (Suc i) = Some rs"
    by (rule Cons.IH)
      (use Cons.prems r in \<open>simp_all add: length_put_region head_layout del: replicate.simps\<close>)
  ultimately show ?case
    using reg nm Cons.prems(2) by (subst old_regions.simps) simp
qed

lemma new_regions_at:
  assumes "list_all good_region rs" "i + length rs \<le> MAX_REGION_NUM" "40 \<le> length z"
    and "z = replicate (length z) NUL" "length a = off + IMG_REGION_SIZE * i"
  shows "new_regions (a @ concat (map put_region rs) @ z) off i = Some rs"
  using assms
proof (induction rs arbitrary: a i)
  case Nil
  then have "get_u32 (a @ z) (off + IMG_REGION_SIZE * i + 32) = 0"
    using get_u32_drop [of a z 32] get_u32_zeros [of "length z" 32] by simp
  with Nil show ?case
    by (subst new_regions.simps) (simp add: peek_u32_def)
next
  case (Cons r rs)
  let ?rest = "concat (map put_region rs) @ z"
  let ?head = "a @ put_region r @ ?rest"
  let ?off = "off + IMG_REGION_SIZE * i"
  have r: "good_region r" using Cons.prems by simp
  have reg: "head_region ?head ?off = Some r"
    using r Cons.prems(5) by (intro head_region_at) simp_all
  then have "peek_u32 ?head (?off + 32) = Some (ir_size r)"
    by (auto simp: head_region_def split: option.splits)
  moreover have "new_regions ((a @ put_region r) @ ?rest) off (Suc i) = Some rs"
    by (rule Cons.IH) (use Cons.prems r in \<open>simp_all add: length_put_region head_layout\<close>)
  ultimately show ?case
    using reg Cons.prems(2) r by (subst new_regions.simps) (simp add: good_region_def)
qed

lemma old_head_parses:
  assumes "list_all good_region rs" "length rs \<le> MAX_REGION_NUM" "length code = 4 * unat cnt"
    and "unat cnt \<le> MAX_CODE_NUM"
  shows "modem_head_old_construct (old_head rs cnt code) mi =
     Some (mi\<lparr>mi_regions := rs, bc_count := cnt, bc_code := put_code code (bc_code mi)\<rparr>)"
proof -
  let ?a = "put_u32 OLD_HEAD_MAGIC_INFO @ replicate 204 NUL"
  let ?b = "?a @ put_u32 cnt @ code @ replicate (204 - length code) NUL"
  let ?regs = "concat (map (\<lambda>r. put_region r @ replicate 8 NUL) rs)"
  let ?z = "replicate (1120 - 48 * length rs) NUL"
  have regs: "old_regions (old_head rs cnt code) 0 = Some rs"
    using old_regions_at [of rs 0 ?z ?b] assms
    by (simp add: old_head_def head_layout hd_replicate del: replicate.simps)
  have cnt: "peek_u32 (old_head rs cnt code) OLD_BCODE_OFF = Some cnt"
    using get_u32_put_u32 [of 208 ?a cnt "code @ replicate (204 - length code) NUL @ ?regs @ ?z"]
    by (simp add: peek_u32_def old_head_def head_layout del: replicate.simps)
  have code: "bslice (OLD_BCODE_OFF + 4) (4 * unat cnt) (old_head rs cnt code) = code"
    using assms(3) by (simp add: bslice_def old_head_def head_layout del: replicate.simps)
  have "OLD_BCODE_OFF + 4 + 4 * unat cnt \<le> length (old_head rs cnt code)"
    using assms(3) by (simp add: old_head_def head_layout)
  with assms(4) show ?thesis
    by (simp add: modem_head_old_construct_def regs cnt code)
qed

lemma new_head_parses:
  assumes "list_all good_region rs" "length rs \<le> MAX_REGION_NUM"
  shows "modem_head_new_construct (new_head rs) mi = Some (mi\<lparr>mi_regions := rs\<rparr>)"
proof -
  let ?name = "''decoup-desc'' @ replicate 9 NUL"
  let ?a = "put_u32 NEW_HEAD_MAGIC_INFO @ ?name @ put_u32 60 @ put_u32 1 @ replicate 28 NUL"
  let ?regs = "concat (map put_region rs)"
  let ?z = "replicate (1468 - 40 * length rs) NUL"
  have head: "new_head rs = (?a @ replicate 8 NUL) @ ?regs @ ?z"
    by (simp add: new_head_def del: replicate.simps)
  have regs: "new_regions (new_head rs) 68 0 = Some rs"
    unfolding head using assms
    by (intro new_regions_at) (simp_all add: head_layout del: replicate.simps)
  have offs: "get_u32 (new_head rs) 24 = 60" "get_u32 (new_head rs) 28 = 1"
    using get_u32_put_u32 [of 24 "put_u32 NEW_HEAD_MAGIC_INFO @ ?name" 60]
      get_u32_put_u32 [of 28 "put_u32 NEW_HEAD_MAGIC_INFO @ ?name @ put_u32 60" 1]
    by (simp_all add: new_head_def del: replicate.simps)
  have "get_u32 (new_head rs) (28 + 28) = get_u32 (replicate 28 NUL @ replicate 8 NUL @ ?regs @ ?z) 24"
    using get_u32_drop [of "put_u32 NEW_HEAD_MAGIC_INFO @ ?name @ put_u32 60 @ put_u32 1"
        "replicate 28 NUL @ replicate 8 NUL @ ?regs @ ?z" 24]
    by (simp add: new_head_def del: replicate.simps)
  then have last: "get_u32 (new_head rs) 56 = 0"
    by (simp add: get_u32_append get_u32_zeros del: replicate.simps)
  have desc: "cstr_at (new_head rs) 4 = Some ''decoup-desc''"
    using cstr_at_name [of "''decoup-desc''" 9 "put_u32 NEW_HEAD_MAGIC_INFO"]
    by (simp add: new_head_def del: replicate.simps)
  have len: "68 \<le> length (new_head rs)"
    by (simp add: new_head_def)
  have stop: "new_descs (new_head rs) 32 mi' = Some mi'" for mi'
    using last len by (subst new_descs.simps) (simp add: IMG_DESC_SIZE_def)
  show ?thesis
    using offs len desc regs stop unfolding modem_head_new_construct_def
    by (subst new_descs.simps) (simp add: IMG_DESC_SIZE_def new_desc_def)
qed

section \<open>Properties\<close>







text \<open>
  A new-format header whose boot code has 52 bytes stores 52 as the instruction count, so
  fetching the boot code copies 208 bytes out of the 200-byte code array.
\<close>

theorem new_boot_code_overread:
  "\<exists>mi'. new_desc (replicate MAX_HEADER_SIZE NUL) ''boot-code'' 100 52 zero_image_info = Some mi' \<and>
     modem_head_get_boot_code 512 (head_start\<lparr>modem_img := mi'\<rparr>) =
       Stop (Fault ''modem_head_get_boot_code: past the code array'') (head_start\<lparr>modem_img := mi'\<rparr>)"
  by (simp add: new_desc_def modem_head_get_boot_code_def head_layout put_code_def bslice_def io_simps
      zero_image_info_def del: replicate.simps)

end
