(* ===== verification/Load_Tables.thy ===== *)
theory Load_Tables
  imports Head_Parse
begin

text \<open>
  The load tables of \<open>modem_load.c\<close>: their built-in defaults for each modem type, and
  their correction from the node information of the older \<open>cptl\<close> and \<open>pmic\<close> drivers. The
  entries of a table are written one by one in the code; here each entry is given by the
  values it has at the end, in the order of the enumerations \<open>IMAGE_LOAD_MODEM\<close>,
  \<open>IMAGE_LOAD_DELTANV\<close>, and so on.
\<close>

section \<open>State\<close>

record load_world = head_world +
  cp_load_info :: load_value
  sp_load_info :: load_value
  dp_load_info :: load_value
  modem_node_info :: "bytes option"
  modem_node_num :: nat

definition load_start :: load_world where
  "load_start = head_world.extend head_start
     \<lparr>cp_load_info = zero_load_value, sp_load_info = zero_load_value, dp_load_info = zero_load_value,
      modem_node_info = None, modem_node_num = 0\<rparr>"

definition MODEM_SIZE :: u32 where "MODEM_SIZE = 20 * 1024 * 1024"
definition DELTANV_SIZE :: u32 where "DELTANV_SIZE = 1 * 1024 * 1024"
definition FIXNV_SIZE :: u32 where "FIXNV_SIZE = 1 * 1024 * 1024"
definition RUNNV_SIZE :: u32 where "RUNNV_SIZE = 2 * 1024 * 1024"
definition TGDSP_SIZE :: u32 where "TGDSP_SIZE = 5 * 1024 * 1024 + 64 * 1024"
definition LDSP_SIZE :: u32 where "LDSP_SIZE = 12 * 1024 * 1024"
definition CDSP_SIZE :: u32 where "CDSP_SIZE = 1 * 1024 * 1024"
definition WARM_SIZE :: u32 where "WARM_SIZE = 5 * 1024 * 1024"
definition PMCP_SIZE :: u32 where "PMCP_SIZE = 1 * 1024 * 1024"
definition PMCP_CALI_SIZE :: u32 where "PMCP_CALI_SIZE = 64 * 1024"
definition LOAD_NODE_SIZE :: nat where "LOAD_NODE_SIZE = 40"
definition MAX_LOAD_NODE_NUM :: nat where "MAX_LOAD_NODE_NUM = 11"

definition PERSIST_MODEM_PROP :: string where "PERSIST_MODEM_PROP = ''persist.vendor.modem.nvp''"
definition PERSIST_MODEM_PATH :: string where "PERSIST_MODEM_PATH = ''ro.vendor.product.partitionpath''"
definition PROC_DEV_PROP :: string where "PROC_DEV_PROP = ''ro.vendor.modem.dev''"
definition PMCP_CALI_PATH :: string where "PMCP_CALI_PATH = ''/vendor/firmware/EXEC_CALIBRATE_MAG_IMAGE''"
definition SP_SYS_NODE :: string where "SP_SYS_NODE = ''/proc/pmic/ldinfo''"
definition MODEM_SYS_NODE :: string where "MODEM_SYS_NODE = ''/proc/cptl/ldinfo''"

section \<open>Defaults\<close>

text \<open>A failed allocation is followed by \<open>memset\<close> on the null pointer.\<close>

definition modem_init_load_info :: "os \<Rightarrow> nat \<Rightarrow> ('z load_world_scheme, load_value) io" where
  "modem_init_load_info os num =
     bind (sys_malloc os (int (312 * num))) (\<lambda>ok.
     if \<not> ok then stop (Fault ''modem_init_load_info: memset of NULL'')
     else return (zero_load_value\<lparr>load_table := replicate num zero_image\<rparr>))"

text \<open>
  The name of the first entry is set to \<open>pm_sys\<close> and then, where the second entry is
  meant, to \<open>cali_lib\<close>.
\<close>

definition sp_default_table :: "string \<Rightarrow> image_load list" where
  "sp_default_table path_read =
     [zero_image\<lparr>img_name := ''cali_lib'', path_w := ''/proc/pmic/pm_sys'',
        path_r := mstrncpy2 path_read ''pm_sys'', img_size := PMCP_SIZE,
        img_flag := SET_2FLAG 0 SECURE_FLAG SP_FLAG\<rparr>,
      zero_image\<lparr>path_w := ''/proc/pmic/cali_lib'', path_r := PMCP_CALI_PATH,
        img_size := PMCP_CALI_SIZE, img_flag := SET_2FLAG 0 CLR_FLAG SP_CALI_FLAG\<rparr>]"

definition modem_init_sp_load_info :: "os \<Rightarrow> ('z load_world_scheme, unit) io" where
  "modem_init_sp_load_info os =
     bind (property_get os PERSIST_MODEM_PATH ''not_find'') (\<lambda>path_read.
     bind (modem_init_load_info os 2) (\<lambda>li.
     let li = li\<lparr>img_type := IMAGE_SP, lv_name := ''sp''\<rparr> in
     bind (sys_access os ''/proc/pmic'') (\<lambda>ok.
     modify (\<lambda>s. s\<lparr>sp_load_info :=
       (if ok then li\<lparr>drv_is_ok := True, load_table := sp_default_table path_read,
            start_path := ''/proc/pmic/start'', stop_path := ''/proc/pmic/stop''\<rparr>
        else li)\<rparr>))))"

text \<open>
  The ten entries of the modem table: the paths are made of the write path, the read path
  and the NV prefix; \<open>gdsp\<close> falls back to its second name where the first does not exist.
\<close>

definition bank :: "string \<Rightarrow> string \<Rightarrow> string \<Rightarrow> string \<Rightarrow> u32 \<Rightarrow> nat \<Rightarrow> nat \<Rightarrow> image_load" where
  "bank pw pr nvp nm sz f1 f2 =
     zero_image\<lparr>img_name := nm, path_w := mstrncpy2 pw nm, path_r := mstrncpy3 pr nvp nm, img_size := sz,
       img_flag := SET_2FLAG 0 f1 f2\<rparr>"

definition flag_only :: "nat \<Rightarrow> nat \<Rightarrow> image_load" where
  "flag_only f1 f2 = zero_image\<lparr>img_flag := SET_2FLAG 0 f1 f2\<rparr>"

definition cp_default_table ::
  "modem_kind \<Rightarrow> string \<Rightarrow> string \<Rightarrow> string \<Rightarrow> bool \<Rightarrow> bool \<Rightarrow> image_load list" where
  "cp_default_table modem pw pr nvp tgdsp_w tgdsp_r =
     (let td = (modem = TD_MODEM \<or> modem = W_MODEM); lte = (modem = LTE_MODEM);
          gdsp_w = (if tgdsp_w then ''tgdsp'' else ''gdsp'');
          gdsp_r = (if tgdsp_r then ''tgdsp'' else ''gdsp'') in
      [bank pw pr nvp ''modem'' (if td \<or> lte then MODEM_SIZE else 0) SECURE_FLAG MODEM_FLAG,
       bank pw pr nvp ''deltanv'' (if lte then DELTANV_SIZE else 0) SECURE_FLAG MODEM_FLAG,
       (if td then bank pw pr nvp ''dsp'' TGDSP_SIZE SECURE_FLAG MODEM_DSP_FLAG
        else flag_only SECURE_FLAG MODEM_DSP_FLAG),
       (if lte then zero_image\<lparr>img_name := gdsp_w, path_w := mstrncpy2 pw gdsp_w,
            path_r := mstrncpy3 pr nvp gdsp_r, img_size := TGDSP_SIZE,
            img_flag := SET_2FLAG 0 SECURE_FLAG MODEM_DSP_FLAG\<rparr>
        else flag_only SECURE_FLAG MODEM_DSP_FLAG),
       (if lte then bank pw pr nvp ''ldsp'' LDSP_SIZE SECURE_FLAG MODEM_DSP_FLAG
        else flag_only SECURE_FLAG MODEM_DSP_FLAG),
       (if lte then bank pw pr nvp ''cdsp'' CDSP_SIZE SECURE_FLAG MODEM_DSP_FLAG
        else flag_only SECURE_FLAG MODEM_DSP_FLAG),
       (if lte then bank pw pr nvp ''warm'' WARM_SIZE SECURE_FLAG MODEM_DSP_FLAG
        else flag_only SECURE_FLAG MODEM_DSP_FLAG),
       zero_image\<lparr>path_r := ''/proc/cmdline'', img_size := of_nat CPCMDLINE_SIZE, img_name := ''cpcmdline'',
          path_w := mstrncpy2 pw ''cpcmdline'', img_flag := SET_2FLAG 0 CMDLINE_FLAG MODEM_OTHER_FLAG\<rparr>,
       bank pw pr nvp ''fixnv'' FIXNV_SIZE NV_FLAG MODEM_OTHER_FLAG,
       zero_image\<lparr>img_name := ''runnv'', path_r := mstrncpy3 pr nvp ''runtimenv'', img_size := RUNNV_SIZE,
          path_w := mstrncpy2 pw ''runnv'', img_flag := SET_2FLAG 0 NV_FLAG MODEM_OTHER_FLAG\<rparr>])"

definition modem_init_cp_load_info :: "os \<Rightarrow> ('z load_world_scheme, unit) io" where
  "modem_init_cp_load_info os =
     bind (modem_init_load_info os 10) (\<lambda>li.
     let li = li\<lparr>img_type := IMAGE_CP, lv_name := ''cp''\<rparr> in
     bind (sys_access os ''/proc/cptl'') (\<lambda>ok.
     if \<not> ok then modify (\<lambda>s. s\<lparr>cp_load_info := li\<rparr>)
     else bind modem_ctrl_get_modem_type (\<lambda>modem.
     bind (property_get os PERSIST_MODEM_PROP ''not_find'') (\<lambda>prop_nvp.
     bind (property_get os PERSIST_MODEM_PATH ''not_find'') (\<lambda>path_read.
     bind (property_get os PROC_DEV_PROP ''not_find'') (\<lambda>path_write.
     bind (if modem = LTE_MODEM then sys_access os (mstrncpy2 path_write ''tgdsp'') else return True) (\<lambda>gw.
     bind (if modem = LTE_MODEM then sys_access os (mstrncpy3 path_read prop_nvp ''tgdsp'') else return True) (\<lambda>gr.
     modify (\<lambda>s. s\<lparr>cp_load_info := li\<lparr>drv_is_ok := True,
       load_table := cp_default_table modem path_write path_read prop_nvp gw gr,
       start_path := ''/proc/cptl/start'', stop_path := ''/proc/cptl/stop''\<rparr>\<rparr>)))))))))"

section \<open>Node information\<close>

text \<open>
  Reading at most \<open>sz\<close> bytes of node records: the data and the number of records, \<open>-1\<close> on
  failure.
\<close>

definition get_load_node_info :: "os \<Rightarrow> string \<Rightarrow> nat \<Rightarrow> ('z load_world_scheme, int \<times> bytes) io" where
  "get_load_node_info os node sz =
     bind (sys_open os node O_RDONLY) (\<lambda>fd.
     if fd < 0 then return (- 1, [])
     else bind (sys_read os fd sz) (\<lambda>d.
       seq (sys_close fd)
       (return (case d of None \<Rightarrow> (- 1, []) | Some r \<Rightarrow> (int (length r div LOAD_NODE_SIZE), r)))))"

text \<open>
  The second file is read behind the records of the first. If the first could not be read
  its count is \<open>-1\<close>, so the second is read to an address before the buffer.
\<close>

definition modem_init_load_node_info :: "os \<Rightarrow> ('z load_world_scheme, unit) io" where
  "modem_init_load_node_info os =
     (let sz = LOAD_NODE_SIZE * MAX_LOAD_NODE_NUM in
      bind (sys_malloc os (int sz)) (\<lambda>ok.
      if \<not> ok then modify (\<lambda>s. s\<lparr>modem_node_info := None\<rparr>)
      else seq (modify (\<lambda>s. s\<lparr>modem_node_num := 0\<rparr>))
      (bind (get_load_node_info os SP_SYS_NODE sz) (\<lambda>(n, d1).
      bind (get_load_node_info os MODEM_SYS_NODE (nat (int sz - n * int LOAD_NODE_SIZE))) (\<lambda>(m, d2).
      let buf1 = d1 @ replicate (sz - length d1) NUL;
          off = nat n * LOAD_NODE_SIZE;
          buf = take off buf1 @ d2 @ drop (off + length d2) buf1;
          num = (if 0 < n then nat n else 0) + (if 0 < m then nat m else 0) in
      if n < 0 \<and> d2 \<noteq> [] then stop (Fault ''modem_init_load_node_info: write before the buffer'')
      else modify (\<lambda>s. s\<lparr>modem_node_info := (if num = 0 then None else Some buf),
             modem_node_num := num\<rparr>))))))"

definition node_at :: "bytes \<Rightarrow> nat \<Rightarrow> load_node_info" where
  "node_at buf i =
     \<lparr>node_name = cstr (drop (LOAD_NODE_SIZE * i) buf),
      node_base = get_u32 buf (LOAD_NODE_SIZE * i + MAX_MODEM_NODE_NAME_LEN),
      node_size = get_u32 buf (LOAD_NODE_SIZE * i + MAX_MODEM_NODE_NAME_LEN + 4)\<rparr>"

definition nodes_of :: "bytes \<Rightarrow> nat \<Rightarrow> load_node_info list" where
  "nodes_of buf num = map (node_at buf) [0..<num]"

definition correct_entry :: "load_node_info list \<Rightarrow> image_load \<Rightarrow> image_load" where
  "correct_entry nodes t =
     (case find (\<lambda>node. has_substr (path_w t) (node_name node)) nodes of
        None \<Rightarrow> t
      | Some node \<Rightarrow> t\<lparr>img_addr := ucast (node_base node), img_size := node_size node\<rparr>)"

definition modem_correct_image :: "load_node_info list \<Rightarrow> load_value \<Rightarrow> load_value" where
  "modem_correct_image nodes load_info = load_info\<lparr>load_table := map (correct_entry nodes) (load_table load_info)\<rparr>"

definition modem_correct_modem_info :: "('z load_world_scheme, unit) io" where
  "modem_correct_modem_info =
     bind (gets modem_node_num) (\<lambda>num.
     if num = 0 then return ()
     else bind (gets modem_node_info) (\<lambda>info. case info of
       None \<Rightarrow> stop (Fault ''modem_correct_image: NULL node table'')
     | Some buf \<Rightarrow>
       modify (\<lambda>s. s\<lparr>cp_load_info := modem_correct_image (nodes_of buf num) (cp_load_info s),
         sp_load_info := modem_correct_image (nodes_of buf num) (sp_load_info s),
         modem_node_info := None\<rparr>)))"

definition modem_default_init_load_info :: "os \<Rightarrow> build_config \<Rightarrow> ('z load_world_scheme, unit) io" where
  "modem_default_init_load_info os cfg =
     seq (modem_init_cp_load_info os)
     (seq (modem_init_sp_load_info os)
     (seq (do_if (FEATURE_EXTERNAL_MODEM cfg)
        (bind (modem_init_load_info os 1) (\<lambda>li.
         modify (\<lambda>s. s\<lparr>dp_load_info := li\<lparr>img_type := IMAGE_DP\<rparr>\<rparr>))))
     (seq (modem_init_load_node_info os)
     modem_correct_modem_info)))"

definition modem_get_load_value :: "build_config \<Rightarrow> nat \<Rightarrow> 'z load_world_scheme \<Rightarrow> load_value option" where
  "modem_get_load_value cfg img s =
     (if img = IMAGE_CP then Some (cp_load_info s)
      else if img = IMAGE_SP then Some (sp_load_info s)
      else if FEATURE_EXTERNAL_MODEM cfg \<and> img = IMAGE_DP then Some (dp_load_info s)
      else None)"

section \<open>Invariant: every string fits its array\<close>

definition image_wf :: "image_load \<Rightarrow> bool" where
  "image_wf t \<longleftrightarrow> length (path_w t) \<le> MAX_PATH_LEN \<and> length (path_r t) \<le> MAX_PATH_LEN \<and>
     length (img_name t) \<le> MAX_FILE_NAME_LEN"

definition load_wf :: "load_value \<Rightarrow> bool" where
  "load_wf li \<longleftrightarrow> list_all image_wf (load_table li) \<and> length (io_ctrl li) \<le> MAX_PATH_LEN \<and>
     length (start_path li) \<le> MAX_PATH_LEN \<and> length (stop_path li) \<le> MAX_PATH_LEN \<and>
     length (lv_name li) \<le> MAX_FILE_NAME_LEN"

definition tables_wf :: "'z load_world_scheme \<Rightarrow> bool" where
  "tables_wf s \<longleftrightarrow> load_wf (cp_load_info s) \<and> load_wf (sp_load_info s) \<and> load_wf (dp_load_info s)"

lemma zero_image_wf: "image_wf zero_image"
  by (simp add: image_wf_def zero_image_def)

lemma zero_load_wf: "load_wf (zero_load_value\<lparr>load_table := replicate n zero_image\<rparr>)"
  using zero_image_wf by (simp add: load_wf_def zero_load_value_def list_all_iff)

lemma image_wf_fields:
  "image_wf (t\<lparr>img_size := n\<rparr>) = image_wf t" "image_wf (t\<lparr>img_addr := a\<rparr>) = image_wf t"
  "image_wf (t\<lparr>img_flag := w\<rparr>) = image_wf t"
  by (simp_all add: image_wf_def)

lemma bank_wf: "length nm \<le> MAX_FILE_NAME_LEN \<Longrightarrow> image_wf (bank pw pr nvp nm sz f1 f2)"
  by (simp add: image_wf_def bank_def mstrncpy2_length mstrncpy3_length)

lemma flag_only_wf: "image_wf (flag_only f1 f2)"
  by (simp add: flag_only_def image_wf_fields zero_image_wf)

lemma cp_default_wf: "list_all image_wf (cp_default_table modem pw pr nvp gw gr)"
  by (simp add: cp_default_table_def Let_def bank_wf flag_only_wf MAX_FILE_NAME_LEN_def)
    (simp add: image_wf_def mstrncpy2_length mstrncpy3_length MAX_FILE_NAME_LEN_def MAX_PATH_LEN_def
      mstrncpy2_length [unfolded MAX_PATH_LEN_def] mstrncpy3_length [unfolded MAX_PATH_LEN_def]
      zero_image_def)

lemma sp_default_wf: "list_all image_wf (sp_default_table pr)"
  by (simp add: sp_default_table_def image_wf_def mstrncpy2_length [unfolded MAX_PATH_LEN_def]
      MAX_FILE_NAME_LEN_def MAX_PATH_LEN_def PMCP_CALI_PATH_def zero_image_def)

lemma correct_entry_wf: "image_wf t \<Longrightarrow> image_wf (correct_entry nodes t)"
  by (simp add: correct_entry_def image_wf_fields split: option.split)

lemma correct_image_wf: "load_wf li \<Longrightarrow> load_wf (modem_correct_image nodes li)"
  by (auto simp: load_wf_def modem_correct_image_def list_all_iff correct_entry_wf)

lemma convert_entry_wf: "image_wf t \<Longrightarrow> image_wf (convert_entry xml rs t)"
  by (simp add: convert_entry_def image_wf_fields split: option.split)

lemma convert_img_wf: "load_wf li \<Longrightarrow> load_wf (snd (modem_head_convert_img mi li))"
  by (auto simp: load_wf_def modem_head_convert_img_def list_all_iff convert_entry_wf)

lemma tables_wf_blind: "io_blind tables_wf"
  by (simp add: io_blind_def tables_wf_def)

section \<open>The default initialisation keeps and establishes it\<close>

lemma init_load_info_blind: "io_blind I \<Longrightarrow> keeps I (modem_init_load_info os n)"
  unfolding modem_init_load_info_def by (rule keeps_intros io_blind_keeps | assumption)+

lemma wp_init_load_info:
  "keeps I (modem_init_load_info os n) \<Longrightarrow> I s \<Longrightarrow>
   wp (modem_init_load_info os n)
     (\<lambda>li t. I t \<and> li = zero_load_value\<lparr>load_table := replicate n zero_image\<rparr>) (\<lambda>_ _. True) s"
  by (drule keeps_def [THEN iffD1, rule_format, of I])
    (auto simp: modem_init_load_info_def wp_rules Let_def)

lemma keeps_init_load_info:
  "io_blind I \<Longrightarrow> keeps I (f (zero_load_value\<lparr>load_table := replicate n zero_image\<rparr>)) \<Longrightarrow>
   keeps I (bind (modem_init_load_info os n) f)"
  using wp_init_load_info [OF init_load_info_blind, of I _ os n]
  unfolding keeps_def wp_bind by (fastforce elim: wp_conseq)

lemma init_sp_keeps: "keeps tables_wf (modem_init_sp_load_info os)"
  using sp_default_wf zero_load_wf [of 2] unfolding modem_init_sp_load_info_def
  by (auto intro!: keeps_intros keeps_modify keeps_init_load_info io_blind_keeps tables_wf_blind
      simp: Let_def tables_wf_def load_wf_def zero_load_value_def MAX_PATH_LEN_def MAX_FILE_NAME_LEN_def)

lemma init_cp_keeps: "keeps tables_wf (modem_init_cp_load_info os)"
  using cp_default_wf zero_load_wf [of 10]
  unfolding modem_init_cp_load_info_def modem_ctrl_get_modem_type_def
  by (auto intro!: keeps_intros keeps_modify keeps_init_load_info io_blind_keeps tables_wf_blind
      simp: Let_def tables_wf_def load_wf_def zero_load_value_def MAX_PATH_LEN_def MAX_FILE_NAME_LEN_def)

lemma get_node_info_blind: "io_blind I \<Longrightarrow> keeps I (get_load_node_info os p n)"
  unfolding get_load_node_info_def by (rule keeps_intros io_blind_keeps | assumption)+

lemma init_node_keeps: "keeps tables_wf (modem_init_load_node_info os)"
  unfolding modem_init_load_node_info_def Let_def case_prod_beta
  by (rule keeps_intros keeps_modify io_blind_keeps get_node_info_blind tables_wf_blind
      | simp add: tables_wf_def)+

lemma correct_modem_keeps: "keeps tables_wf modem_correct_modem_info"
  unfolding modem_correct_modem_info_def
  by (rule keeps_intros keeps_modify | simp add: tables_wf_def correct_image_wf)+

lemma default_init_keeps: "keeps tables_wf (modem_default_init_load_info os cfg)"
  using zero_load_wf [of 1] unfolding modem_default_init_load_info_def
  by (auto intro!: keeps_intros keeps_modify keeps_init_load_info init_cp_keeps init_sp_keeps
      init_node_keeps correct_modem_keeps tables_wf_blind simp: tables_wf_def load_wf_def)

section \<open>Descriptors\<close>

lemma init_load_info_fd: "fd_clean (modem_init_load_info os n)"
  unfolding modem_init_load_info_def by (rule fd_cleanI) (rule track_intros fd_intros | simp)+

lemma get_node_info_fd: "fd_clean (get_load_node_info os p n)"
  unfolding get_load_node_info_def by (rule fd_cleanI) (rule track_intros fd_intros | simp)+

lemma default_init_fd: "fd_clean (modem_default_init_load_info os cfg)"
  unfolding modem_default_init_load_info_def modem_init_cp_load_info_def modem_init_sp_load_info_def
    modem_init_load_node_info_def modem_correct_modem_info_def modem_ctrl_get_modem_type_def
    Let_def case_prod_beta
  by (rule fd_cleanI)
    (rule track_intros fd_intros init_load_info_fd [THEN fd_cleanD] get_node_info_fd [THEN fd_cleanD] | simp)+

lemma get_head_fd: "fd_clean (modem_head_get_head os cfg sp li)"
  unfolding modem_head_get_head_def patiton_info_def case_prod_beta
  by (rule fd_cleanI)
    (rule track_intros fd_intros secure_fd [THEN fd_cleanD] image_fd [THEN fd_cleanD] | simp)+

lemma correct_load_info_fd: "fd_clean (modem_head_correct_load_info os cfg sp li)"
  unfolding modem_head_correct_load_info_def modem_head_construct_img_def
  by (rule fd_cleanI) (rule track_intros get_head_fd [THEN fd_cleanD] | simp)+

section \<open>Properties\<close>

text \<open>
  Every entry of the built-in modem table that is to be loaded belongs to the modem
  images, and only the command line, NV and signed entries are treated specially, each in
  exactly one way.
\<close>

theorem cp_default_flags:
  "list_all (\<lambda>t. has_bits (img_flag t) MODEM_IMG_FLAG \<and> \<not> has_bits (img_flag t) MODEM_HEAD_IMG_FLAG \<and>
       length (filter (GET_FLAG (img_flag t)) [SECURE_FLAG, NV_FLAG, CMDLINE_FLAG]) = 1)
     (cp_default_table modem pw pr nvp gw gr)"
  by (simp add: cp_default_table_def Let_def bank_def flag_only_def has_bits_def SET_2FLAG_def
      GET_FLAG_def flag_bit_defs img_mask_defs)

text \<open>
  A system without \<open>/proc/pmic/ldinfo\<close> but with \<open>/proc/cptl/ldinfo\<close> makes the node
  reader write before its buffer: the missing file counts as \<open>-1\<close> records.
\<close>

theorem node_info_before_buffer:
  "\<exists>t. modem_init_load_node_info (ok_os\<lparr>os_open := (\<lambda>tr p fl. if p = SP_SYS_NODE then - 1 else 3)\<rparr>) load_start =
     Stop (Fault ''modem_init_load_node_info: write before the buffer'') t"
  by (simp add: modem_init_load_node_info_def get_load_node_info_def ok_os_def syscall_defs io_simps
      Let_def SP_SYS_NODE_def MODEM_SYS_NODE_def LOAD_NODE_SIZE_def MAX_LOAD_NODE_NUM_def)

end
