(* ===== verification/Xml_Parse.thy ===== *)
theory Xml_Parse
  imports Load_Tables
begin

text \<open>
  \<open>xml_parse.c\<close>: the description of a modem's memory in XML files and its conversion to
  a load table. The expat parser and the stdio file are outside the repository: \<open>xml_env\<close>
  gives the content of a file, which reads fail, and which start tags the parser reports for
  a chunk of input; the code relies on nothing else of them.
\<close>

section \<open>Parameters and state\<close>

type_synonym xml_tag = "string \<times> (string \<times> string) list"

record xml_env =
  xe_content :: "string \<Rightarrow> bytes"
  xe_read_error :: "nat \<Rightarrow> bool"
  xe_create :: bool
  xe_buffer :: "nat \<Rightarrow> bool"
  xe_parse :: "bytes list \<Rightarrow> bool \<Rightarrow> xml_tag list \<times> bool"

record partion_item =
  pi_addr :: u64
  pi_size :: u32
  pi_dst_file :: string
  pi_src_file :: string
  pi_name :: string
  pi_flag :: u32

definition zero_item :: partion_item where
  "zero_item = \<lparr>pi_addr = 0, pi_size = 0, pi_dst_file = [], pi_src_file = [], pi_name = [], pi_flag = 0\<rparr>"

text \<open>\<open>item_arry\<close> and \<open>partion_cnt\<close> are one optional list (NULL is \<open>None\<close>).\<close>

record modem_xml_info =
  xi_items :: "partion_item list option"
  xi_name :: string
  xi_src_path :: string
  xi_dst_path :: string
  xi_io_ctrol :: string
  xi_modem_base :: u64
  xi_modem_size :: u64
  xi_all_base :: u64
  xi_all_size :: u64

definition zero_xml :: modem_xml_info where
  "zero_xml = \<lparr>xi_items = None, xi_name = [], xi_src_path = [], xi_dst_path = [], xi_io_ctrol = [],
     xi_modem_base = 0, xi_modem_size = 0, xi_all_base = 0, xi_all_size = 0\<rparr>"

record xml_world = load_world +
  cp_xml_info :: modem_xml_info
  sp_xml_info :: modem_xml_info
  dp_xml_info :: modem_xml_info
  item_cnt :: nat

definition xml_start :: xml_world where
  "xml_start = load_world.extend load_start
     \<lparr>cp_xml_info = zero_xml, sp_xml_info = zero_xml, dp_xml_info = zero_xml, item_cnt = 0\<rparr>"

text \<open>The structure that \<open>cur_xml_info\<close> points to for an image type.\<close>

definition xml_of :: "nat \<Rightarrow> 'z xml_world_scheme \<Rightarrow> modem_xml_info" where
  "xml_of img s = (if img = IMAGE_CP then cp_xml_info s else if img = IMAGE_SP then sp_xml_info s
     else dp_xml_info s)"

definition set_xml :: "nat \<Rightarrow> modem_xml_info \<Rightarrow> 'z xml_world_scheme \<Rightarrow> 'z xml_world_scheme" where
  "set_xml img x s = (if img = IMAGE_CP then s\<lparr>cp_xml_info := x\<rparr> else if img = IMAGE_SP then s\<lparr>sp_xml_info := x\<rparr>
     else s\<lparr>dp_xml_info := x\<rparr>)"

section \<open>Start tags\<close>

text \<open>The loop over the attributes: the last one with a name counts.\<close>

definition attr_val :: "(string \<times> string) list \<Rightarrow> string \<Rightarrow> string option" where
  "attr_val attrs key = map_of (rev attrs) key"

text \<open>
  \<open>XML_STRTOUL\<close>: the target keeps its value when the attribute is missing, has no digits
  or overflows.
\<close>

definition xml_strtoul :: "string option \<Rightarrow> 'w::len word \<Rightarrow> 'w word" where
  "xml_strtoul str old =
     (case str of
        None \<Rightarrow> old
      | Some t \<Rightarrow> (let (v, overflow, digits) = strtoul0 t in
          if (v = 0 \<and> \<not> digits) \<or> overflow then old else of_nat v))"

definition xml_scalars ::
  "string \<Rightarrow> string option \<Rightarrow> string option \<Rightarrow> string option \<Rightarrow> modem_xml_info \<Rightarrow> modem_xml_info" where
  "xml_scalars tag val base sz x =
     (let x = (case val of None \<Rightarrow> x | Some v \<Rightarrow>
            if tag = ''ioctl_path'' then x\<lparr>xi_io_ctrol := strncpy v MAX_PATH_LEN\<rparr>
            else if tag = ''src_path'' then x\<lparr>xi_src_path := strncpy v MAX_PATH_LEN\<rparr>
            else if tag = ''dst_path'' then x\<lparr>xi_dst_path := strncpy v MAX_PATH_LEN\<rparr>
            else x);
          x = (if has_substr tag ''modem_range''
               then x\<lparr>xi_modem_base := xml_strtoul base (xi_modem_base x),
                      xi_modem_size := xml_strtoul sz (xi_modem_size x)\<rparr> else x)
      in (if has_substr tag ''all_range''
          then x\<lparr>xi_all_base := xml_strtoul base (xi_all_base x),
                 xi_all_size := xml_strtoul sz (xi_all_size x)\<rparr> else x))"

definition xml_item :: "(string \<times> string) list \<Rightarrow> partion_item \<Rightarrow> partion_item" where
  "xml_item attrs p =
     \<lparr>pi_addr = xml_strtoul (attr_val attrs ''base'') (pi_addr p),
      pi_size = xml_strtoul (attr_val attrs ''size'') (pi_size p),
      pi_dst_file = (case attr_val attrs ''dst_file'' of None \<Rightarrow> pi_dst_file p | Some v \<Rightarrow> strncpy v MAX_FILE_NAME_LEN),
      pi_src_file = (case attr_val attrs ''src_file'' of None \<Rightarrow> pi_src_file p | Some v \<Rightarrow> strncpy v MAX_PATH_LEN),
      pi_name = (case attr_val attrs ''name'' of None \<Rightarrow> pi_name p | Some v \<Rightarrow> strncpy v MAX_FILE_NAME_LEN),
      pi_flag = xml_strtoul (attr_val attrs ''flag'') (pi_flag p)\<rparr>"

definition xml_cnt :: "string \<Rightarrow> nat" where
  "xml_cnt v = unat (of_nat (fst (strtoul0 v)) :: u32)"

text \<open>
  The partition item of a tag goes to the slot \<open>item_cnt\<close>, which is not compared with the
  size of the array.
\<close>

definition modem_xml_start_tag :: "os \<Rightarrow> nat \<Rightarrow> xml_tag \<Rightarrow> ('z xml_world_scheme, unit) io" where
  "modem_xml_start_tag os img t =
     (let tag = fst t; attrs = snd t; val = attr_val attrs ''val'';
          base = attr_val attrs ''base''; sz = attr_val attrs ''size'' in
      seq (do_if (val \<noteq> None \<and> tag = ''modem_name'')
             (modify (\<lambda>s. set_xml img ((xml_of img s)\<lparr>xi_name := strncpy (the val) MAX_FILE_NAME_LEN\<rparr>) s)))
      (if val \<noteq> None \<and> tag = ''partion_cnt'' \<and> (xml_cnt (the val) = 0 \<or> 100 < xml_cnt (the val))
       then return ()
       else seq (do_if (val \<noteq> None \<and> tag = ''partion_cnt'')
              (bind (gets (xml_of img)) (\<lambda>x.
               seq (do_if (xi_items x = None)
                 (bind (sys_malloc os (int (208 * xml_cnt (the val)))) (\<lambda>ok.
                  do_if ok (modify (\<lambda>s. set_xml img ((xml_of img s)\<lparr>xi_items :=
                    Some (replicate (xml_cnt (the val)) zero_item)\<rparr>) s)))))
               (modify (\<lambda>s. s\<lparr>item_cnt := 0\<rparr>)))))
       (seq (modify (\<lambda>s. set_xml img (xml_scalars tag val base sz (xml_of img s)) s))
       (bind (gets (xml_of img)) (\<lambda>x. case xi_items x of
          None \<Rightarrow> return ()
        | Some items \<Rightarrow>
          do_if (has_substr tag ''partition'')
            (bind (gets item_cnt) (\<lambda>n.
             if length items \<le> n then stop (Fault ''modem_xml_start_tag: past the item array'')
             else modify (\<lambda>s. (set_xml img (x\<lparr>xi_items := Some (items[n := xml_item attrs (items ! n)])\<rparr>) s)
                    \<lparr>item_cnt := Suc n\<rparr>))))))))"

fun xml_tags :: "os \<Rightarrow> nat \<Rightarrow> xml_tag list \<Rightarrow> ('z xml_world_scheme, unit) io" where
  "xml_tags os img [] = return ()"
| "xml_tags os img (t # ts) = seq (modem_xml_start_tag os img t) (xml_tags os img ts)"

section \<open>Reading a file\<close>

definition MODEM_XML_BUF_SIZE :: nat where "MODEM_XML_BUF_SIZE = 1024"
definition CP_XML_PATH :: string where "CP_XML_PATH = ''/vendor/etc/modem_cp_info.xml''"
definition SP_XML_PATH :: string where "SP_XML_PATH = ''/vendor/etc/modem_sp_info.xml''"
definition DP_XML_PATH :: string where "DP_XML_PATH = ''/vendor/etc/modem_dp_info.xml''"

text \<open>
  The parse loop on what is left of the file. \<open>fread\<close> delivers a full buffer until the
  file ends, so a short one sets the end-of-file flag.
\<close>

function xml_loop ::
  "os \<Rightarrow> xml_env \<Rightarrow> nat \<Rightarrow> bytes list \<Rightarrow> bytes \<Rightarrow> ('z xml_world_scheme, unit) io" where
  "xml_loop os xe img chunks rest =
     (if \<not> xe_buffer xe (length chunks) \<or> xe_read_error xe (length chunks) then return ()
      else let chunk = take MODEM_XML_BUF_SIZE rest; eof = (length chunk < MODEM_XML_BUF_SIZE);
               (tags, ok) = xe_parse xe (chunks @ [chunk]) eof in
        seq (xml_tags os img tags)
        (if \<not> ok \<or> eof then return ()
         else xml_loop os xe img (chunks @ [chunk]) (drop MODEM_XML_BUF_SIZE rest)))"
  by pat_completeness auto
termination
  by (relation "measure (\<lambda>(os, xe, img, chunks, rest). length rest)") (auto simp: MODEM_XML_BUF_SIZE_def)

declare xml_loop.simps [simp del]

definition modem_xml_start_parse :: "os \<Rightarrow> xml_env \<Rightarrow> nat \<Rightarrow> string \<Rightarrow> ('z xml_world_scheme, unit) io" where
  "modem_xml_start_parse os xe img path =
     bind (sys_access os path) (\<lambda>ok.
     if \<not> ok then return ()
     else bind (sys_open os path O_RDONLY) (\<lambda>fd.
     if fd < 0 then return ()
     else seq (do_if (xe_create xe) (xml_loop os xe img [] (xe_content xe path)))
         (sys_close fd)))"

definition modem_xml_init :: "os \<Rightarrow> build_config \<Rightarrow> xml_env \<Rightarrow> nat \<Rightarrow> ('z xml_world_scheme, unit) io" where
  "modem_xml_init os cfg xe img =
     (if img = IMAGE_CP \<or> img = IMAGE_SP \<or> FEATURE_EXTERNAL_MODEM cfg \<and> img = IMAGE_DP then
        seq (modify (set_xml img zero_xml))
        (modem_xml_start_parse os xe img
           (if img = IMAGE_CP then CP_XML_PATH else if img = IMAGE_SP then SP_XML_PATH else DP_XML_PATH))
      else return ())"

section \<open>Conversion to a load table\<close>

definition set_load_value :: "nat \<Rightarrow> load_value \<Rightarrow> 'z load_world_scheme \<Rightarrow> 'z load_world_scheme" where
  "set_load_value img li s = (if img = IMAGE_CP then s\<lparr>cp_load_info := li\<rparr>
     else if img = IMAGE_SP then s\<lparr>sp_load_info := li\<rparr> else s\<lparr>dp_load_info := li\<rparr>)"

definition item_image :: "modem_xml_info \<Rightarrow> partion_item \<Rightarrow> image_load" where
  "item_image x p =
     \<lparr>path_w = mstrncpy2 (xi_dst_path x) (pi_dst_file p),
      path_r = (if has_substr (pi_src_file p) ''/'' then strncpy (pi_src_file p) MAX_PATH_LEN
                else mstrncpy2 (xi_src_path x) (pi_src_file p)),
      img_name = strncpy (pi_name p) MAX_FILE_NAME_LEN, img_addr = pi_addr p, img_size = pi_size p,
      img_flag = pi_flag p\<rparr>"

definition xml_load_value :: "modem_xml_info \<Rightarrow> partion_item list \<Rightarrow> load_value \<Rightarrow> load_value" where
  "xml_load_value x items li =
     li\<lparr>load_table := map (item_image x) items, modem_base := xi_modem_base x, modem_size := xi_modem_size x,
        all_base := xi_all_base x, all_size := xi_all_size x,
        start_path := mstrncpy2 (xi_dst_path x) ''start'', stop_path := mstrncpy2 (xi_dst_path x) ''stop'',
        io_ctrl := strncpy (xi_io_ctrol x) MAX_PATH_LEN, lv_name := strncpy (xi_name x) MAX_FILE_NAME_LEN\<rparr>"

text \<open>
  The tail of the conversion: the driver flags are only ever set, and a working control
  device replaces the destination of every entry.
\<close>

definition xml_ready :: "modem_xml_info \<Rightarrow> bool \<Rightarrow> bool \<Rightarrow> load_value \<Rightarrow> load_value" where
  "xml_ready x drv ctl li =
     (let li = li\<lparr>drv_is_ok := drv_is_ok li \<or> drv, ioctrl_is_ok := ioctrl_is_ok li \<or> ctl\<rparr>;
          li = (if ioctrl_is_ok li
                then li\<lparr>load_table := map (\<lambda>t. t\<lparr>path_w := strncpy (xi_io_ctrol x) MAX_PATH_LEN\<rparr>) (load_table li)\<rparr>
                else li)
      in li\<lparr>xml_is_ok := True\<rparr>)"

definition modem_xml_to_load_info :: "os \<Rightarrow> build_config \<Rightarrow> nat \<Rightarrow> ('z xml_world_scheme, int) io" where
  "modem_xml_to_load_info os cfg img =
     (if \<not> (img = IMAGE_CP \<or> img = IMAGE_SP \<or> FEATURE_EXTERNAL_MODEM cfg \<and> img = IMAGE_DP)
      then return (- 1)
      else bind (gets (xml_of img)) (\<lambda>x.
      bind (gets (modem_get_load_value cfg img)) (\<lambda>li0. case (xi_items x, li0) of
        (Some items, Some li) \<Rightarrow>
          bind (sys_malloc os (int (312 * length items))) (\<lambda>ok.
          if \<not> ok then return (- 1)
          else let li = xml_load_value x items li in
            bind (if xi_dst_path x \<noteq> [] then sys_access os (xi_dst_path x) else return False) (\<lambda>drv.
            bind (if xi_io_ctrol x \<noteq> [] then sys_access os (xi_io_ctrol x) else return False) (\<lambda>ctl.
            seq (modify (set_load_value img (xml_ready x drv ctl li)))
            (return 0))))
      | _ \<Rightarrow> return (- 1))))"

definition modem_xml_init_load_info :: "os \<Rightarrow> build_config \<Rightarrow> xml_env \<Rightarrow> ('z xml_world_scheme, unit) io" where
  "modem_xml_init_load_info os cfg xe =
     seq (modem_xml_init os cfg xe IMAGE_CP)
     (seq (modem_xml_to_load_info os cfg IMAGE_CP)
     (seq (modem_xml_init os cfg xe IMAGE_SP)
     (seq (modem_xml_to_load_info os cfg IMAGE_SP)
     (do_if (FEATURE_EXTERNAL_MODEM cfg)
       (seq (modem_xml_init os cfg xe IMAGE_DP)
       (modem_xml_to_load_info os cfg IMAGE_DP))))))"

section \<open>Invariant\<close>

definition item_wf :: "partion_item \<Rightarrow> bool" where
  "item_wf p \<longleftrightarrow> length (pi_dst_file p) \<le> MAX_FILE_NAME_LEN \<and> length (pi_src_file p) \<le> MAX_PATH_LEN \<and>
     length (pi_name p) \<le> MAX_FILE_NAME_LEN"

definition xml_wf :: "modem_xml_info \<Rightarrow> bool" where
  "xml_wf x \<longleftrightarrow> (case xi_items x of None \<Rightarrow> True
       | Some items \<Rightarrow> 0 < length items \<and> length items \<le> 100 \<and> list_all item_wf items) \<and>
     length (xi_name x) \<le> MAX_FILE_NAME_LEN \<and> length (xi_src_path x) \<le> MAX_PATH_LEN \<and>
     length (xi_dst_path x) \<le> MAX_PATH_LEN \<and> length (xi_io_ctrol x) \<le> MAX_PATH_LEN"

definition xmls_wf :: "'z xml_world_scheme \<Rightarrow> bool" where
  "xmls_wf s \<longleftrightarrow> xml_wf (cp_xml_info s) \<and> xml_wf (sp_xml_info s) \<and> xml_wf (dp_xml_info s) \<and> tables_wf s"

lemma xml_of_set: "xml_of img (set_xml img x s) = x"
  by (simp add: xml_of_def set_xml_def)

lemma set_xml_simps [simp]:
  "item_cnt (set_xml img x s) = item_cnt s" "trace (set_xml img x s) = trace s"
  "xml_of img (s\<lparr>item_cnt := n\<rparr>) = xml_of img s" "xml_of img (s\<lparr>trace := tr\<rparr>) = xml_of img s"
  by (simp_all add: set_xml_def xml_of_def)

lemma xmls_wf_of: "xmls_wf s \<Longrightarrow> xml_wf (xml_of img s)"
  by (simp add: xmls_wf_def xml_of_def)

lemma xmls_wf_set: "xmls_wf s \<Longrightarrow> xml_wf x \<Longrightarrow> xmls_wf (set_xml img x s)"
  by (simp add: xmls_wf_def set_xml_def tables_wf_def)

lemma xmls_wf_cnt [simp]: "xmls_wf (s\<lparr>item_cnt := n\<rparr>) = xmls_wf s"
  by (simp add: xmls_wf_def tables_wf_def)

lemma xmls_wf_blind: "io_blind xmls_wf"
  by (simp add: io_blind_def xmls_wf_def tables_wf_def)

lemma zero_xml_wf: "xml_wf zero_xml"
  by (simp add: xml_wf_def zero_xml_def)

lemma zero_item_wf: "item_wf zero_item"
  by (simp add: item_wf_def zero_item_def)

lemma xml_item_wf: "item_wf p \<Longrightarrow> item_wf (xml_item attrs p)"
  by (simp add: item_wf_def xml_item_def strncpy_length split: option.split)

lemma xml_scalars_wf: "xml_wf x \<Longrightarrow> xml_wf (xml_scalars tag val base sz x)"
  by (auto simp: xml_wf_def xml_scalars_def Let_def strncpy_length split: option.split)

lemma xml_update_wf:
  "xml_wf x \<Longrightarrow> xi_items x = Some items \<Longrightarrow> n < length items \<Longrightarrow>
   xml_wf (x\<lparr>xi_items := Some (items[n := xml_item attrs (items ! n)])\<rparr>)"
  by (auto simp: xml_wf_def list_all_length nth_list_update xml_item_wf)

lemma keeps_gets_bind: "(\<And>s. I s \<Longrightarrow> wp (f (g s)) (\<lambda>_. I) (\<lambda>_ _. True) s) \<Longrightarrow> keeps I (bind (gets g) f)"
  by (simp add: keeps_def wp_rules)

lemma xml_partition_wf:
  "keeps xmls_wf (bind (gets (xml_of img)) (\<lambda>x. case xi_items x of
          None \<Rightarrow> return ()
        | Some items \<Rightarrow>
          do_if b
            (bind (gets item_cnt) (\<lambda>n.
             if length items \<le> n then stop r
             else modify (\<lambda>s. (set_xml img (x\<lparr>xi_items := Some (items[n := xml_item attrs (items ! n)])\<rparr>) s)
                    \<lparr>item_cnt := Suc n\<rparr>)))))"
  by (rule keeps_gets_bind)
    (auto simp: wp_rules intro!: xmls_wf_set xml_update_wf xmls_wf_of split: option.split)

lemma xml_alloc_wf:
  "0 < n \<Longrightarrow> n \<le> 100 \<Longrightarrow> keeps xmls_wf (modify (\<lambda>s. set_xml img ((xml_of img s)\<lparr>xi_items :=
      Some (replicate n zero_item)\<rparr>) s))"
  using zero_item_wf
  by (intro keeps_modify xmls_wf_set)
    (auto simp: xml_wf_def list_all_length dest: xmls_wf_of [of _ img])

lemma start_tag_wf: "keeps xmls_wf (modem_xml_start_tag os img t)"
  unfolding modem_xml_start_tag_def Let_def
  by (rule keeps_intros xml_partition_wf xml_alloc_wf io_blind_keeps xmls_wf_blind keeps_modify xmls_wf_set
      xml_scalars_wf xmls_wf_of | assumption
      | (fastforce simp: xml_wf_def strncpy_length dest: xmls_wf_of [of _ img]))+

lemma xml_tags_wf: "keeps xmls_wf (xml_tags os img ts)"
  by (induction ts) (auto intro: keeps_intros start_tag_wf)

lemma xml_loop_wf: "keeps xmls_wf (xml_loop os xe img cs rest)"
proof (induction "length rest" arbitrary: cs rest rule: less_induct)
  case less
  show ?case
    by (subst xml_loop.simps, simp only: Let_def case_prod_beta)
      (rule keeps_intros xml_tags_wf less | simp add: MODEM_XML_BUF_SIZE_def min_def split: if_splits)+
qed

lemma xml_init_wf: "keeps xmls_wf (modem_xml_init os cfg xe img)"
  unfolding modem_xml_init_def modem_xml_start_parse_def
  by (rule keeps_intros xml_loop_wf io_blind_keeps xmls_wf_blind keeps_modify
      | simp add: xmls_wf_set zero_xml_wf)+

lemma item_image_wf: "image_wf (item_image x p)"
  by (simp add: image_wf_def item_image_def mstrncpy2_length strncpy_length)

lemma xml_load_value_wf: "load_wf (xml_load_value x items li)"
  by (simp add: load_wf_def xml_load_value_def list_all_iff item_image_wf mstrncpy2_length strncpy_length)

lemma redirect_wf:
  "load_wf li \<Longrightarrow> load_wf (li\<lparr>load_table := map (\<lambda>t. t\<lparr>path_w := strncpy p MAX_PATH_LEN\<rparr>) (load_table li)\<rparr>)"
  by (auto simp: load_wf_def list_all_iff image_wf_def strncpy_length)

lemma load_wf_bools [simp]:
  "load_wf (li\<lparr>drv_is_ok := a\<rparr>) = load_wf li" "load_wf (li\<lparr>ioctrl_is_ok := b\<rparr>) = load_wf li"
  "load_wf (li\<lparr>xml_is_ok := c\<rparr>) = load_wf li"
  by (simp_all add: load_wf_def)

lemma set_load_wf: "xmls_wf s \<Longrightarrow> load_wf li \<Longrightarrow> xmls_wf (set_load_value img li s)"
  by (simp add: xmls_wf_def tables_wf_def set_load_value_def)

lemma xml_ready_wf: "load_wf li \<Longrightarrow> load_wf (xml_ready x drv ctl li)"
  using redirect_wf [of "li\<lparr>drv_is_ok := drv_is_ok li \<or> drv, ioctrl_is_ok := True\<rparr>" "xi_io_ctrol x"]
  by (auto simp: xml_ready_def Let_def)

lemma to_load_info_wf: "keeps xmls_wf (modem_xml_to_load_info os cfg img)"
  unfolding modem_xml_to_load_info_def Let_def
  by (auto intro!: keeps_intros keeps_modify io_blind_keeps xmls_wf_blind set_load_wf xml_ready_wf
      xml_load_value_wf split: option.split)

lemma xml_load_info_wf: "keeps xmls_wf (modem_xml_init_load_info os cfg xe)"
  unfolding modem_xml_init_load_info_def
  by (rule keeps_intros xml_init_wf to_load_info_wf)+

section \<open>Descriptors\<close>

lemma start_tag_fd: "fd_clean (modem_xml_start_tag os img t)"
  unfolding modem_xml_start_tag_def Let_def
  by (rule fd_cleanI) (rule track_intros fd_intros | simp)+

lemma xml_tags_fd: "tracks fd_step M (xml_tags os img ts) (\<lambda>_. M)"
  by (induction ts) (auto intro!: track_intros start_tag_fd [THEN fd_cleanD])

lemma xml_loop_fd: "tracks fd_step M (xml_loop os xe img cs rest) (\<lambda>_. M)"
proof (induction "length rest" arbitrary: cs rest rule: less_induct)
  case less
  show ?case
    by (subst xml_loop.simps, simp only: Let_def case_prod_beta)
      (rule track_intros xml_tags_fd less | simp add: MODEM_XML_BUF_SIZE_def min_def split: if_splits)+
qed

lemma xml_init_fd: "fd_clean (modem_xml_init os cfg xe img)"
  unfolding modem_xml_init_def modem_xml_start_parse_def
  by (rule fd_cleanI) (rule track_intros xml_loop_fd fd_intros | simp)+

lemma to_load_info_fd: "fd_clean (modem_xml_to_load_info os cfg img)"
  unfolding modem_xml_to_load_info_def Let_def
  by (rule fd_cleanI)
    (rule track_intros fd_intros | simp add: set_load_value_def split: option.split | intro conjI impI allI)+

lemma xml_load_info_fd: "fd_clean (modem_xml_init_load_info os cfg xe)"
  unfolding modem_xml_init_load_info_def
  by (rule fd_cleanI) (rule track_intros xml_init_fd [THEN fd_cleanD] to_load_info_fd [THEN fd_cleanD] | simp)+

section \<open>Properties\<close>

lemma partition_tag: "has_substr ''partition'' ''partition''" "\<not> has_substr ''partion_cnt'' ''partition''"
  by (simp_all add: has_substr_def)

lemma xml_scalars_partition: "xml_scalars ''partition'' None base sz x = x"
  by (simp add: xml_scalars_def has_substr_def)

lemma start_partition:
  assumes "xi_items (xml_of img s) = Some items" "item_cnt s < length items" "attr_val attrs ''val'' = None"
  shows "modem_xml_start_tag os img (''partition'', attrs) s =
     Ret () ((set_xml img ((xml_of img s)\<lparr>xi_items := Some (items[item_cnt s := xml_item attrs (items ! item_cnt s)])\<rparr>)
               (set_xml img (xml_of img s) s))\<lparr>item_cnt := Suc (item_cnt s)\<rparr>)"
  using assms
  by (simp add: modem_xml_start_tag_def Let_def io_simps xml_scalars_partition xml_of_set partition_tag)

text \<open>The items a list of partition elements describes, from a given slot on.\<close>

fun put_items :: "(string \<times> string) list list \<Rightarrow> nat \<Rightarrow> partion_item list \<Rightarrow> partion_item list" where
  "put_items [] n items = items"
| "put_items (a # as) n items = put_items as (Suc n) (items[n := xml_item a (items ! n)])"

lemma put_items_eq:
  "n + length as \<le> length items \<Longrightarrow>
   put_items as n items = take n items @ map2 xml_item as (take (length as) (drop n items)) @
     drop (n + length as) items"
proof (induction as arbitrary: n items)
  case Nil
  then show ?case by simp
next
  case (Cons a as)
  then have n: "n < length items" by simp
  have "take (Suc n) (items[n := xml_item a (items ! n)]) = take n items @ [xml_item a (items ! n)]"
    using n by (simp add: take_Suc_conv_app_nth)
  moreover have "drop (Suc n) (items[n := xml_item a (items ! n)]) = drop (Suc n) items"
    by simp
  moreover have "drop (Suc n + length as) (items[n := xml_item a (items ! n)]) = drop (Suc n + length as) items"
    by simp
  moreover have "drop n items = items ! n # drop (Suc n) items"
    using n by (simp add: Cons_nth_drop_Suc)
  ultimately show ?case
    using Cons by (simp add: add.commute)
qed

lemma xml_partitions:
  assumes "xi_items (xml_of img s) = Some items" "item_cnt s + length as \<le> length items"
    and "\<forall>a \<in> set as. attr_val a ''val'' = None"
  shows "\<exists>t. xml_tags os img (map (\<lambda>a. (''partition'', a)) as) s = Ret () t \<and>
     xml_of img t = (xml_of img s)\<lparr>xi_items := Some (put_items as (item_cnt s) items)\<rparr> \<and>
     item_cnt t = item_cnt s + length as"
  using assms
proof (induction as arbitrary: s items)
  case Nil
  then show ?case by (auto simp: io_simps)
next
  case (Cons a as)
  let ?items = "items[item_cnt s := xml_item a (items ! item_cnt s)]"
  let ?u = "(set_xml img ((xml_of img s)\<lparr>xi_items := Some ?items\<rparr>) (set_xml img (xml_of img s) s))
     \<lparr>item_cnt := Suc (item_cnt s)\<rparr>"
  have u: "xml_of img ?u = (xml_of img s)\<lparr>xi_items := Some ?items\<rparr>" "item_cnt ?u = Suc (item_cnt s)"
    by (simp_all add: xml_of_set)
  have step: "modem_xml_start_tag os img (''partition'', a) s = Ret () ?u"
    using Cons.prems by (intro start_partition) auto
  obtain t where "xml_tags os img (map (\<lambda>a. (''partition'', a)) as) ?u = Ret () t"
    "xml_of img t = (xml_of img ?u)\<lparr>xi_items := Some (put_items as (Suc (item_cnt s)) ?items)\<rparr>"
    "item_cnt t = Suc (item_cnt s) + length as"
    using Cons.IH [of ?u ?items] Cons.prems u by auto
  with step u show ?case
    by (auto simp: io_simps)
qed

lemma put_items_length [simp]: "length (put_items as n items) = length items"
  by (induction as arbitrary: n items) simp_all

lemma xml_tags_append:
  "xml_tags os img ts s = Ret () t \<Longrightarrow> xml_tags os img (ts @ us) s = xml_tags os img us t"
  by (induction ts arbitrary: s) (auto simp: io_simps split: result.splits)

lemma start_past_end:
  assumes "xi_items (xml_of img s) = Some items" "length items \<le> item_cnt s" "attr_val a ''val'' = None"
  shows "\<exists>t. modem_xml_start_tag os img (''partition'', a) s = Stop (Fault ''modem_xml_start_tag: past the item array'') t"
  using assms by (simp add: modem_xml_start_tag_def Let_def io_simps xml_scalars_partition xml_of_set partition_tag)

lemma start_count:
  assumes "xi_items (xml_of img s) = None" "0 < xml_cnt v" "xml_cnt v \<le> 100"
    and "\<And>tr. os_malloc os tr (int (208 * xml_cnt v))"
  shows "\<exists>t. modem_xml_start_tag os img (''partion_cnt'', [(''val'', v)]) s = Ret () t \<and> item_cnt t = 0 \<and>
     xml_of img t = (xml_of img s)\<lparr>xi_items := Some (replicate (xml_cnt v) zero_item)\<rparr>"
  using assms
  by (simp add: modem_xml_start_tag_def Let_def io_simps attr_val_def syscall_defs xml_of_set xml_scalars_def
      has_substr_def)

text \<open>
  C21: A description that announces at most 100 partitions and contains at most that many
  partition elements is read completely: the item array holds, in order, the items the
  elements describe, and zeroed items after them.
\<close>

theorem xml_partitions_read:
  assumes "xi_items (xml_of img s) = None" "0 < xml_cnt v" "xml_cnt v \<le> 100" "length as \<le> xml_cnt v"
    and "\<And>tr. os_malloc os tr (int (208 * xml_cnt v))" "\<forall>a \<in> set as. attr_val a ''val'' = None"
  shows "\<exists>t. xml_tags os img ((''partion_cnt'', [(''val'', v)]) # map (\<lambda>a. (''partition'', a)) as) s = Ret () t \<and>
     xi_items (xml_of img t) =
       Some (map (\<lambda>a. xml_item a zero_item) as @ replicate (xml_cnt v - length as) zero_item)"
proof -
  obtain u where u: "modem_xml_start_tag os img (''partion_cnt'', [(''val'', v)]) s = Ret () u" "item_cnt u = 0"
    "xml_of img u = (xml_of img s)\<lparr>xi_items := Some (replicate (xml_cnt v) zero_item)\<rparr>"
    using start_count [OF assms(1-3,5)] by blast
  then have "\<exists>t. xml_tags os img (map (\<lambda>a. (''partition'', a)) as) u = Ret () t \<and>
      xml_of img t = (xml_of img u)\<lparr>xi_items := Some (put_items as 0 (replicate (xml_cnt v) zero_item))\<rparr>"
    using xml_partitions [of img u "replicate (xml_cnt v) zero_item" as os] assms(4,6) by auto
  then obtain t where "xml_tags os img (map (\<lambda>a. (''partition'', a)) as) u = Ret () t"
    "xi_items (xml_of img t) = Some (put_items as 0 (replicate (xml_cnt v) zero_item))"
    by auto
  moreover have "map2 xml_item as (replicate (length as) zero_item) = map (\<lambda>a. xml_item a zero_item) as"
    by (induction as) simp_all
  then have "put_items as 0 (replicate (xml_cnt v) zero_item) =
      map (\<lambda>a. xml_item a zero_item) as @ replicate (xml_cnt v - length as) zero_item"
    using put_items_eq [of 0 as "replicate (xml_cnt v) zero_item"] assms(4) by (simp add: min_absorb1)
  ultimately show ?thesis
    using u(1) by (auto simp: io_simps)
qed

theorem xml_partitions_read_witness:
  "\<exists>t. xml_tags ok_os IMAGE_CP [(''partion_cnt'', [(''val'', ''2'')]), (''partition'', [(''name'', ''modem'')])] xml_start = Ret () t \<and>
     xi_items (xml_of IMAGE_CP t) = Some [xml_item [(''name'', ''modem'')] zero_item, zero_item]"
proof -
  have cnt: "xml_cnt ''2'' = 2"
    by (simp add: xml_cnt_def strtoul0_def sign_of_def isspace_def digit_val_def ULONG_MAX_def)
  show ?thesis
    using xml_partitions_read [of IMAGE_CP xml_start "''2''" "[[(''name'', ''modem'')]]" ok_os] cnt
    by (simp add: xml_start_def xml_of_def zero_xml_def ok_os_def attr_val_def xml_world.defs load_world.defs
        head_world.defs sec_world.defs ctl_world.defs numeral_2_eq_2)
qed

text \<open>
  C22: When a description contains more partition elements than it announced, the first one too
  many is written past the end of the item array, whatever the elements are.
\<close>

theorem xml_partition_overflow:
  assumes "xi_items (xml_of img s) = None" "0 < xml_cnt v" "xml_cnt v \<le> 100" "xml_cnt v < length as"
    and "\<And>tr. os_malloc os tr (int (208 * xml_cnt v))" "\<forall>a \<in> set as. attr_val a ''val'' = None"
  shows "\<exists>t. xml_tags os img ((''partion_cnt'', [(''val'', v)]) # map (\<lambda>a. (''partition'', a)) as) s =
     Stop (Fault ''modem_xml_start_tag: past the item array'') t"
proof -
  let ?tag = "map (\<lambda>a. (''partition'', a))"
  define bs where "bs = take (xml_cnt v) as"
  obtain a cs where as: "as = bs @ a # cs"
    using that [of "as ! xml_cnt v" "drop (Suc (xml_cnt v)) as"] assms(4) by (simp add: bs_def id_take_nth_drop)
  obtain u where u: "modem_xml_start_tag os img (''partion_cnt'', [(''val'', v)]) s = Ret () u" "item_cnt u = 0"
    "xml_of img u = (xml_of img s)\<lparr>xi_items := Some (replicate (xml_cnt v) zero_item)\<rparr>"
    using start_count [OF assms(1-3,5)] by blast
  have bs: "length bs = xml_cnt v" "\<forall>a \<in> set bs. attr_val a ''val'' = None" "attr_val a ''val'' = None"
    using assms(4,6) as unfolding bs_def by (simp, metis in_set_takeD, metis in_set_conv_decomp)
  obtain w where w: "xml_tags os img (?tag bs) u = Ret () w" "item_cnt w = xml_cnt v"
    "xml_of img w = (xml_of img u)\<lparr>xi_items := Some (put_items bs 0 (replicate (xml_cnt v) zero_item))\<rparr>"
    using xml_partitions [of img u "replicate (xml_cnt v) zero_item" bs os] u(2,3) bs(1,2) by auto
  obtain t where "modem_xml_start_tag os img (''partition'', a) w = Stop (Fault ''modem_xml_start_tag: past the item array'') t"
    using start_past_end [of img w "put_items bs 0 (replicate (xml_cnt v) zero_item)" a os] w(2,3) bs(3) by auto
  then have "xml_tags os img (?tag as) u = Stop (Fault ''modem_xml_start_tag: past the item array'') t"
    by (simp add: as xml_tags_append [OF w(1)] io_simps)
  with u(1) show ?thesis
    by (simp add: io_simps)
qed

theorem xml_partition_overflow_witness:
  "\<exists>t. xml_tags ok_os IMAGE_CP [(''partion_cnt'', [(''val'', ''1'')]), (''partition'', []), (''partition'', [])] xml_start =
     Stop (Fault ''modem_xml_start_tag: past the item array'') t"
proof -
  have cnt: "xml_cnt ''1'' = 1"
    by (simp add: xml_cnt_def strtoul0_def sign_of_def isspace_def digit_val_def ULONG_MAX_def)
  show ?thesis
    using xml_partition_overflow [of IMAGE_CP xml_start "''1''" "[[], []]" ok_os] cnt
    by (simp add: xml_start_def xml_of_def zero_xml_def ok_os_def attr_val_def xml_world.defs load_world.defs
        head_world.defs sec_world.defs ctl_world.defs)
qed

text \<open>
  The comment above the check of the partition count excludes 100; the code accepts it.
\<close>

theorem xml_count_100:
  "\<exists>t. modem_xml_start_tag ok_os IMAGE_CP (''partion_cnt'', [(''val'', ''100'')]) xml_start = Ret () t \<and>
     map_option length (xi_items (xml_of IMAGE_CP t)) = Some 100"
proof -
  have cnt: "xml_cnt ''100'' = 100"
    by (simp add: xml_cnt_def strtoul0_def sign_of_def isspace_def digit_val_def ULONG_MAX_def)
  show ?thesis
    using start_count [of IMAGE_CP xml_start "''100''" ok_os] cnt
    by (auto simp: xml_start_def xml_of_def zero_xml_def ok_os_def xml_world.defs load_world.defs
        head_world.defs sec_world.defs ctl_world.defs)
qed

lemma get_set_load_value:
  "img = IMAGE_CP \<or> img = IMAGE_SP \<or> FEATURE_EXTERNAL_MODEM cfg \<and> img = IMAGE_DP \<Longrightarrow>
   modem_get_load_value cfg img (set_load_value img li s) = Some li"
  by (auto simp: modem_get_load_value_def set_load_value_def IMAGE_CP_def IMAGE_SP_def IMAGE_DP_def)

lemma modem_get_load_value_trace [simp]:
  "modem_get_load_value cfg img (s\<lparr>trace := tr\<rparr>) = modem_get_load_value cfg img s"
  by (simp add: modem_get_load_value_def)

lemma xml_ready_table:
  "length (load_table (xml_ready x drv ctl li)) = length (load_table li)"
  "ioctrl_is_ok (xml_ready x drv ctl li) \<Longrightarrow> a \<in> set (load_table (xml_ready x drv ctl li)) \<Longrightarrow>
     path_w a = strncpy (xi_io_ctrol x) MAX_PATH_LEN"
  by (auto simp: xml_ready_def Let_def split: if_splits)

lemma wp_to_load_info:
  "wp (modem_xml_to_load_info os cfg img) (\<lambda>r t. r = 0 \<longrightarrow> (\<exists>items li drv ctl. xi_items (xml_of img s) = Some items \<and>
      modem_get_load_value cfg img t = Some (xml_ready (xml_of img s) drv ctl (xml_load_value (xml_of img s) items li))))
     (\<lambda>_ _. True) s"
proof (cases "img = IMAGE_CP \<or> img = IMAGE_SP \<or> FEATURE_EXTERNAL_MODEM cfg \<and> img = IMAGE_DP")
  case False
  then show ?thesis
    by (simp add: modem_xml_to_load_info_def wp_rules)
next
  case True
  then show ?thesis
    using get_set_load_value [OF True]
    by (simp add: modem_xml_to_load_info_def wp_rules Let_def split: option.split) blast
qed

text \<open>
  A load table taken from XML has one entry per item, and once the control device is
  used every entry is written through that one device, so all of them select the same slot
  of the verification table.
\<close>

theorem xml_ioctrl_one_slot:
  assumes "modem_xml_to_load_info os cfg img s = Ret 0 t" "modem_get_load_value cfg img t = Some li"
    and "ioctrl_is_ok li"
  shows "map_option length (xi_items (xml_of img s)) = Some (length (load_table li)) \<and>
     (\<forall>a \<in> set (load_table li). kbc_slot_of cfg (path_w a) =
        kbc_slot_of cfg (strncpy (xi_io_ctrol (xml_of img s)) MAX_PATH_LEN))"
  using wp_to_load_info [of os cfg img s] assms
  by (auto simp: wp_def xml_ready_table xml_load_value_def)

theorem xml_ioctrl_one_slot_witness:
  "\<exists>t li. modem_xml_to_load_info ok_os base_config IMAGE_CP
       (xml_start\<lparr>cp_xml_info := zero_xml\<lparr>xi_items := Some [zero_item, zero_item], xi_io_ctrol := ''/dev/modem''\<rparr>\<rparr>) =
       Ret 0 t \<and> modem_get_load_value base_config IMAGE_CP t = Some li \<and> length (load_table li) = 2 \<and>
     (\<forall>a \<in> set (load_table li). kbc_slot_of base_config (path_w a) = Some Slot_modem)"
proof -
  let ?s = "xml_start\<lparr>cp_xml_info := zero_xml\<lparr>xi_items := Some [zero_item, zero_item], xi_io_ctrol := ''/dev/modem''\<rparr>\<rparr>"
  have slot: "kbc_slot_of base_config (strncpy ''/dev/modem'' MAX_PATH_LEN) = Some Slot_modem"
    by (simp add: kbc_slot_of_def has_substr_def base_config_def MODEM_BANK_def strncpy_def cstr_def MAX_PATH_LEN_def)
  have "\<exists>t li. modem_xml_to_load_info ok_os base_config IMAGE_CP ?s = Ret 0 t \<and>
      modem_get_load_value base_config IMAGE_CP t = Some li \<and> ioctrl_is_ok li"
    by (simp add: modem_xml_to_load_info_def syscall_defs io_simps Let_def xml_load_value_def xml_of_def xml_ready_def
        modem_get_load_value_def set_load_value_def ok_os_def zero_xml_def)
  then obtain t li where t: "modem_xml_to_load_info ok_os base_config IMAGE_CP ?s = Ret 0 t"
    "modem_get_load_value base_config IMAGE_CP t = Some li" "ioctrl_is_ok li" by blast
  show ?thesis
    using xml_ioctrl_one_slot [OF t] t(1,2) slot by (auto simp: xml_of_def)
qed

end
