(* ===== verification/Event_Monitor.thy ===== *)
theory Event_Monitor
  imports Xml_Parse
begin

text \<open>
  \<open>eventmonitor.c\<close>: the table of uevent handlers, the parser of a kernel uevent and its
  dispatch to a handler thread. The locale \<open>handler_table\<close> states what the table promises
  to the components that register handlers.
\<close>

section \<open>Handlers and events\<close>

text \<open>The two handlers the program registers; their data pointer is always null.\<close>

datatype event_handler = Modem_event_triger | Modem_pcie_event

record event_client =
  ec_subsystem :: "string option"
  ec_handler :: "event_handler option"

definition no_client :: event_client where
  "no_client = \<lparr>ec_subsystem = None, ec_handler = None\<rparr>"

definition MAX_EVENT_CLIENT :: nat where "MAX_EVENT_CLIENT = 10"

record event_world = xml_world +
  g_event_client :: "event_client list"

definition no_clients :: "event_client list" where
  "no_clients = replicate MAX_EVENT_CLIENT no_client"

definition event_start :: event_world where
  "event_start = xml_world.extend xml_start \<lparr>g_event_client = no_clients\<rparr>"

record BaseUEventInfo =
  ev_action :: "string option"
  ev_path :: "string option"
  ev_subsystem :: "string option"
  ev_firmware :: "string option"
  ev_modem_event :: "string option"
  ev_modem_stat :: int
  ev_major :: int
  ev_minor :: int

section \<open>The handler table\<close>

text \<open>The index of the first entry with a property; the loops of all three operations.\<close>

fun first_index :: "('a \<Rightarrow> bool) \<Rightarrow> 'a list \<Rightarrow> nat option" where
  "first_index P [] = None"
| "first_index P (x # xs) = (if P x then Some 0 else map_option Suc (first_index P xs))"

definition register_client ::
  "event_client list \<Rightarrow> string \<Rightarrow> event_handler \<Rightarrow> int \<times> event_client list" where
  "register_client cl subsystem handler =
     (case first_index (\<lambda>c. ec_handler c = None) cl of
        None \<Rightarrow> (- 1, cl)
      | Some i \<Rightarrow> (0, cl[i := \<lparr>ec_subsystem = Some subsystem, ec_handler = Some handler\<rparr>]))"

definition unregister_client :: "event_client list \<Rightarrow> string \<Rightarrow> event_client list" where
  "unregister_client cl subsystem =
     (case first_index (\<lambda>c. ec_subsystem c = Some subsystem) cl of
        None \<Rightarrow> cl
      | Some i \<Rightarrow> cl[i := no_client])"

definition client_handler :: "event_client list \<Rightarrow> string \<Rightarrow> event_handler option" where
  "client_handler cl subsystem =
     (case first_index (\<lambda>c. ec_subsystem c = Some subsystem) cl of
        None \<Rightarrow> None
      | Some i \<Rightarrow> ec_handler (cl ! i))"

definition modem_event_register :: "string \<Rightarrow> event_handler \<Rightarrow> ('z event_world_scheme, int) io" where
  "modem_event_register subsystem handler =
     bind (gets (\<lambda>s. register_client (g_event_client s) subsystem handler)) (\<lambda>(r, cl).
     seq (modify (\<lambda>s. s\<lparr>g_event_client := cl\<rparr>)) (return r))"

definition modem_event_unregister :: "string \<Rightarrow> ('z event_world_scheme, unit) io" where
  "modem_event_unregister subsystem =
     modify (\<lambda>s. s\<lparr>g_event_client := unregister_client (g_event_client s) subsystem\<rparr>)"

section \<open>Parsing\<close>

definition no_event :: BaseUEventInfo where
  "no_event = \<lparr>ev_action = None, ev_path = None, ev_subsystem = None, ev_firmware = None,
     ev_modem_event = None, ev_modem_stat = - 1, ev_major = - 1, ev_minor = - 1\<rparr>"

definition parse_field :: "BaseUEventInfo \<Rightarrow> string \<Rightarrow> BaseUEventInfo" where
  "parse_field Info msg =
     (if prefix ''ACTION='' msg then Info\<lparr>ev_action := Some (drop 7 msg)\<rparr>
      else if prefix ''DEVPATH='' msg then Info\<lparr>ev_path := Some (drop 8 msg)\<rparr>
      else if prefix ''SUBSYSTEM='' msg then Info\<lparr>ev_subsystem := Some (drop 10 msg)\<rparr>
      else if prefix ''FIRMWARE='' msg then Info\<lparr>ev_firmware := Some (drop 9 msg)\<rparr>
      else if prefix ''MAJOR='' msg then Info\<lparr>ev_major := atoi (drop 6 msg)\<rparr>
      else if prefix ''MINOR='' msg then Info\<lparr>ev_minor := atoi (drop 6 msg)\<rparr>
      else if prefix ''MODEM_EVENT='' msg then Info\<lparr>ev_modem_event := Some (drop 12 msg)\<rparr>
      else if prefix ''MODEM_STAT='' msg then Info\<lparr>ev_modem_stat := atoi (drop 11 msg)\<rparr>
      else Info)"

text \<open>The loop over the strings of the message, up to the first empty one.\<close>

function parse_fields :: "bytes \<Rightarrow> BaseUEventInfo \<Rightarrow> BaseUEventInfo" where
  "parse_fields msg Info =
     (if cstr msg = [] then Info
      else parse_fields (drop (Suc (length (cstr msg))) msg) (parse_field Info (cstr msg)))"
  by pat_completeness auto
termination
  by (relation "measure (\<lambda>(msg, Info). length msg)")
    (auto simp: cstr_def intro!: diff_less split: if_splits dest: length_greater_0_conv [THEN iffD1])

declare parse_fields.simps [simp del]

definition parse_event :: "bytes \<Rightarrow> BaseUEventInfo" where
  "parse_event msg = parse_fields msg no_event"

section \<open>Dispatch\<close>

text \<open>
  The handler for an event, if any, is run by a thread of its own. Comparing a registered
  subsystem with the null pointer of an event without one crashes.
\<close>

definition modem_event_process ::
  "os \<Rightarrow> BaseUEventInfo \<Rightarrow> ('z event_world_scheme, event_handler option) io" where
  "modem_event_process os info =
     bind (gets g_event_client) (\<lambda>cl.
     case ev_subsystem info of
       None \<Rightarrow> if list_ex (\<lambda>c. ec_subsystem c \<noteq> None) cl
               then stop (Fault ''modem_event_process: strcmp with NULL'') else return None
     | Some sub \<Rightarrow>
       (case client_handler cl sub of
          None \<Rightarrow> return None
        | Some h \<Rightarrow>
          bind (pthread_create os ''uevent_handle_thread'') (\<lambda>ok.
          return (if ok then Some h else None))))"

definition UEVENT_MSG_LEN :: nat where "UEVENT_MSG_LEN = 4096"

text \<open>
  The receive loop, on the messages the socket delivers before it runs dry; the handlers
  started, in order.
\<close>

fun modem_event_device_fd ::
  "os \<Rightarrow> bytes list \<Rightarrow> ('z event_world_scheme, (event_handler \<times> BaseUEventInfo) list) io" where
  "modem_event_device_fd os [] = return []"
| "modem_event_device_fd os (msg # msgs) =
     (if msg = [] then return []
      else if UEVENT_MSG_LEN \<le> length msg then modem_event_device_fd os msgs
      else bind (sys_malloc os 56) (\<lambda>ok.
        if \<not> ok then modem_event_device_fd os msgs
        else let info = parse_event (msg @ [NUL, NUL]) in
          bind (modem_event_process os info) (\<lambda>h.
          bind (modem_event_device_fd os msgs) (\<lambda>hs.
          return (case h of None \<Rightarrow> hs | Some x \<Rightarrow> (x, info) # hs)))))"

section \<open>The contract of the table\<close>

locale handler_table =
  fixes reg :: "'t \<Rightarrow> string \<Rightarrow> 'h \<Rightarrow> int \<times> 't"
    and unreg :: "'t \<Rightarrow> string \<Rightarrow> 't"
    and handler :: "'t \<Rightarrow> string \<Rightarrow> 'h option"
    and table_ok :: "'t \<Rightarrow> bool"
    and free :: "'t \<Rightarrow> nat"
    and empty_table :: 't
  assumes empty_ok: "table_ok empty_table"
    and empty_handler: "handler empty_table x = None"
    and reg_ok: "table_ok t \<Longrightarrow> table_ok (snd (reg t x h))"
    and unreg_ok: "table_ok t \<Longrightarrow> table_ok (unreg t x)"
    and reg_handler: "table_ok t \<Longrightarrow> 0 < free t \<Longrightarrow> handler t x = None \<Longrightarrow>
      fst (reg t x h) = 0 \<and> free (snd (reg t x h)) = free t - 1 \<and>
      handler (snd (reg t x h)) y = (if y = x then Some h else handler t y)"
    and reg_full: "free t = 0 \<Longrightarrow> reg t x h = (- 1, t)"
    and unreg_handler: "table_ok t \<Longrightarrow> y \<noteq> x \<Longrightarrow> handler (unreg t x) y = handler t y"
begin

lemma two_clients:
  assumes "1 < free empty_table" "x \<noteq> y"
  shows "handler (snd (reg (snd (reg empty_table x h)) y k)) x = Some h"
    "handler (snd (reg (snd (reg empty_table x h)) y k)) y = Some k"
proof -
  let ?t = "snd (reg empty_table x h)"
  have t: "table_ok ?t" "0 < free ?t" "handler ?t y = None" "handler ?t x = Some h"
    using assms reg_ok [OF empty_ok] reg_handler [OF empty_ok, of x h] by (auto simp: empty_handler)
  from reg_handler [OF t(1-3), of k] t(4) assms(2) show
    "handler (snd (reg ?t y k)) x = Some h" "handler (snd (reg ?t y k)) y = Some k"
    by simp_all
qed

lemma others_survive:
  assumes "table_ok t" "handler t y = Some h" "x \<noteq> y"
  shows "handler (unreg t x) y = Some h"
  using assms unreg_handler by metis

end

lemma find_append: "find P (xs @ ys) = (case find P xs of None \<Rightarrow> find P ys | Some x \<Rightarrow> Some x)"
  by (induction xs) auto

lemma first_index_split:
  "first_index P xs = Some i \<Longrightarrow>
   i < length xs \<and> P (xs ! i) \<and> find P (take i xs) = None"
  by (induction xs arbitrary: i) (auto split: if_splits)

lemma first_index_None: "first_index P xs = None \<longleftrightarrow> find P xs = None"
  by (induction xs) auto

lemma client_handler_find:
  "client_handler cl x = (case find (\<lambda>c. ec_subsystem c = Some x) cl of None \<Rightarrow> None | Some c \<Rightarrow> ec_handler c)"
proof (cases "first_index (\<lambda>c. ec_subsystem c = Some x) cl")
  case None
  then show ?thesis
    using first_index_None [of "\<lambda>c. ec_subsystem c = Some x" cl] by (simp add: client_handler_def)
next
  case (Some i)
  then have i: "i < length cl" "ec_subsystem (cl ! i) = Some x"
    "find (\<lambda>c. ec_subsystem c = Some x) (take i cl) = None"
    using first_index_split [OF Some] by auto
  have "find (\<lambda>c. ec_subsystem c = Some x) (take i cl @ cl ! i # drop (Suc i) cl) = Some (cl ! i)"
    using i by (simp add: find_append)
  then show ?thesis
    using Some i(1) by (simp add: client_handler_def id_take_nth_drop [symmetric])
qed

definition clients_ok :: "event_client list \<Rightarrow> bool" where
  "clients_ok cl \<longleftrightarrow> length cl = MAX_EVENT_CLIENT \<and>
     list_all (\<lambda>c. ec_handler c = None \<longleftrightarrow> ec_subsystem c = None) cl"

definition free_clients :: "event_client list \<Rightarrow> nat" where
  "free_clients cl = length (filter (\<lambda>c. ec_handler c = None) cl)"

lemma list_all_update: "list_all P xs \<Longrightarrow> P x \<Longrightarrow> list_all P (xs[i := x])"
  by (auto simp: list_all_iff dest: set_update_subset_insert [THEN subsetD])

lemma find_update:
  assumes "i < length xs" "\<not> P (xs ! i)"
  shows "find P (xs[i := y]) = (if P y \<and> find P (take i xs) = None then Some y else find P xs)"
proof -
  have "find P xs = find P (take i xs @ xs ! i # drop (Suc i) xs)"
    using assms(1) by (simp add: id_take_nth_drop [symmetric])
  then show ?thesis
    using assms by (simp add: upd_conv_take_nth_drop find_append split: option.split)
qed

lemma register_spec:
  assumes "clients_ok cl" "0 < free_clients cl" "client_handler cl x = None"
  shows "fst (register_client cl x h) = 0 \<and> free_clients (snd (register_client cl x h)) = free_clients cl - 1 \<and>
     client_handler (snd (register_client cl x h)) y = (if y = x then Some h else client_handler cl y)"
proof -
  let ?new = "\<lparr>ec_subsystem = Some x, ec_handler = Some h\<rparr>"
  let ?sub = "\<lambda>z c. ec_subsystem c = Some z"
  have "find (\<lambda>c. ec_handler c = None) cl \<noteq> None"
    using assms(2) by (auto simp: free_clients_def find_None_iff filter_empty_conv)
  then obtain i where i: "first_index (\<lambda>c. ec_handler c = None) cl = Some i"
    using first_index_None [of "\<lambda>c. ec_handler c = None" cl] by auto
  note split = first_index_split [OF i]
  then have none: "ec_subsystem (cl ! i) = None"
    using assms(1) by (auto simp: clients_ok_def list_all_length)
  have "find (?sub x) cl = None"
    using assms(1,3) by (auto simp: client_handler_find clients_ok_def list_all_iff find_Some_iff split: option.splits)
  then have "find (?sub x) (take i cl) = None"
    by (auto simp: find_None_iff dest: in_set_takeD)
  then have lookup: "client_handler (cl[i := ?new]) y = (if y = x then Some h else client_handler cl y)"
    using none split by (simp add: client_handler_find find_update)
  have "free_clients cl = free_clients (take i cl @ cl ! i # drop (Suc i) cl)"
    using split by (simp add: id_take_nth_drop [symmetric])
  then have "free_clients cl = Suc (free_clients (cl[i := ?new]))"
    using split by (simp add: free_clients_def upd_conv_take_nth_drop)
  with lookup i show ?thesis
    by (simp add: register_client_def)
qed

lemma unregister_spec:
  "y \<noteq> x \<Longrightarrow> client_handler (unregister_client cl x) y = client_handler cl y"
  by (auto simp: unregister_client_def client_handler_find find_update no_client_def
      dest: first_index_split split: option.splits)

lemma register_clients_ok: "clients_ok cl \<Longrightarrow> clients_ok (snd (register_client cl x h))"
  by (auto simp: clients_ok_def register_client_def list_all_update split: option.split)

lemma unregister_clients_ok: "clients_ok cl \<Longrightarrow> clients_ok (unregister_client cl x)"
  by (auto simp: clients_ok_def unregister_client_def list_all_update no_client_def split: option.split)

lemma register_full: "free_clients cl = 0 \<Longrightarrow> register_client cl x h = (- 1, cl)"
  using first_index_None [of "\<lambda>c. ec_handler c = None" cl]
  by (auto simp: free_clients_def register_client_def find_None_iff filter_empty_conv split: option.split)

interpretation clients: handler_table register_client unregister_client client_handler clients_ok
  free_clients no_clients
proof
  show "clients_ok no_clients"
    by (simp add: clients_ok_def no_clients_def no_client_def list_all_iff)
  show "client_handler no_clients x = None" for x
    by (auto simp: client_handler_find no_clients_def no_client_def find_Some_iff split: option.split)
qed (simp_all add: register_clients_ok unregister_clients_ok register_spec register_full unregister_spec)

section \<open>Lemmas\<close>

lemma event_process_fd: "fd_clean (modem_event_process os info)"
  unfolding modem_event_process_def by (rule fd_cleanI) (rule track_intros fd_intros | simp)+

lemma event_register_fd: "fd_clean (modem_event_register x h)"
  unfolding modem_event_register_def case_prod_beta by (rule fd_cleanI) (rule track_intros | simp)+

text \<open>A message as the kernel sends it: strings, each with its terminator.\<close>

definition uevent_msg :: "string list \<Rightarrow> bytes" where
  "uevent_msg fs = concat (map (\<lambda>f. f @ [NUL]) fs)"

lemma parse_fields_msg:
  "\<forall>f \<in> set fs. f \<noteq> [] \<and> NUL \<notin> set f \<Longrightarrow>
   parse_fields (uevent_msg fs @ [NUL]) info = foldl parse_field info fs"
proof (induction fs arbitrary: info)
  case Nil
  then show ?case
    by (subst parse_fields.simps) (simp add: uevent_msg_def cstr_def)
next
  case (Cons f fs)
  then have "cstr (uevent_msg (f # fs) @ [NUL]) = f"
    using cstr_append_NUL [of f "uevent_msg fs @ [NUL]"] by (simp add: uevent_msg_def)
  with Cons show ?case
    by (subst parse_fields.simps) (simp add: uevent_msg_def)
qed

section \<open>Properties\<close>



text \<open>
  The modem and the PCI handler can both be registered, in a fresh table, and each
  subsystem's events reach its own handler; unregistering one leaves the other in place.
\<close>

theorem event_handlers_registered:
  "let t = snd (register_client (snd (register_client no_clients ''modem_ctrl'' Modem_event_triger)) ''pci'' Modem_pcie_event)
   in client_handler t ''modem_ctrl'' = Some Modem_event_triger \<and> client_handler t ''pci'' = Some Modem_pcie_event \<and>
      client_handler (unregister_client t ''pci'') ''modem_ctrl'' = Some Modem_event_triger"
proof -
  let ?t1 = "snd (register_client no_clients ''modem_ctrl'' Modem_event_triger)"
  let ?t = "snd (register_client ?t1 ''pci'' Modem_pcie_event)"
  have room: "1 < free_clients no_clients"
    by (simp add: free_clients_def no_clients_def no_client_def MAX_EVENT_CLIENT_def)
  have ok: "clients_ok ?t"
    by (intro clients.reg_ok clients.empty_ok)
  note two = clients.two_clients [OF room, of "''modem_ctrl''" "''pci''" Modem_event_triger Modem_pcie_event, simplified]
  from clients.others_survive [OF ok two(1), of "''pci''"] two show ?thesis
    by (simp add: Let_def)
qed

end
