(* ===== verification/Pcie_Control.thy ===== *)
theory Pcie_Control
  imports Event_Monitor
begin

text \<open>
  \<open>modem_pcie_control.c\<close>: finding the external modem's PCIe endpoint and its bridge in
  sysfs, removing and rescanning them, and the uevent handler that hands the new device files
  to the system user. The fixed 92-byte path buffers are filled with \<open>strncat\<close> and a wrong
  size; going past their end is a \<open>Fault\<close>.
\<close>

section \<open>State\<close>

record pcie_world = event_world +
  device_remove_path :: string
  bridge_remove_path :: string
  rescan_path :: string

definition pcie_start :: pcie_world where
  "pcie_start = event_world.extend event_start
     \<lparr>device_remove_path = [], bridge_remove_path = [], rescan_path = []\<rparr>"

definition MAX_EP_PATH_LEN :: nat where "MAX_EP_PATH_LEN = 128"

section \<open>Operations\<close>

definition modem_write_file :: "os \<Rightarrow> string \<Rightarrow> string \<Rightarrow> ('z ctl_world_scheme, int) io" where
  "modem_write_file os p str =
     bind (sys_open os p O_WRONLY) (\<lambda>fd.
     if fd < 0 then return (- 1)
     else bind (sys_write os fd str) (\<lambda>r.
       if r \<noteq> int (length str) then seq (sys_close fd) (return (- 2))
       else seq (sys_close fd) (return 0)))"

definition modem_chane_ep_device_owner :: "os \<Rightarrow> ('z pcie_world_scheme, unit) io" where
  "modem_chane_ep_device_owner os =
     bind modem_ctrl_get_boot_mode (\<lambda>m.
     if m \<noteq> BOOT_MODE_NORMAL then return ()
     else bind (gets rescan_path) (\<lambda>r.
       seq (sys_chown os r)
       (bind (gets device_remove_path) (\<lambda>d.
       seq (sys_chown os d)
       (bind (gets bridge_remove_path) (\<lambda>b.
       seq (sys_chown os b) (return ())))))))"

definition modem_match_something :: "os \<Rightarrow> string \<Rightarrow> string \<Rightarrow> string \<Rightarrow> ('z pcie_world_scheme, bool) io" where
  "modem_match_something os dir name prop =
     bind (property_get os prop []) (\<lambda>value.
     if value = [] then return False
     else bind (sys_open os (dir @ ''/'' @ name) O_RDONLY) (\<lambda>fd.
     if fd < 0 then return False
     else bind (sys_read os fd 19) (\<lambda>d.
       seq (sys_close fd)
       (return (d \<noteq> None \<and> d \<noteq> Some [] \<and>
          value = takeWhile (\<lambda>c. c \<noteq> CHR 0x0A \<and> c \<noteq> CHR 0x0D) (cstr (the d)))))))"

definition modem_find_ep_device :: "os \<Rightarrow> string \<Rightarrow> ('z pcie_world_scheme, bool) io" where
  "modem_find_ep_device os path =
     bind (sys_opendir os path) (\<lambda>dir. case dir of
       None \<Rightarrow> return False
     | Some _ \<Rightarrow>
       bind (modem_match_something os path ''vendor'' ''ro.vendor.modem.ep.vendor.id'') (\<lambda>v.
       if \<not> v then return False
       else bind (modem_match_something os path ''device'' ''ro.vendor.modem.ep.device.id'') (\<lambda>d.
       if \<not> d then return False
       else modem_match_something os path ''class'' ''ro.vendor.modem.ep.class.id'')))"

text \<open>The first scan: the name and path of the endpoint.\<close>

fun find_endpoint ::
  "os \<Rightarrow> string \<Rightarrow> (string \<times> bool) list \<Rightarrow> ('z pcie_world_scheme, (string \<times> string) option) io" where
  "find_endpoint os dir_path [] = return None"
| "find_endpoint os dir_path ((d_name, lnk) # es) =
     (if \<not> lnk then find_endpoint os dir_path es
      else if PROPERTY_VALUE_MAX \<le> length dir_path + length d_name
      then stop (Fault ''modem_init_ep_device_path: path overflow'')
      else bind (modem_find_ep_device os (dir_path @ d_name)) (\<lambda>ok.
        if ok then return (Some (strncpy d_name (MAX_EP_PATH_LEN - 1), dir_path @ d_name))
        else find_endpoint os dir_path es))"

text \<open>The second scan: the bridge is the device whose directory contains the endpoint.\<close>

fun find_bridge :: "os \<Rightarrow> string \<Rightarrow> string \<Rightarrow> (string \<times> bool) list \<Rightarrow> ('z pcie_world_scheme, string option) io" where
  "find_bridge os dir_path ep [] = return None"
| "find_bridge os dir_path ep ((d_name, lnk) # es) =
     (if \<not> lnk then find_bridge os dir_path ep es
      else bind (sys_access os (snprintf PROPERTY_VALUE_MAX [dir_path, d_name, ''/'', ep])) (\<lambda>ok.
        if ok then return (Some d_name) else find_bridge os dir_path ep es))"

definition modem_init_ep_device_path :: "os \<Rightarrow> ('z pcie_world_scheme, int) io" where
  "modem_init_ep_device_path os =
     bind (property_get os ''ro.vendor.modem.ep.device.path'' []) (\<lambda>p.
     if p = [] then return (- 1)
     else seq (modify (\<lambda>s. s\<lparr>rescan_path := p @ ''rescan''\<rparr>))
     (if PROPERTY_VALUE_MAX \<le> length p + length ''devices/''
      then stop (Fault ''modem_init_ep_device_path: dir_path overflow'')
      else let dir_path = p @ ''devices/'' in
        bind (sys_opendir os dir_path) (\<lambda>dir. case dir of
          None \<Rightarrow> return (- 2)
        | Some entries \<Rightarrow>
          bind (find_endpoint os dir_path entries) (\<lambda>e. case e of
            None \<Rightarrow> return 1
          | Some (ep, path) \<Rightarrow>
            seq (modify (\<lambda>s. s\<lparr>device_remove_path := snprintf MAX_EP_PATH_LEN [path, ''/'', ''remove'']\<rparr>))
            (bind (find_bridge os dir_path ep entries) (\<lambda>b. case b of
              None \<Rightarrow> return 1
            | Some br \<Rightarrow>
              seq (modify (\<lambda>s. s\<lparr>bridge_remove_path :=
                     snprintf MAX_EP_PATH_LEN [dir_path, br, ''/'', ''remove'']\<rparr>))
              (return 0)))))))"

definition modem_rescan_ep_device :: "os \<Rightarrow> ('z pcie_world_scheme, int) io" where
  "modem_rescan_ep_device os =
     seq (modem_chane_ep_device_owner os)
     (bind (gets device_remove_path) (\<lambda>d.
     bind (modem_write_file os d ''1'') (\<lambda>ret.
     if ret \<noteq> 0 then return ret
     else bind (gets bridge_remove_path) (\<lambda>b.
     bind (modem_write_file os b ''1'') (\<lambda>ret.
     if ret \<noteq> 0 then return ret
     else bind (gets rescan_path) (\<lambda>r.
     modem_write_file os r ''1''))))))"

text \<open>The backward scan of \<open>modem_pcie_event\<close>: the directory just above \<open>remove\<close>.\<close>

definition ep_dir_name :: "string \<Rightarrow> string" where
  "ep_dir_name path =
     (case strrchr path (CHR ''/'') of
        None \<Rightarrow> path
      | Some r \<Rightarrow>
          (let h = take (length path - length r) path in
           case strrchr h (CHR ''/'') of None \<Rightarrow> h | Some q \<Rightarrow> tl q))"

text \<open>An event without action or path makes \<open>strcmp\<close> or \<open>strstr\<close> read the null pointer.\<close>

definition modem_pcie_event :: "os \<Rightarrow> BaseUEventInfo \<Rightarrow> ('z pcie_world_scheme, unit) io" where
  "modem_pcie_event os info =
     (case ev_action info of
        None \<Rightarrow> stop (Fault ''modem_pcie_event: NULL action'')
      | Some action \<Rightarrow>
        if action \<noteq> ''add'' then return ()
        else bind (gets device_remove_path) (\<lambda>d.
          case ev_path info of
            None \<Rightarrow> stop (Fault ''modem_pcie_event: NULL path'')
          | Some path \<Rightarrow>
            do_if (has_substr path (ep_dir_name (strncpy d (MAX_EP_PATH_LEN - 1))))
              (modem_chane_ep_device_owner os)))"

definition modem_pcie_init :: "os \<Rightarrow> ('z pcie_world_scheme, unit) io" where
  "modem_pcie_init os =
     bind (modem_init_ep_device_path os) (\<lambda>r.
     if r \<noteq> 0 then return ()
     else seq (modem_chane_ep_device_owner os)
         (seq (modem_event_register ''pci'' Modem_pcie_event) (return ())))"

section \<open>Lemmas\<close>

lemma write_file_fd: "fd_clean (modem_write_file os p str)"
  unfolding modem_write_file_def by (rule fd_cleanI) (rule track_intros fd_intros | simp)+

lemma ep_owner_fd: "fd_clean (modem_chane_ep_device_owner os)"
  unfolding modem_chane_ep_device_owner_def ctl_defs
  by (rule fd_cleanI) (rule track_intros fd_intros | simp)+

lemma rescan_fd: "fd_clean (modem_rescan_ep_device os)"
  unfolding modem_rescan_ep_device_def
  by (rule fd_cleanI) (rule track_intros write_file_fd [THEN fd_cleanD] ep_owner_fd [THEN fd_cleanD] | simp)+

lemma match_fd: "fd_clean (modem_match_something os d n p)"
  unfolding modem_match_something_def by (rule fd_cleanI) (rule track_intros fd_intros | simp)+

lemma find_ep_fd: "fd_clean (modem_find_ep_device os p)"
  unfolding modem_find_ep_device_def
  by (rule fd_cleanI) (rule track_intros fd_intros match_fd [THEN fd_cleanD] | simp)+

lemma find_endpoint_fd: "tracks fd_step M (find_endpoint os d es) (\<lambda>_. M)"
  by (induction os d es rule: find_endpoint.induct)
    (auto intro!: track_intros find_ep_fd [THEN fd_cleanD])

lemma find_bridge_fd: "tracks fd_step M (find_bridge os d ep es) (\<lambda>_. M)"
  by (induction os d ep es rule: find_bridge.induct) (auto intro!: track_intros fd_intros)

lemma ep_path_fd: "fd_clean (modem_init_ep_device_path os)"
  unfolding modem_init_ep_device_path_def Let_def
  by (rule fd_cleanI)
    (rule track_intros fd_intros find_endpoint_fd find_bridge_fd | simp | split prod.split | intro allI impI)+

lemma pcie_init_fd: "fd_clean (modem_pcie_init os)"
  unfolding modem_pcie_init_def
  by (rule fd_cleanI)
    (rule track_intros ep_path_fd [THEN fd_cleanD] ep_owner_fd [THEN fd_cleanD] event_register_fd [THEN fd_cleanD] | simp)+

lemma strrchr_last: "x \<notin> set t \<Longrightarrow> strrchr (p @ x # t) x = Some (x # t)"
proof (induction p)
  case Nil
  then have "strrchr t x = None" by (simp add: cstr_simps)
  with Nil show ?case by simp
qed simp

section \<open>Properties\<close>

text \<open>
  The uevent handler recovers the endpoint's name from the path it saved: for a remove
  path \<open>dir/name/remove\<close> the name compared with the event's path is exactly \<open>name\<close>.
\<close>

theorem ep_dir_name_spec:
  assumes "CHR ''/'' \<notin> set nm"
  shows "ep_dir_name (dir @ ''/'' @ nm @ ''/remove'') = nm"
proof -
  have "strrchr ((dir @ ''/'' @ nm) @ CHR ''/'' # ''remove'') (CHR ''/'') = Some (CHR ''/'' # ''remove'')"
    by (rule strrchr_last) simp
  moreover have "strrchr (dir @ CHR ''/'' # nm) (CHR ''/'') = Some (CHR ''/'' # nm)"
    using assms by (rule strrchr_last)
  ultimately show ?thesis
    by (simp add: ep_dir_name_def)
qed

theorem ep_dir_name_spec_witness:
  "ep_dir_name (''/sys/bus/pci/devices'' @ ''/'' @ ''0000:11:00.0'' @ ''/remove'') = ''0000:11:00.0''"
  by (rule ep_dir_name_spec) simp

end
