(* ===== verification/Modem_Load.thy ===== *)
theory Modem_Load
  imports Nv_Read Simlock Pcie_Control
begin

text \<open>
  The loader of \<open>modem_load.c\<close>: initialising the load tables from defaults, XML and modem
  header, loading the images of a table, starting and stopping the processors, the
  handshake with an external modem through its remote flags, and \<open>load_modem_img\<close> in its
  internal and external variant.
\<close>

section \<open>Special entries of a table\<close>

text \<open>
  The part of the kernel command line that is passed to the modem: what follows the
  \<open>modem=\<close> word. Without a blank after that word the code goes on with a null pointer.
\<close>

definition cp_cmdline_of :: "string \<Rightarrow> string option" where
  "cp_cmdline_of cmdline =
     (case strstr cmdline ''modem='' of
        None \<Rightarrow> Some cmdline
      | Some r \<Rightarrow> map_option tl (strchr r (CHR '' '')))"

definition monitors_on :: "os \<Rightarrow> ('z ctl_world_scheme, unit) io" where
  "monitors_on os = seq (modem_ctrl_enable_busmonitor os True) (modem_ctrl_enable_dmc_mpu os True)"

definition modem_load_cp_cmdline ::
  "os \<Rightarrow> build_config \<Rightarrow> string \<Rightarrow> string \<Rightarrow> ('z ctl_world_scheme, int) io" where
  "modem_load_cp_cmdline os cfg fin fout =
     seq (modem_ctrl_enable_busmonitor os False)
     (seq (modem_ctrl_enable_dmc_mpu os False)
     (bind (sys_open os fin O_RDONLY) (\<lambda>fdin.
     if fdin < 0 then seq (monitors_on os) (return (- 1))
     else bind (sys_read os fdin (CPCMDLINE_SIZE - 1)) (\<lambda>d.
     let cmdline = (case d of None \<Rightarrow> [] | Some r \<Rightarrow> cstr r) in
     case cp_cmdline_of cmdline of
       None \<Rightarrow> stop (Fault ''modem_load_cp_cmdline: no blank after modem='')
     | Some str0 \<Rightarrow>
       bind (if SIMLOCK_AP_READ_EFUSE cfg \<and> \<not> has_substr cmdline ''calibration=''
             then add_spuk_cmdline os str0 else return str0) (\<lambda>str.
       if CPCMDLINE_SIZE \<le> length cmdline - length str0 + length str
       then stop (Fault ''add_spuk_cmdline: past the command line buffer'')
       else bind (sys_open os fout O_WRONLY) (\<lambda>fdout.
       if fdout < 0 then seq (sys_close fdin) (seq (monitors_on os) (return (- 1)))
       else bind (sys_write os fdout (str @ [NUL])) (\<lambda>wsize.
         seq (monitors_on os)
         (seq (sys_close fdin)
         (seq (sys_close fdout)
         (return wsize))))))))))"

definition modem_load_cp_boot_code :: "os \<Rightarrow> string \<Rightarrow> ('z head_world_scheme, int) io" where
  "modem_load_cp_boot_code os fout =
     bind (modem_head_get_boot_code 512) (\<lambda>code.
     bind (sys_open os fout O_WRONLY) (\<lambda>fdout.
     if fdout < 0 then return (- 1)
     else bind (sys_write os fdout code) (\<lambda>wsize.
       seq (sys_close fdout)
       (return wsize))))"

definition modem_load_cp_nv :: "os \<Rightarrow> string \<Rightarrow> string \<Rightarrow> ('z ctl_world_scheme, int) io" where
  "modem_load_cp_nv os rd wr = read_nv_partition os (mstrncpy2 rd ''1'') (mstrncpy2 rd ''2'') wr"

section \<open>Loading a table\<close>

definition load_entry ::
  "os \<Rightarrow> build_config \<Rightarrow> secure_params \<Rightarrow> load_value \<Rightarrow> nat \<Rightarrow> image_load \<Rightarrow> ('z head_world_scheme, int) io" where
  "load_entry os cfg sp load i t =
     seq (do_if (ioctrl_is_ok load) (modem_set_write_region os (io_ctrl load) (of_nat i)))
     (if GET_FLAG (img_flag t) CMDLINE_FLAG
      then seq (modem_load_cp_cmdline os cfg ''/proc/cmdline'' (path_w t)) (return 0)
      else if GET_FLAG (img_flag t) NV_FLAG
      then seq (modem_load_cp_nv os (path_r t) (path_w t)) (return 0)
      else if GET_FLAG (img_flag t) BOOT_CODE
      then seq (modem_load_cp_boot_code os (path_w t)) (return 0)
      else if any_secure cfg \<and> GET_FLAG (img_flag t) SECURE_FLAG
      then secure_boot_load_img os cfg sp t
      else bind (modem_get_patiton_info os t) (\<lambda>(load_offset, load_size).
        modem_load_image os t (sint load_offset) 0 (ucast load_size)))"

definition to_load :: "u32 \<Rightarrow> u32 \<Rightarrow> image_load \<Rightarrow> bool" where
  "to_load load_flag skip_flag t =
     (img_size t \<noteq> 0 \<and> \<not> has_bits (img_flag t) skip_flag \<and> has_bits (img_flag t) load_flag)"

fun load_entries ::
  "os \<Rightarrow> build_config \<Rightarrow> secure_params \<Rightarrow> load_value \<Rightarrow> u32 \<Rightarrow> u32 \<Rightarrow> nat \<Rightarrow> image_load list \<Rightarrow> ('z head_world_scheme, int) io" where
  "load_entries os cfg sp load lf sf i [] = return 0"
| "load_entries os cfg sp load lf sf i (t # ts) =
     (if to_load lf sf t
      then bind (load_entry os cfg sp load i t) (\<lambda>r.
           bind (load_entries os cfg sp load lf sf (Suc i) ts) (\<lambda>rs. return (r + rs)))
      else load_entries os cfg sp load lf sf (Suc i) ts)"

definition load_img_from_table ::
  "os \<Rightarrow> build_config \<Rightarrow> secure_params \<Rightarrow> load_value \<Rightarrow> u32 \<Rightarrow> u32 \<Rightarrow> ('z head_world_scheme, int) io" where
  "load_img_from_table os cfg sp load load_flag skip_flag =
     load_entries os cfg sp load load_flag skip_flag 0 (load_table load)"

section \<open>Starting and stopping\<close>

definition modem_load_run :: "os \<Rightarrow> bool \<Rightarrow> load_value \<Rightarrow> ('z ctl_world_scheme, unit) io" where
  "modem_load_run os b_run load =
     (if ioctrl_is_ok load then
        (if b_run then seq (modem_ioctrl_start os (io_ctrl load)) (seq (modem_unlock_write os (io_ctrl load)) (return ()))
         else seq (modem_lock_write os (io_ctrl load)) (seq (modem_ioctrl_stop os (io_ctrl load)) (return ())))
      else do_if (drv_is_ok load)
        (write_proc_file os (if b_run then start_path load else stop_path load) 0 ''1''))"

definition modem_load_each :: "os \<Rightarrow> build_config \<Rightarrow> bool \<Rightarrow> u32 \<Rightarrow> ('z load_world_scheme, unit) io" where
  "modem_load_each os cfg b_run load_type =
     seq (do_if (has_bits load_type LOAD_SP_IMG)
       (bind (gets sp_load_info) (modem_load_run os b_run)))
     (seq (do_if (FEATURE_EXTERNAL_MODEM cfg \<and> has_bits load_type LOAD_DP_IMG)
       (bind (gets dp_load_info) (modem_load_run os b_run)))
     (do_if (has_bits load_type (LOAD_MODEM_IMG OR LOAD_MINIAP_IMG))
       (bind (gets cp_load_info) (modem_load_run os b_run))))"

definition modem_load_stop :: "os \<Rightarrow> build_config \<Rightarrow> u32 \<Rightarrow> ('z load_world_scheme, unit) io" where
  "modem_load_stop os cfg load_type = modem_load_each os cfg False load_type"

definition modem_load_start :: "os \<Rightarrow> build_config \<Rightarrow> u32 \<Rightarrow> ('z load_world_scheme, unit) io" where
  "modem_load_start os cfg load_type = modem_load_each os cfg True load_type"

section \<open>Load information for the driver\<close>

definition modem_convert_loadinfo :: "load_value \<Rightarrow> modem_load_info option" where
  "modem_convert_loadinfo v =
     (if MAX_REGION_CNT < length (load_table v) \<or> load_table v = [] then None
      else Some \<lparr>region_cnt = of_nat (length (load_table v)), li_modem_base = modem_base v,
        li_modem_size = ucast (modem_size v), li_all_base = all_base v, li_all_size = ucast (all_size v),
        regions = map (\<lambda>t. \<lparr>reg_address = img_addr t, reg_size = img_size t,
          reg_name = strncpy (img_name t) MAX_REGION_NAME_LEN\<rparr>) (load_table v)\<rparr>)"

definition modem_load_do_set_load_info :: "os \<Rightarrow> load_value \<Rightarrow> ('z ctl_world_scheme, unit) io" where
  "modem_load_do_set_load_info os load =
     (if ioctrl_is_ok load then
        (case modem_convert_loadinfo load of
           None \<Rightarrow> return ()
         | Some info \<Rightarrow>
           seq (modem_lock_write os (io_ctrl load))
           (seq (modem_set_load_info os (io_ctrl load) info)
           (seq (modem_unlock_write os (io_ctrl load)) (return ()))))
      else return ())"

definition modem_load_set_load_info :: "os \<Rightarrow> build_config \<Rightarrow> ('z load_world_scheme, unit) io" where
  "modem_load_set_load_info os cfg =
     seq (bind (gets sp_load_info) (modem_load_do_set_load_info os))
     (do_if (\<not> FEATURE_REMOVE_SPRD_MODEM cfg)
       (seq (bind (gets cp_load_info) (modem_load_do_set_load_info os))
       (do_if (FEATURE_EXTERNAL_MODEM cfg)
         (bind (gets dp_load_info) (modem_load_do_set_load_info os)))))"

definition modem_load_assert_modem :: "os \<Rightarrow> ('z load_world_scheme, unit) io" where
  "modem_load_assert_modem os =
     bind (gets cp_load_info) (\<lambda>cp. do_if (ioctrl_is_ok cp) (modem_ioctrl_assert os (io_ctrl cp)))"

definition init_modem_img_info ::
  "os \<Rightarrow> build_config \<Rightarrow> secure_params \<Rightarrow> xml_env \<Rightarrow> ('z xml_world_scheme, int) io" where
  "init_modem_img_info os cfg sp xe =
     seq (do_if (any_secure cfg) (secure_boot_init os cfg))
     (seq (modem_default_init_load_info os cfg)
     (seq (modem_xml_init_load_info os cfg xe)
     (bind (gets cp_load_info) (\<lambda>cp.
     bind (modem_head_correct_load_info os cfg sp cp) (\<lambda>(_, cp').
     seq (modify (\<lambda>s. s\<lparr>cp_load_info := cp'\<rparr>))
     (seq (modem_load_set_load_info os cfg)
     (return 0)))))))"

section \<open>The handshake with an external modem\<close>

text \<open>Up to 101 looks at the remote flags, 100 ms apart.\<close>

function wait_remote_loop :: "os \<Rightarrow> string \<Rightarrow> u32 \<Rightarrow> nat \<Rightarrow> ('z ctl_world_scheme, bool) io" where
  "wait_remote_loop os ctl wait_bit cnt =
     seq (modem_lock_read os ctl)
     (bind (modem_get_remote_flag os ctl) (\<lambda>flag.
     seq (modem_unlock_read os ctl)
     (if has_bits flag wait_bit then return True
      else if cnt = 0 then return False
      else seq (sys_usleep (100 * 1000)) (wait_remote_loop os ctl wait_bit (cnt - 1)))))"
  by pat_completeness auto
termination
  by (relation "measure (\<lambda>(os, ctl, wait_bit, cnt). cnt)") auto

declare wait_remote_loop.simps [simp del]

definition modem_load_wait_remote :: "os \<Rightarrow> load_value \<Rightarrow> u32 \<Rightarrow> ('z ctl_world_scheme, bool) io" where
  "modem_load_wait_remote os load_info wait_bit =
     (if \<not> ioctrl_is_ok load_info then return True
      else wait_remote_loop os (io_ctrl load_info) wait_bit 100)"

definition load_spl_img :: "os \<Rightarrow> build_config \<Rightarrow> secure_params \<Rightarrow> ('z load_world_scheme, int) io" where
  "load_spl_img os cfg sp =
     bind (gets cp_load_info) (\<lambda>cp.
     if \<not> ioctrl_is_ok cp then return (- 2)
     else seq (modem_lock_write os (io_ctrl cp))
     (seq (modem_set_remote_flag os (io_ctrl cp) REMOTE_CLEAR_FLAG)
     (bind (load_img_from_table os cfg sp cp SPL_IMG_FLAG NONE_IMAG_FLAG) (\<lambda>r.
     if r \<noteq> 0 then seq (modem_lock_write os (io_ctrl cp)) (return (- 1))
     else seq (modem_set_remote_flag os (io_ctrl cp) (SPL_IMAGE_DONE_FLAG OR MODEM_WARM_RESET_FLAG))
         (seq (modem_unlock_write os (io_ctrl cp))
         (return 0))))))"

section \<open>Loading everything\<close>

text \<open>The service processor part of the external variant.\<close>

definition load_sp_ext :: "os \<Rightarrow> build_config \<Rightarrow> secure_params \<Rightarrow> ('z load_world_scheme, unit) io" where
  "load_sp_ext os cfg sp =
     seq (do_if (kbc_secure cfg) (seq (secure_boot_set_flag LOAD_SP_IMG) (secure_boot_unlock_ddr os)))
     (seq (modem_load_stop os cfg LOAD_SP_IMG)
     (seq (bind (gets sp_load_info) (\<lambda>li. do_if (drv_is_ok li \<or> ioctrl_is_ok li)
        (load_img_from_table os cfg sp li SP_IMG_FLAG NONE_IMAG_FLAG)))
     (seq (modem_load_start os cfg LOAD_SP_IMG)
     (do_if (any_secure cfg) (secure_boot_verify_all os cfg)))))"

text \<open>
  The second stage: clear the remote flags, load the SPL and wait for the memory of the
  external modem. The result says whether loading may go on.
\<close>

definition load_spl_stage :: "os \<Rightarrow> build_config \<Rightarrow> secure_params \<Rightarrow> u32 \<Rightarrow> ('z load_world_scheme, bool) io" where
  "load_spl_stage os cfg sp load_type =
     bind (gets cp_load_info) (\<lambda>cp.
     if \<not> (ioctrl_is_ok cp \<and> load_type \<noteq> 0) then return True
     else seq (modem_set_remote_flag os (io_ctrl cp) REMOTE_CLEAR_FLAG)
     (if \<not> has_bits load_type LOAD_MINIAP_IMG then return True
      else bind (load_img_from_table os cfg sp cp SPL_IMG_FLAG NONE_IMAG_FLAG) (\<lambda>r.
        if r \<noteq> 0 then return False
        else seq (modem_set_remote_flag os (io_ctrl cp) SPL_IMAGE_DONE_FLAG)
            (modem_load_wait_remote os cp REMOTE_DDR_READY_FLAG))))"

text \<open>The images of the application processor inside the modem; again whether to go on.\<close>

definition load_miniap_stage :: "os \<Rightarrow> build_config \<Rightarrow> secure_params \<Rightarrow> ('z pcie_world_scheme, bool) io" where
  "load_miniap_stage os cfg sp =
     bind (gets cp_load_info) (\<lambda>cp.
     bind (load_img_from_table os cfg sp cp (SML_IMG_FLAG OR UBOOT_IMG_FLAG) NONE_IMAG_FLAG) (\<lambda>r.
     seq (do_if (r = 0) (modem_set_remote_flag os (io_ctrl cp) UBOOT_IMAGE_DONE_FLAG))
     (bind (load_img_from_table os cfg sp cp BOOT_IMG_FLAG NONE_IMAG_FLAG) (\<lambda>r.
     seq (do_if (r = 0) (modem_set_remote_flag os (io_ctrl cp) BOOT_IMAGE_DONE_FLAG))
     (seq (do_if (FEATURE_PCIE_RESCAN cfg) (modem_clear_remote_flag os (io_ctrl cp) EP_SET_BAR_DONE_FLAG))
     (bind (load_img_from_table os cfg sp cp MODEM_HEAD_IMG_FLAG NONE_IMAG_FLAG) (\<lambda>r.
     if r \<noteq> 0 then return True
     else seq (modem_set_remote_flag os (io_ctrl cp) MODEM_HEAD_DONE_FLAG)
     (if \<not> FEATURE_PCIE_RESCAN cfg then return True
      else bind (modem_load_wait_remote os cp EP_SET_BAR_DONE_FLAG) (\<lambda>ok.
        if \<not> ok then return True
        else bind (modem_rescan_ep_device os) (\<lambda>ret.
          if ret \<noteq> 0 then return False
          else seq (modem_clear_remote_flag os (io_ctrl cp) EP_RESCAN_DONE_FLAG) (return True)))))))))))"

text \<open>After a failed stage both \<open>start_img\<close> and \<open>load_type\<close> are zero.\<close>

definition load_modem_img_ext ::
  "os \<Rightarrow> build_config \<Rightarrow> secure_params \<Rightarrow> u32 \<Rightarrow> ('z pcie_world_scheme, int) io" where
  "load_modem_img_ext os cfg sp load_type0 =
     (let lt = (if FEATURE_REMOVE_SPRD_MODEM cfg then LOAD_SP_IMG else load_type0);
          si = (if has_bits lt LOAD_SP_IMG then lt AND NOT LOAD_SP_IMG else lt) in
      seq (modem_ctrl_enable_wake_lock os True)
      (seq (modem_ctrl_set_modem_state MODEM_STATE_LOADING)
      (seq (do_if (has_bits lt LOAD_SP_IMG) (load_sp_ext os cfg sp))
      (seq (modem_load_stop os cfg si)
      (seq (do_if (has_bits lt LOAD_DP_IMG)
         (bind (gets dp_load_info) (\<lambda>li. do_if (drv_is_ok li \<or> ioctrl_is_ok li)
           (load_img_from_table os cfg sp li SP_IMG_FLAG NONE_IMAG_FLAG))))
      (bind (load_spl_stage os cfg sp lt) (\<lambda>go.
      let lt = (if go then lt else 0); si = (if go then si else 0) in
      seq (do_if (has_bits lt LOAD_AGDSP_IMG)
         (bind (gets cp_load_info) (\<lambda>cp. load_img_from_table os cfg sp cp AUDIO_IMG_FLAG NONE_IMAG_FLAG)))
      (bind (gets cp_load_info) (\<lambda>cp.
      bind (if has_bits lt LOAD_MINIAP_IMG \<and> ioctrl_is_ok cp then load_miniap_stage os cfg sp else return True) (\<lambda>go.
      let lt = (if go then lt else 0); si = (if go then si else 0) in
      seq (do_if (has_bits lt LOAD_MODEM_IMG)
         (bind (load_img_from_table os cfg sp cp MODEM_IMG_FLAG MODEM_HEAD_IMG_FLAG) (\<lambda>r.
          do_if (r = 0 \<and> ioctrl_is_ok cp) (modem_set_remote_flag os (io_ctrl cp) MODEM_IMAGE_DONE_FLAG))))
      (seq (modem_load_start os cfg si)
      (seq (modem_ctrl_set_modem_state MODEM_STATE_BOOTING)
      (seq (modem_ctrl_enable_wake_lock os False)
      (return 0))))))))))))))"

definition load_modem_img_int ::
  "os \<Rightarrow> build_config \<Rightarrow> secure_params \<Rightarrow> u32 \<Rightarrow> ('z load_world_scheme, int) io" where
  "load_modem_img_int os cfg sp load_type0 =
     (let lt = (if FEATURE_REMOVE_SPRD_MODEM cfg then LOAD_SP_IMG else load_type0) in
      seq (modem_ctrl_enable_wake_lock os True)
      (seq (do_if (kbc_secure cfg) (seq (secure_boot_set_flag lt) (secure_boot_unlock_ddr os)))
      (seq (modem_load_stop os cfg lt)
      (seq (modem_ctrl_set_modem_state MODEM_STATE_LOADING)
      (seq (do_if (has_bits lt LOAD_SP_IMG)
         (bind (gets sp_load_info) (\<lambda>li. do_if (drv_is_ok li \<or> ioctrl_is_ok li)
           (load_img_from_table os cfg sp li SP_IMG_FLAG NONE_IMAG_FLAG))))
      (seq (do_if (has_bits lt LOAD_MODEM_IMG)
         (bind (gets cp_load_info) (\<lambda>li. do_if (drv_is_ok li \<or> ioctrl_is_ok li)
           (load_img_from_table os cfg sp li MODEM_IMG_FLAG NONE_IMAG_FLAG))))
      (seq (do_if (any_secure cfg) (secure_boot_verify_all os cfg))
      (seq (modem_load_start os cfg lt)
      (seq (modem_ctrl_set_modem_state MODEM_STATE_BOOTING)
      (seq (modem_ctrl_enable_wake_lock os False)
      (return 0)))))))))))"

definition load_modem_img ::
  "os \<Rightarrow> build_config \<Rightarrow> secure_params \<Rightarrow> u32 \<Rightarrow> ('z pcie_world_scheme, int) io" where
  "load_modem_img os cfg sp load_type =
     (if FEATURE_EXTERNAL_MODEM cfg then load_modem_img_ext os cfg sp load_type
      else load_modem_img_int os cfg sp load_type)"

text \<open>
  The rescan of the external modem is repeated until it succeeds; \<open>fuel\<close> bounds the
  repetitions the model follows, and running out of it is the endless loop.
\<close>

fun rescan_loop :: "os \<Rightarrow> nat \<Rightarrow> ('z pcie_world_scheme, unit) io" where
  "rescan_loop os 0 = stop (Forever ''modem_reboot_all_modem: rescan'')"
| "rescan_loop os (Suc fuel) =
     bind (modem_rescan_ep_device os) (\<lambda>b_continue.
     seq (sys_usleep (1000 * 1000))
     (if b_continue \<noteq> 0 then rescan_loop os fuel else return ()))"

definition modem_reboot_all_modem ::
  "os \<Rightarrow> build_config \<Rightarrow> secure_params \<Rightarrow> nat \<Rightarrow> ('z pcie_world_scheme, unit) io" where
  "modem_reboot_all_modem os cfg sp fuel =
     seq (do_if (FEATURE_PCIE_RESCAN cfg) (rescan_loop os fuel))
     (seq (bind (gets cp_load_info) (\<lambda>cp. do_if (ioctrl_is_ok cp) (modem_ioctrl_reboot_ext_modem os (io_ctrl cp))))
     (seq (load_modem_img os cfg sp LOADL_ALL_EXTERNAL_IMG)
     (return ())))"

section \<open>Events of loading\<close>

context loader_events
begin

lemma ev_nv: "emits P (read_nv_partition os p q out)"
  unfolding read_nv_partition_def nv_read_copy_def nv_finish_def nv_leave_def nv_recover_def nv_repair_def
    nv_emit_def Let_def
  by (rule emits_intros ev_intros)+

lemma ev_secure:
  "emits P (secure_boot_load_img os cfg sp img)" "emits P (secure_boot_get_patiton_info os cfg sp img)"
  "emits P (modem_check_cmdline os v)" "emits P (secure_boot_set_flag w)"
  unfolding secure_boot_load_img_def secure_boot_get_patiton_info_def modem_verify_image_def secure_verify_def
    get_verify_img_info_def get_image_footer_byname_def get_verify_img_footer_def modem_check_cmdline_def
    secure_boot_set_flag_def Let_def case_prod_beta
  by (rule emits_intros ev_intros ev_image | simp)+

lemma ev_entry: "emits P (load_entry os cfg sp load i t)"
  unfolding load_entry_def modem_load_cp_cmdline_def add_spuk_cmdline_def modem_load_cp_nv_def
    modem_load_cp_boot_code_def modem_head_get_boot_code_def monitors_on_def Let_def case_prod_beta
  by (rule emits_intros ev_intros ev_image ev_nv ev_secure)+

lemma ev_entries: "emits P (load_entries os cfg sp load lf sf i ts)"
  by (induction ts arbitrary: i) (auto intro!: emits_intros ev_entry)

lemma ev_table: "emits P (load_img_from_table os cfg sp load lf sf)"
  unfolding load_img_from_table_def by (rule ev_entries)

lemma ev_stop: "emits P (modem_load_stop os cfg lt)"
  unfolding modem_load_stop_def modem_load_each_def modem_load_run_def
  by (rule emits_intros ev_intros ev_image | simp)+

end

section \<open>The verification gate\<close>

text \<open>
  The gate is closed when the modem's memory is unlocked for loading and opened by a
  verification without complaint; a start request at a closed gate is an error.
\<close>

fun gate_step :: "bool \<Rightarrow> event \<Rightarrow> bool option" where
  "gate_step b (Ioctl fd c a r) = (if c = MODEM_START_CMD \<and> \<not> b then None else Some b)"
| "gate_step b (Kbc_Verify t r) = Some (0 \<le> r)"
| "gate_step b (Kbc_Unlock t r) = Some False"
| "gate_step b _ = Some b"

lemma gate_neutral: "no_start e \<Longrightarrow> gate_step b e = Some b"
  by (cases e) auto

lemma gate_no_start: "emits no_start m \<Longrightarrow> tracks gate_step b m (\<lambda>_. b)"
  by (rule emits_tracks [where P = no_start]) (auto intro: gate_neutral)

lemma gate_open: "tracks gate_step True (modem_load_start os cfg lt) (\<lambda>_. True)"
proof -
  have open_gate: "tracks gate_step True (sys_ioctl os fd c a) (\<lambda>_. True)" for fd c a
    unfolding syscall_defs by (rule tracks_syscall) (simp add: Let_def)
  have iocmd: "tracks gate_step True (modem_iocmd os c a p) (\<lambda>_. True)" for c a p
    unfolding modem_iocmd_def
    by (rule track_intros open_gate start.ev_intros [THEN gate_no_start] | simp)+
  show ?thesis
    unfolding modem_load_start_def modem_load_each_def modem_load_run_def modem_ioctrl_start_def iocmd_ret_def
    by (rule track_intros iocmd start.ev_intros [THEN gate_no_start] start.ev_image [THEN gate_no_start] | simp)+
qed

lemma gate_unlock: "tracks gate_step b (secure_boot_unlock_ddr os) (\<lambda>_. False)"
proof -
  have "tracks gate_step b (kernel_bootcp_unlock_ddr os t) (\<lambda>_. False)" for t
    unfolding syscall_defs by (rule tracks_syscall) (simp add: Let_def)
  then show ?thesis
    unfolding secure_boot_unlock_ddr_def by (auto intro!: track_intros)
qed

lemma gate_verify: "kbc_secure cfg \<Longrightarrow> tracks gate_step b (secure_boot_verify_all os cfg) (\<lambda>_. True)"
proof -
  have "tracks gate_step b (kernel_bootcp_verify_all os t) (\<lambda>r. 0 \<le> r)" for t
    unfolding syscall_defs by (rule tracks_syscall) (simp add: Let_def)
  then show "kbc_secure cfg \<Longrightarrow> ?thesis"
    unfolding secure_boot_verify_all_def
    by (auto intro!: track_intros start.ev_secure [THEN gate_no_start] simp: linorder_not_less
        intro: tracks_same)
qed

lemma load_int_gate:
  assumes "kbc_secure cfg"
  shows "tracks gate_step b (load_modem_img_int os cfg sp lt) (\<lambda>_. True)"
proof -
  have secure: "kbc_secure cfg = True" "any_secure cfg = True"
    using assms by (auto simp: kbc_secure_def any_secure_def)
  have close: "tracks gate_step b (seq (secure_boot_set_flag w) (secure_boot_unlock_ddr os)) (\<lambda>_. False)"
    for b w
    by (rule tracks_seq [OF start.ev_secure(4) [THEN gate_no_start] gate_unlock])
  have close_if: "tracks gate_step b (do_if True (seq (secure_boot_set_flag w) (secure_boot_unlock_ddr os))) (\<lambda>_. False)"
    for b w
    by (rule tracks_do_if [OF close]) simp
  have verify_if: "tracks gate_step b (do_if True (secure_boot_verify_all os cfg)) (\<lambda>_. True)" for b
    by (rule tracks_do_if [OF gate_verify [OF assms]]) simp
  have keep: "tracks gate_step b (do_if c m) (\<lambda>_. b)" if "emits no_start m" for b c and m :: "('c ctl_world_scheme, 'd) io"
    by (rule gate_no_start emits_do_if that)+
  have load: "emits no_start (bind (gets f) (\<lambda>li. do_if (c li) (load_img_from_table os cfg sp li u v)))" for f c u v
    by (rule emits_intros start.ev_table)+
  have state: "tracks gate_step b (modify (\<lambda>s. s\<lparr>g_modem_state := st\<rparr>)) (\<lambda>_. b)" for b st
    by (rule gate_no_start emits_modify)+ simp
  show ?thesis
    unfolding load_modem_img_int_def Let_def ctl_defs secure
    by (rule tracks_seq close_if verify_if gate_open state keep load start.ev_intros [THEN gate_no_start]
         start.ev_stop [THEN gate_no_start] tracks_return refl)+
qed

section \<open>Descriptors\<close>

lemma cp_cmdline_fd: "fd_clean (modem_load_cp_cmdline os cfg p q)"
  unfolding modem_load_cp_cmdline_def monitors_on_def Let_def
  by (rule fd_cleanI)
    (rule track_intros ctl_fd [THEN fd_cleanD] add_spuk_fd [THEN fd_cleanD] fd_intros | simp)+

lemma cp_boot_code_fd: "fd_clean (modem_load_cp_boot_code os p)"
  unfolding modem_load_cp_boot_code_def modem_head_get_boot_code_def Let_def
  by (rule fd_cleanI) (rule track_intros fd_intros | simp)+

lemma load_entry_fd: "fd_clean (load_entry os cfg sp load i t)"
  unfolding load_entry_def modem_load_cp_nv_def case_prod_beta
  by (rule fd_cleanI)
    (rule track_intros ioctrl_fd [THEN fd_cleanD] cp_cmdline_fd [THEN fd_cleanD] cp_boot_code_fd [THEN fd_cleanD]
       nv_partition_fd [THEN fd_cleanD] secure_fd [THEN fd_cleanD] image_fd [THEN fd_cleanD] | simp)+

lemma load_entries_fd: "tracks fd_step M (load_entries os cfg sp load lf sf i ts) (\<lambda>_. M)"
  by (induction ts arbitrary: i) (auto intro!: track_intros load_entry_fd [THEN fd_cleanD])

lemma load_table_fd: "fd_clean (load_img_from_table os cfg sp load lf sf)"
  unfolding load_img_from_table_def by (rule fd_cleanI) (rule load_entries_fd)

lemma load_run_fd: "fd_clean (modem_load_run os b load)"
  unfolding modem_load_run_def
  by (rule fd_cleanI) (rule track_intros ioctrl_fd [THEN fd_cleanD] image_fd [THEN fd_cleanD] | simp)+

lemma load_each_fd: "fd_clean (modem_load_stop os cfg lt)" "fd_clean (modem_load_start os cfg lt)"
  unfolding modem_load_stop_def modem_load_start_def modem_load_each_def
  by (rule fd_cleanI; (rule track_intros load_run_fd [THEN fd_cleanD] | simp)+)+

lemma wait_remote_fd: "tracks fd_step M (wait_remote_loop os p w n) (\<lambda>_. M)"
proof (induction os p w n rule: wait_remote_loop.induct)
  case (1 os p w n)
  show ?case
    by (subst wait_remote_loop.simps)
      (rule track_intros ioctrl_fd [THEN fd_cleanD] get_remote_flag_fd [THEN fd_cleanD] fd_intros "1" | simp)+
qed

lemma do_set_info_fd: "fd_clean (modem_load_do_set_load_info os load)"
  unfolding modem_load_do_set_load_info_def
  by (rule fd_cleanI) (rule track_intros ioctrl_fd [THEN fd_cleanD] | simp)+

lemmas load_fd = load_table_fd [THEN fd_cleanD] load_each_fd [THEN fd_cleanD] ioctrl_fd [THEN fd_cleanD]
  ctl_fd [THEN fd_cleanD] secure_fd [THEN fd_cleanD] wait_remote_fd clear_remote_flag_fd [THEN fd_cleanD]
  rescan_fd [THEN fd_cleanD]

lemma spl_stage_fd: "fd_clean (load_spl_stage os cfg sp lt)"
  unfolding load_spl_stage_def modem_load_wait_remote_def
  by (rule fd_cleanI) (rule track_intros load_fd | simp)+

lemma miniap_stage_fd: "fd_clean (load_miniap_stage os cfg sp)"
  unfolding load_miniap_stage_def modem_load_wait_remote_def
  by (rule fd_cleanI) (rule track_intros load_fd | simp)+

lemma load_sp_fd: "fd_clean (load_sp_ext os cfg sp)"
  unfolding load_sp_ext_def by (rule fd_cleanI) (rule track_intros load_fd | simp)+

lemma load_modem_fd: "fd_clean (load_modem_img os cfg sp lt)"
  unfolding load_modem_img_def load_modem_img_ext_def load_modem_img_int_def Let_def ctl_defs
  by (rule fd_cleanI)
    (rule track_intros load_fd spl_stage_fd [THEN fd_cleanD] miniap_stage_fd [THEN fd_cleanD]
       load_sp_fd [THEN fd_cleanD] | simp)+

lemma spl_img_fd: "fd_clean (load_spl_img os cfg sp)"
  unfolding load_spl_img_def by (rule fd_cleanI) (rule track_intros load_fd | simp)+

lemma rescan_loop_fd: "tracks fd_step M (rescan_loop os fuel) (\<lambda>_. M)"
  by (induction fuel) (auto intro!: track_intros rescan_fd [THEN fd_cleanD] fd_intros)

lemma reboot_all_fd: "fd_clean (modem_reboot_all_modem os cfg sp fuel)"
  unfolding modem_reboot_all_modem_def
  by (rule fd_cleanI) (rule track_intros rescan_loop_fd load_fd load_modem_fd [THEN fd_cleanD] | simp)+

lemma assert_modem_fd: "fd_clean (modem_load_assert_modem os)"
  unfolding modem_load_assert_modem_def by (rule fd_cleanI) (rule track_intros load_fd | simp)+

section \<open>The tables after initialisation\<close>

lemma head_correct_result:
  "keeps xmls_wf (modem_head_get_head os cfg sp li)"
  unfolding modem_head_get_head_def patiton_info_def modem_get_patiton_info_def secure_boot_get_patiton_info_def
    Let_def case_prod_beta
  by (rule keeps_intros keeps_modify io_blind_keeps image_blind xmls_wf_blind
      | simp add: xmls_wf_def tables_wf_def)+

lemma blind_iocmd: "io_blind I \<Longrightarrow> keeps I (modem_iocmd os c a p)"
  unfolding modem_iocmd_def by (rule keeps_intros io_blind_keeps | assumption)+

lemma set_info_blind: "io_blind I \<Longrightarrow> keeps I (modem_load_do_set_load_info os li)"
  unfolding modem_load_do_set_load_info_def ioctrl_defs iocmd_ret_def
  by (rule keeps_intros blind_iocmd | assumption)+

lemma secure_init_wf: "keeps xmls_wf (secure_boot_init os cfg)"
  unfolding secure_boot_init_def modem_parse_puk_cmdline_def Let_def
  by (rule keeps_intros keeps_modify io_blind_keeps xmls_wf_blind | simp add: xmls_wf_def tables_wf_def)+

lemma default_init_xmls: "keeps xmls_wf (modem_default_init_load_info os cfg)"
proof -
  let ?J = "\<lambda>s. xml_wf (cp_xml_info s) \<and> xml_wf (sp_xml_info s) \<and> xml_wf (dp_xml_info s)"
  have blind: "io_blind ?J" by (simp add: io_blind_def)
  have "keeps ?J (modem_default_init_load_info os cfg)"
    unfolding modem_default_init_load_info_def modem_init_cp_load_info_def modem_init_sp_load_info_def
      modem_init_load_node_info_def modem_correct_modem_info_def modem_ctrl_get_modem_type_def Let_def
      case_prod_beta
    by (rule keeps_intros keeps_modify io_blind_keeps init_load_info_blind get_node_info_blind blind | simp)+
  with default_init_keeps [of os cfg] show ?thesis
    unfolding keeps_def xmls_wf_def by (blast intro: wp_conj [THEN wp_conseq])
qed

lemma init_img_info_wf: "keeps xmls_wf (init_modem_img_info os cfg sp xe)"
proof -
  have set_cp: "keeps xmls_wf (seq (modify (\<lambda>s. s\<lparr>cp_load_info := li\<rparr>)) (seq (modem_load_set_load_info os cfg) (return 0)))"
    if "load_wf li" for li
    unfolding modem_load_set_load_info_def
    by (rule keeps_intros keeps_modify set_info_blind xmls_wf_blind
        | simp add: xmls_wf_def tables_wf_def that)+
  have correct: "keeps xmls_wf (bind (modem_head_correct_load_info os cfg sp cp) (\<lambda>(_, cp').
     seq (modify (\<lambda>s. s\<lparr>cp_load_info := cp'\<rparr>)) (seq (modem_load_set_load_info os cfg) (return 0))))"
    if "load_wf cp" for cp
  proof -
    have img: "keeps xmls_wf modem_head_construct_img"
      unfolding modem_head_construct_img_def
      by (rule keeps_intros keeps_modify | simp add: xmls_wf_def tables_wf_def)+
    show ?thesis
      unfolding modem_head_correct_load_info_def case_prod_beta keeps_def wp_rules
      by (auto intro!: keeps_wp [OF head_correct_result] keeps_wp [OF img]
          set_cp [unfolded keeps_def wp_rules, rule_format] convert_img_wf that)
  qed
  have rest: "keeps xmls_wf (bind (gets cp_load_info) (\<lambda>cp. bind (modem_head_correct_load_info os cfg sp cp) (\<lambda>(_, cp').
     seq (modify (\<lambda>s. s\<lparr>cp_load_info := cp'\<rparr>)) (seq (modem_load_set_load_info os cfg) (return 0)))))"
    by (rule keeps_gets_bind) (use correct in \<open>auto simp: keeps_def xmls_wf_def tables_wf_def\<close>)
  show ?thesis
    unfolding init_modem_img_info_def
    by (rule rest keeps_seq keeps_do_if secure_init_wf default_init_xmls xml_load_info_wf)+
qed

end
