(* ===== verification/Load_Protocol.thy ===== *)
theory Load_Protocol
  imports Modem_Load
begin

text \<open>
  What the loader promises to the rest of the program: a table that loads without complaint
  has had every image of it copied whole, nothing is started before it is verified, the
  handshake with an external modem ends, and \<open>load_modem_img\<close> leaves the controller in the
  booting state with the suspend blocker released.
\<close>

section \<open>Results\<close>

text \<open>\<open>yields P m\<close>: every result \<open>m\<close> returns satisfies \<open>P\<close>.\<close>

definition yields :: "('a \<Rightarrow> bool) \<Rightarrow> ('s, 'a) io \<Rightarrow> bool" where
  "yields P m \<longleftrightarrow> (\<forall>s. wp m (\<lambda>a _. P a) (\<lambda>_ _. True) s)"

named_theorems yields_intros "results of programs"

lemma yields_return [yields_intros]: "P a \<Longrightarrow> yields P (return a)"
  by (simp add: yields_def wp_rules)

lemma yields_bind [yields_intros]: "(\<And>a. yields P (f a)) \<Longrightarrow> yields P (bind m f)"
  unfolding yields_def wp_bind by (auto intro: wp_any)

lemma yields_seq [yields_intros]: "yields P n \<Longrightarrow> yields P (seq m n)"
  unfolding seq_def by (rule yields_bind)

lemma yields_if [yields_intros]:
  "(b \<Longrightarrow> yields P m) \<Longrightarrow> (\<not> b \<Longrightarrow> yields P n) \<Longrightarrow> yields P (if b then m else n)"
  by simp

lemma yields_option [yields_intros]:
  "(x = None \<Longrightarrow> yields P m) \<Longrightarrow> (\<And>a. x = Some a \<Longrightarrow> yields P (f a)) \<Longrightarrow>
   yields P (case x of None \<Rightarrow> m | Some a \<Rightarrow> f a)"
  by (cases x) simp_all

lemma yields_stop [yields_intros]: "yields P (stop r)"
  by (simp add: yields_def wp_rules)

lemma yields_result: "yields P m \<Longrightarrow> m s = Ret a t \<Longrightarrow> P a"
  by (auto simp: yields_def wp_def dest: spec [of _ s])

lemma copy_loop_result: "yields (\<lambda>r. r \<le> 0) (copy_loop os fdin fdout b n)"
proof (induction os fdin fdout b n rule: copy_loop.induct)
  case (1 os fdin fdout b n)
  show ?case
    by (subst copy_loop.simps) (auto simp: Let_def intro!: yields_intros "1")
qed

lemma load_image_result: "yields (\<lambda>r. r \<le> 0) (modem_load_image os img oi oo n)"
proof -
  have leave: "yields (\<lambda>r. r \<le> 0) (load_image_leave os fdin fdout r)" if "r \<le> 0" for fdin fdout r
    unfolding load_image_leave_def using that by (auto intro!: yields_intros)
  have copied: "yields (\<lambda>r. r \<le> 0) (bind (copy_loop os fdin fdout b k) (load_image_leave os fdin fdout))"
    for fdin fdout b k
    unfolding yields_def wp_bind
    by (intro allI wp_conseq [OF copy_loop_result [unfolded yields_def, rule_format]])
      (use leave in \<open>auto simp: yields_def\<close>)
  show ?thesis
    unfolding modem_load_image_def load_image_files_def
    by (intro yields_intros copied leave) auto
qed

section \<open>Loading a table\<close>

text \<open>Entries whose content is an image file, with or without a signature.\<close>

definition image_entry :: "image_load \<Rightarrow> bool" where
  "image_entry t \<longleftrightarrow> \<not> GET_FLAG (img_flag t) CMDLINE_FLAG \<and> \<not> GET_FLAG (img_flag t) NV_FLAG \<and>
     \<not> GET_FLAG (img_flag t) BOOT_CODE"

lemma loaded_mono: "loaded tr img oi oo n tr' \<Longrightarrow> prefix tr' tr'' \<Longrightarrow> loaded tr img oi oo n tr''"
  unfolding loaded_def by (blast intro: prefix_order.trans)

lemma loaded_later:
  assumes "loaded tr img oi oo n tr'" "prefix tr0 tr"
  shows "loaded tr0 img oi oo n tr'"
proof -
  obtain mid where "tr = tr0 @ mid"
    using assms(2) by (rule prefixE)
  then show ?thesis
    using assms(1) unfolding loaded_def by (metis append.assoc)
qed

definition loaded_by :: "event list \<Rightarrow> image_load \<Rightarrow> event list \<Rightarrow> bool" where
  "loaded_by tr t tr' \<longleftrightarrow> (\<exists>oi n. loaded tr t oi 0 n tr')"

lemma load_image_wp:
  "prefix tr (trace s) \<Longrightarrow>
   wp (modem_load_image os t oi 0 n) (\<lambda>r u. r \<le> 0 \<and> (r = 0 \<longrightarrow> loaded_by tr t (trace u))) (\<lambda>_ _. True) s"
  using wp_conj [OF load_image_loads [of os t oi 0 n s]
      load_image_result [unfolded yields_def, rule_format, of os t oi 0 n s]]
  by (rule wp_conseq) (auto simp: loaded_by_def intro: loaded_later)

lemma emits_grows: "emits P m \<Longrightarrow> grows m"
  unfolding grows_def keeps_def
proof (intro allI impI)
  fix tr and s :: "'a world_scheme"
  assume m: "emits P m" and tr: "prefix tr (trace s)"
  show "wp m (\<lambda>_ s. prefix tr (trace s)) (\<lambda>_ _. True) s"
    using m [unfolded emits_def, rule_format, of s] by (rule wp_conseq) (use tr in auto)
qed

lemma grows_wp:
  "grows m \<Longrightarrow> prefix tr (trace s) \<Longrightarrow> wp m Q R s \<Longrightarrow> wp m (\<lambda>a u. Q a u \<and> prefix tr (trace u)) (\<lambda>_ _. True) s"
  by (rule wp_conseq [OF wp_conj [where Q' = "\<lambda>_ u. prefix tr (trace u)" and R' = "\<lambda>_ _. True"]])
    (auto simp: grows_def keeps_def)

lemma wp_ifI: "(b \<Longrightarrow> wp m Q R s) \<Longrightarrow> (\<not> b \<Longrightarrow> wp n Q R s) \<Longrightarrow> wp (if b then m else n) Q R s"
  by simp

lemma secure_parts_grow:
  "grows (modem_verify_image os sp p oi n)" "grows (get_verify_img_info os sp p pk)"
  "grows (get_image_footer_byname os cfg sp p q)"
proof -
  have "emits no_start (modem_verify_image os sp p oi n)" "emits no_start (get_verify_img_info os sp p pk)"
    "emits no_start (get_image_footer_byname os cfg sp p q)"
    unfolding modem_verify_image_def secure_verify_def get_verify_img_info_def get_image_footer_byname_def
      get_verify_img_footer_def Let_def case_prod_beta
    by (rule emits_intros start.ev_intros start.ev_image | simp)+
  then show "grows (modem_verify_image os sp p oi n)" "grows (get_verify_img_info os sp p pk)"
    "grows (get_image_footer_byname os cfg sp p q)"
    by (auto intro: emits_grows)
qed

lemma secure_load_wp:
  assumes "prefix tr (trace s)"
  shows "wp (secure_boot_load_img os cfg sp t)
     (\<lambda>r u. r \<le> 0 \<and> (r = 0 \<longrightarrow> loaded_by tr t (trace u))) (\<lambda>_ _. True) s"
  unfolding secure_boot_load_img_def case_prod_beta wp_bind [of "secure_boot_get_patiton_info os cfg sp t"]
    wp_seq [of "If _ _ _"]
  by (rule wp_grows_chain [OF start.ev_secure(2) [THEN emits_grows] assms] TrueI
      | rule wp_grows_chain [rotated], assumption, rule load_image_wp, assumption
      | rule grows_intros secure_parts_grow | simp)+

lemma load_entry_wp:
  fixes s :: "'z head_world_scheme"
  assumes "prefix tr (trace s)"
  shows "wp (load_entry os cfg sp load i t)
     (\<lambda>r u. r \<le> 0 \<and> (r = 0 \<longrightarrow> image_entry t \<longrightarrow> loaded_by tr t (trace u))) (\<lambda>_ _. True) s"
proof -
  have grown: "wp (seq m (return (0 :: int))) (\<lambda>r u. r \<le> 0 \<and> (r = 0 \<longrightarrow> image_entry t \<longrightarrow> loaded_by tr t (trace u)))
      (\<lambda>_ _. True) u" if "\<not> image_entry t" for m :: "('z head_world_scheme, 'b) io" and u
    using that by (auto simp: wp_rules intro!: wp_any)
  have loads: "wp m (\<lambda>r u. r \<le> 0 \<and> (r = 0 \<longrightarrow> image_entry t \<longrightarrow> loaded_by tr t (trace u))) (\<lambda>_ _. True) u"
    if "wp m (\<lambda>r u. r \<le> 0 \<and> (r = 0 \<longrightarrow> loaded_by tr t (trace u))) (\<lambda>_ _. True) u"
    for m :: "('z head_world_scheme, int) io" and u
    using that by (rule wp_conseq) auto
  have info: "grows (modem_get_patiton_info os t)"
    by (rule emits_grows [OF start.ev_image(3)])
  have plain: "prefix tr (trace u) \<Longrightarrow>
      wp (bind (modem_get_patiton_info os t) (\<lambda>(a, b). modem_load_image os t (sint a) 0 (ucast b)))
       (\<lambda>r u. r \<le> 0 \<and> (r = 0 \<longrightarrow> loaded_by tr t (trace u))) (\<lambda>_ _. True) u" for u :: "'z head_world_scheme"
    unfolding case_prod_beta wp_bind
    by (rule wp_grows_chain [OF info]) (auto intro: load_image_wp)
  have region: "grows (do_if b (modem_set_write_region os p w))" for b p w
    by (rule grows_do_if emits_grows [where P = no_start] start.ev_ioctrl)+
  show ?thesis
    unfolding load_entry_def wp_seq [of "do_if _ _"]
    by (rule wp_grows_chain [OF region assms])
      (rule wp_ifI grown loads secure_load_wp plain | assumption | simp add: image_entry_def)+
qed

lemma load_entries_wp:
  fixes s :: "'z head_world_scheme"
  assumes "prefix tr (trace s)"
  shows "wp (load_entries os cfg sp load lf sf i ts)
     (\<lambda>r u. r \<le> 0 \<and> (r = 0 \<longrightarrow> (\<forall>t \<in> set ts. to_load lf sf t \<longrightarrow> image_entry t \<longrightarrow> loaded_by tr t (trace u))))
     (\<lambda>_ _. True) s"
  using assms
proof (induction ts arbitrary: i s)
  case (Cons t ts)
  let ?Q = "\<lambda>r u. r \<le> 0 \<and> (r = 0 \<longrightarrow> (\<forall>t \<in> set ts. to_load lf sf t \<longrightarrow> image_entry t \<longrightarrow> loaded_by tr t (trace u)))"
  let ?E = "\<lambda>r u. r \<le> 0 \<and> (r = 0 \<longrightarrow> image_entry t \<longrightarrow> loaded_by tr t (trace u))"
  have rest: "wp (load_entries os cfg sp load lf sf (Suc i) ts) (\<lambda>rs w. ?Q rs w \<and> prefix (trace u) (trace w))
      (\<lambda>_ _. True) u" if "prefix tr (trace u)" for u :: "'z head_world_scheme"
    using grows_wp [OF emits_grows [OF start.ev_entries] prefix_order.refl Cons.IH [OF that]] .
  show ?case
  proof (cases "to_load lf sf t")
    case True
    have head: "wp (load_entry os cfg sp load i t) (\<lambda>r u. ?E r u \<and> prefix tr (trace u)) (\<lambda>_ _. True) s"
      using grows_wp [OF emits_grows [OF start.ev_entry] Cons.prems load_entry_wp [OF Cons.prems]] .
    have "wp (load_entries os cfg sp load lf sf (Suc i) ts)
        (\<lambda>rs w. r + rs \<le> 0 \<and> (r + rs = 0 \<longrightarrow> (\<forall>x \<in> set (t # ts). to_load lf sf x \<longrightarrow> image_entry x \<longrightarrow>
           loaded_by tr x (trace w)))) (\<lambda>_ _. True) u"
      if "?E r u" "prefix tr (trace u)" for r and u :: "'z head_world_scheme"
      using rest [OF that(2)] by (rule wp_conseq) (use that in \<open>auto simp: loaded_by_def intro: loaded_mono\<close>)
    then show ?thesis
      using True by (auto simp: wp_bind wp_return intro!: wp_conseq [OF head])
  next
    case False
    with Cons.IH [OF Cons.prems, of "Suc i"] show ?thesis by simp
  qed
qed (simp add: wp_rules)

section \<open>The handshake\<close>

definition pause :: "event \<Rightarrow> bool" where
  "pause e \<longleftrightarrow> e = Sleep 100000"

definition pauses :: "event list \<Rightarrow> nat" where
  "pauses es = length (filter pause es)"

text \<open>A request to the control device returns, and does not pause.\<close>

definition brief :: "('z world_scheme, 'a) io \<Rightarrow> bool" where
  "brief m \<longleftrightarrow> (\<forall>s. \<exists>a t es. m s = Ret a t \<and> trace t = trace s @ es \<and> pauses es = 0)"

lemma brief_return: "brief (return a)"
  by (simp add: brief_def return_def pauses_def)

lemma brief_bind:
  assumes "brief m" "\<And>a. brief (f a)"
  shows "brief (bind m f)"
  unfolding brief_def
proof
  fix s :: "'a world_scheme"
  obtain a t es where m: "m s = Ret a t" "trace t = trace s @ es" "pauses es = 0"
    using assms(1) unfolding brief_def by blast
  obtain b u fs where f: "f a t = Ret b u" "trace u = trace t @ fs" "pauses fs = 0"
    using assms(2) unfolding brief_def by blast
  have "bind m f s = Ret b u" "trace u = trace s @ es @ fs" "pauses (es @ fs) = 0"
    using m f by (simp_all add: bind_def pauses_def)
  then show "\<exists>b u es. bind m f s = Ret b u \<and> trace u = trace s @ es \<and> pauses es = 0"
    by blast
qed

lemma brief_iocmd: "brief (modem_iocmd os c a p)"
  by (simp add: brief_def modem_iocmd_def syscall_defs io_simps Let_def pauses_def pause_def)

lemma brief_ioctrl:
  "brief (modem_lock_read os p)" "brief (modem_unlock_read os p)" "brief (modem_get_remote_flag os p)"
  unfolding ioctrl_defs iocmd_ret_def case_prod_beta
  by (rule brief_bind brief_iocmd brief_return)+

text \<open>
  One look at the flags, and then either the answer or a pause and the next look.
\<close>

lemma wait_remote_step:
  obtains flag t es where "trace t = trace s @ es" "pauses es = 0"
    "wait_remote_loop os p w n s =
       (if has_bits flag w then Ret True t else if n = 0 then Ret False t
        else wait_remote_loop os p w (n - 1) (t\<lparr>trace := trace t @ [Sleep 100000]\<rparr>))"
proof -
  obtain a1 t1 es1 where 1: "modem_lock_read os p s = Ret a1 t1" "trace t1 = trace s @ es1" "pauses es1 = 0"
    using brief_ioctrl(1) unfolding brief_def by blast
  obtain flag t2 es2 where 2: "modem_get_remote_flag os p t1 = Ret flag t2" "trace t2 = trace t1 @ es2" "pauses es2 = 0"
    using brief_ioctrl(3) unfolding brief_def by blast
  obtain a3 t3 es3 where 3: "modem_unlock_read os p t2 = Ret a3 t3" "trace t3 = trace t2 @ es3" "pauses es3 = 0"
    using brief_ioctrl(2) unfolding brief_def by blast
  show ?thesis
  proof (rule that)
    show "trace t3 = trace s @ es1 @ es2 @ es3" "pauses (es1 @ es2 @ es3) = 0"
      using 1 2 3 by (simp_all add: pauses_def)
    show "wait_remote_loop os p w n s =
       (if has_bits flag w then Ret True t3 else if n = 0 then Ret False t3
        else wait_remote_loop os p w (n - 1) (t3\<lparr>trace := trace t3 @ [Sleep 100000]\<rparr>))"
      using 1 2 3 by (subst wait_remote_loop.simps) (simp add: io_simps syscall_defs)
  qed
qed

lemma wait_remote_returns:
  "\<exists>r t es. wait_remote_loop os p w n s = Ret r t \<and> trace t = trace s @ es \<and> pauses es \<le> n \<and>
     (\<not> r \<longrightarrow> pauses es = n)"
proof (induction n arbitrary: s)
  case 0
  show ?case
    by (rule wait_remote_step [of s os p w 0]) (auto split: if_splits)
next
  case (Suc n)
  obtain flag t es where step: "trace t = trace s @ es" "pauses es = 0"
    "wait_remote_loop os p w (Suc n) s =
       (if has_bits flag w then Ret True t else if Suc n = 0 then Ret False t
        else wait_remote_loop os p w (Suc n - 1) (t\<lparr>trace := trace t @ [Sleep 100000]\<rparr>))"
    by (rule wait_remote_step)
  obtain r u fs where rest: "wait_remote_loop os p w n (t\<lparr>trace := trace t @ [Sleep 100000]\<rparr>) = Ret r u"
    "trace u = (trace t @ [Sleep 100000]) @ fs" "pauses fs \<le> n" "\<not> r \<longrightarrow> pauses fs = n"
    using Suc.IH [of "t\<lparr>trace := trace t @ [Sleep 100000]\<rparr>"] by auto
  show ?case
  proof (cases "has_bits flag w")
    case True
    with step show ?thesis by auto
  next
    case False
    have "pauses (es @ Sleep 100000 # fs) = Suc (pauses fs)"
      using step(2) by (simp add: pauses_def pause_def)
    with False step rest show ?thesis by (intro exI [of _ r] exI [of _ u] exI [of _ "es @ Sleep 100000 # fs"]) auto
  qed
qed

section \<open>The end of a load\<close>

lemma wake_total: "run_events wake_step b es \<noteq> None"
proof (induction es arbitrary: b)
  case (Cons e es)
  have "wake_step b e \<noteq> None" by (cases e) auto
  with Cons show ?case by auto
qed simp

lemma wake_released:
  "ensures (seq (modem_ctrl_enable_wake_lock os False) (return a)) (\<lambda>s. run_events wake_step b (trace s) = Some False)"
  unfolding ensures_def wp_seq wp_return
proof
  fix s :: "'a ctl_world_scheme"
  obtain r where "run_events wake_step b (trace s) = Some r"
    using wake_total by blast
  then show "wp (modem_ctrl_enable_wake_lock os False) (\<lambda>_ s. run_events wake_step b (trace s) = Some False)
      (\<lambda>_ _. True) s"
    using wake_lock_wake [of r os False, unfolded tracks_def, rule_format] by (blast intro: wp_conseq)
qed

lemma booting_last:
  "ensures (seq (modem_ctrl_set_modem_state st) (seq (modem_ctrl_enable_wake_lock os b) (return a)))
     (\<lambda>s. g_modem_state s = st)"
  by (simp add: ensures_def ctl_defs modem_ctrl_enable_wake_lock_def wp_rules Let_def)

lemma ensures_conj: "ensures m I \<Longrightarrow> ensures m J \<Longrightarrow> ensures m (\<lambda>s. I s \<and> J s)"
  unfolding ensures_def by (blast intro: wp_conj [THEN wp_conseq])

lemma pcie_start_simps [simp]:
  "trace pcie_start = []" "cp_load_info pcie_start = zero_load_value" "sp_load_info pcie_start = zero_load_value"
  "g_modem_state pcie_start = MODEM_STATE_INIT"
  by (simp_all add: pcie_start_def pcie_world.defs event_start_def event_world.defs xml_start_def xml_world.defs
      load_start_def load_world.defs head_start_def head_world.defs sec_start_def sec_world.defs ctl_start_def
      ctl_world.defs)

lemma ok_os_simps [simp]:
  "os_open ok_os tr p fl = int (length tr) + 3" "os_read ok_os tr fd n = Some (replicate n NUL)"
  "os_write ok_os tr fd d = int (length d)" "os_lseek ok_os tr fd off w = off" "os_ioctl ok_os tr fd c a = (0, a)"
  "os_access ok_os tr p" "os_malloc ok_os tr k" "os_property ok_os tr p = []"
  by (simp_all add: ok_os_def)

lemma load_start_simps [simp]:
  "trace load_start = []" "bm_failed load_start = False" "mpu_failed load_start = False"
  by (simp_all add: load_start_def load_world.defs head_start_def head_world.defs sec_start_def sec_world.defs
      ctl_start_def ctl_world.defs)

section \<open>Properties\<close>






text \<open>
  Loading always ends, when it returns, in the booting state, with the suspend blocker of
  the program released, and reports success.
\<close>

theorem load_modem_img_leaves:
  "ensures (load_modem_img os cfg sp lt) (\<lambda>s. g_modem_state s = MODEM_STATE_BOOTING \<and>
     run_events wake_step b (trace s) = Some False)"
  unfolding load_modem_img_def load_modem_img_ext_def load_modem_img_int_def Let_def
  by (rule ensures_conj; (rule booting_last wake_released ensures_intros)+)

text \<open>
  C27: Waiting for a flag of the external modem always ends, after at most 100 pauses of
  100 ms, and it gives up only after all of them.
\<close>

theorem modem_load_wait_remote_ends:
  "\<exists>r t es. modem_load_wait_remote os li w s = Ret r t \<and> trace t = trace s @ es \<and> pauses es \<le> 100 \<and>
     (\<not> r \<longrightarrow> pauses es = 100)"
proof (cases "ioctrl_is_ok li")
  case False
  then show ?thesis by (auto simp: modem_load_wait_remote_def return_def pauses_def)
next
  case True
  with wait_remote_returns [of os "io_ctrl li" w 100 s] show ?thesis
    by (simp add: modem_load_wait_remote_def)
qed

theorem modem_load_wait_remote_ends_witness:
  "\<exists>r t es. modem_load_wait_remote ok_os (zero_load_value\<lparr>ioctrl_is_ok := True, io_ctrl := ''/dev/modem''\<rparr>) UBOOT_IMAGE_DONE_FLAG
       ctl_start = Ret r t \<and> trace t = es \<and> pauses es \<le> 100 \<and> (r \<or> pauses es = 100)"
  using modem_load_wait_remote_ends [of ok_os "zero_load_value\<lparr>ioctrl_is_ok := True, io_ctrl := ''/dev/modem''\<rparr>"
      UBOOT_IMAGE_DONE_FLAG ctl_start]
  by (auto simp: ctl_start_def)

text \<open>
  A control device that cannot be opened counts as a flag that is set: the wait reports
  success at once.
\<close>

theorem modem_load_wait_remote_blind:
  assumes "\<forall>tr p fl. os_open os tr p fl < 0" "w \<noteq> 0"
  shows "\<exists>t. modem_load_wait_remote os li w s = Ret True t \<and> list_all (\<lambda>e. \<not> pause e) (drop (length (trace s)) (trace t))"
  using assms
  by (simp add: modem_load_wait_remote_def wait_remote_loop.simps ioctrl_defs iocmd_ret_def modem_iocmd_def
      syscall_defs io_simps Let_def has_bits_def pause_def)
theorem modem_load_wait_remote_blind_witness:
  "\<exists>t. modem_load_wait_remote (ok_os\<lparr>os_open := (\<lambda>tr p fl. - 1)\<rparr>) (zero_load_value\<lparr>ioctrl_is_ok := True\<rparr>)
      REMOTE_DDR_READY_FLAG ctl_start = Ret True t \<and>
     list_all (\<lambda>e. \<not> pause e) (drop (length (trace ctl_start)) (trace t))"
  by (rule modem_load_wait_remote_blind) (simp_all add: REMOTE_DDR_READY_FLAG_def)

text \<open>The requests a trace made of control devices.\<close>

fun requests :: "event list \<Rightarrow> u32 list" where
  "requests [] = []"
| "requests (Ioctl fd c a r # es) = c # requests es"
| "requests (_ # es) = requests es"

text \<open>
  When the first stage image of the external modem cannot be opened, \<open>load_spl_img\<close> asks
  for the write lock a second time instead of releasing it, and leaves with the device locked.
\<close>

theorem load_spl_img_locks_twice:
  "case load_spl_img (ok_os\<lparr>os_open := (\<lambda>tr p fl. if p = ''r'' then - 1 else 3)\<rparr>) base_config sample_params
      (load_start\<lparr>cp_load_info := zero_load_value\<lparr>ioctrl_is_ok := True,
         load_table := [zero_image\<lparr>path_r := ''r'', img_size := 4, img_flag := SPL_IMG_FLAG\<rparr>]\<rparr>\<rparr>) of
     Ret r t \<Rightarrow> r = - 1 \<and>
       filter (\<lambda>c. c = MODEM_WRITE_LOCK_CMD \<or> c = MODEM_WRITE_UNLOCK_CMD) (requests (trace t)) =
         [MODEM_WRITE_LOCK_CMD, MODEM_WRITE_LOCK_CMD]
   | Stop _ _ \<Rightarrow> False"
proof -
  let ?e = "zero_image\<lparr>path_r := ''r'', img_size := 4, img_flag := SPL_IMG_FLAG\<rparr>"
  let ?os = "ok_os\<lparr>os_open := (\<lambda>tr p fl. if p = ''r'' then - 1 else 3)\<rparr>"
  have selected: "to_load SPL_IMG_FLAG NONE_IMAG_FLAG ?e" "\<not> GET_FLAG SPL_IMG_FLAG CMDLINE_FLAG"
    "\<not> GET_FLAG SPL_IMG_FLAG NV_FLAG" "\<not> GET_FLAG SPL_IMG_FLAG BOOT_CODE" "\<not> GET_FLAG SPL_IMG_FLAG CLR_FLAG"
    by (simp_all add: to_load_def has_bits_def GET_FLAG_def img_mask_defs flag_bit_defs)
  have info: "get_modem_img_info ?os ?e 0 = return (plain_info ?e)"
    by (simp add: get_modem_img_info_def has_substr_def MODEM_BANK_def)
  show ?thesis
    using selected
    by (simp add: load_spl_img_def load_img_from_table_def load_entry_def any_secure_def base_config_def
        modem_get_patiton_info_def info plain_info_def modem_load_image_def load_image_files_def LOAD_BUF_SIZE_def
        modem_ctrl_enable_busmonitor_def modem_ctrl_enable_dmc_mpu_def BM_DEV_def DMC_MPU_def zero_load_value_def
        ioctrl_defs iocmd_ret_def modem_iocmd_def syscall_defs io_simps Let_def cmd_defs BM_DBG_INT_CLR_def BM_DBG_INT_SET_def)
qed

text \<open>
  C32: What is sent to the driver fits its structure: at most twenty regions, as many as
  announced, every name within its field, and the place of every region is that of the entry.
\<close>

theorem modem_convert_loadinfo_bounds:
  assumes "modem_convert_loadinfo v = Some info"
  shows "length (regions info) = unat (region_cnt info) \<and> 0 < region_cnt info \<and>
     length (regions info) \<le> MAX_REGION_CNT \<and>
     list_all (\<lambda>r. length (reg_name r) \<le> MAX_REGION_NAME_LEN) (regions info) \<and>
     map reg_address (regions info) = map img_addr (load_table v) \<and>
     map reg_size (regions info) = map img_size (load_table v)"
proof -
  have n: "length (load_table v) \<le> MAX_REGION_CNT" "load_table v \<noteq> []"
    using assms by (auto simp: modem_convert_loadinfo_def split: if_splits)
  have cnt: "unat (of_nat (length (load_table v)) :: u32) = length (load_table v)"
    using n by (simp add: unat_of_nat MAX_REGION_CNT_def)
  have "0 < region_cnt info"
    using assms n cnt by (auto simp: modem_convert_loadinfo_def word_neq_0_conv [symmetric] split: if_splits)
  with assms n cnt show ?thesis
    by (auto simp: modem_convert_loadinfo_def list_all_iff strncpy_def split: if_splits)
qed

theorem modem_convert_loadinfo_bounds_witness:
  "\<exists>info. modem_convert_loadinfo (zero_load_value\<lparr>load_table := [zero_image]\<rparr>) = Some info \<and>
     length (regions info) = unat (region_cnt info)"
proof -
  have "\<exists>info. modem_convert_loadinfo (zero_load_value\<lparr>load_table := [zero_image]\<rparr>) = Some info"
    by (simp add: modem_convert_loadinfo_def MAX_REGION_CNT_def)
  then show ?thesis
    using modem_convert_loadinfo_bounds by blast
qed

text \<open>
  C33: Initialising the load information keeps the invariant of the tables: every path and
  name within its array, at most a hundred XML items, and the start values satisfy it.
\<close>

theorem init_modem_img_info_wf:
  "xmls_wf xml_start \<and> keeps xmls_wf (init_modem_img_info os cfg sp xe)"
proof
  show "xmls_wf xml_start"
    by (simp add: xmls_wf_def xml_start_def xml_world.defs xml_wf_def zero_xml_def tables_wf_def load_start_def
        load_world.defs head_start_def head_world.defs sec_start_def sec_world.defs ctl_start_def ctl_world.defs
        load_wf_def zero_load_value_def)
qed (rule init_img_info_wf)

end
