(* ===== verification/Load_Frame.thy ===== *)
theory Load_Frame
  imports Load_Protocol
begin

text \<open>
  What the loader leaves alone. \<open>load_blind I\<close> describes conditions on the rest of the state;
  every operation of the loader keeps them, so the components above it can carry their
  invariants across a load. \<open>sec_blind I\<close> describes conditions that may also speak of the state
  of the modem; they are kept by what goes through the load tables. The locale \<open>boot_events\<close> does the same for predicates on events.
\<close>

section \<open>State\<close>

definition sec_blind :: "('z sec_world_scheme \<Rightarrow> bool) \<Rightarrow> bool" where
  "sec_blind I \<longleftrightarrow> io_blind I \<and> (\<forall>s f. I s \<longrightarrow> I (kbc_table_update f s))"

lemma sec_blindD:
  assumes "sec_blind I"
  shows "io_blind I" "I s \<Longrightarrow> I (kbc_table_update f s)"
  using assms by (simp_all add: sec_blind_def)

definition load_blind :: "('z pcie_world_scheme \<Rightarrow> bool) \<Rightarrow> bool" where
  "load_blind I \<longleftrightarrow> io_blind I \<and>
     (\<forall>s f g. I s \<longrightarrow> I (kbc_table_update f s) \<and> I (g_modem_state_update g s))"

lemma load_blindD:
  assumes "load_blind I"
  shows "io_blind I" "I s \<Longrightarrow> I (kbc_table_update f s)" "I s \<Longrightarrow> I (g_modem_state_update g s)" "sec_blind I"
  using assms by (simp_all add: load_blind_def sec_blind_def)

lemma nv_blind: "io_blind I \<Longrightarrow> keeps I (read_nv_partition os p q out)"
  unfolding read_nv_partition_def nv_read_copy_def nv_finish_def nv_leave_def nv_recover_def nv_repair_def
    nv_emit_def Let_def
  by (rule keeps_intros io_blind_keeps io_blind_switch | assumption)+

lemma ioctrl_blind:
  assumes "io_blind I"
  shows "keeps I (modem_lock_read os p)" "keeps I (modem_unlock_read os p)" "keeps I (modem_lock_write os p)"
    "keeps I (modem_unlock_write os p)" "keeps I (modem_set_write_region os p w)"
    "keeps I (modem_set_remote_flag os p w)" "keeps I (modem_get_remote_flag os p)"
    "keeps I (modem_clear_remote_flag os p w)" "keeps I (modem_ioctrl_stop os p)" "keeps I (modem_ioctrl_start os p)"
    "keeps I (modem_ioctrl_assert os p)" "keeps I (modem_ioctrl_reboot_ext_modem os p)"
  unfolding ioctrl_defs iocmd_ret_def case_prod_beta
  by (rule keeps_intros blind_iocmd assms)+

lemma secure_load_blind:
  assumes "sec_blind I"
  shows "keeps I (secure_boot_load_img os cfg sp t)" "keeps I (secure_boot_set_flag w)"
    "keeps I (secure_boot_unlock_ddr os)" "keeps I (secure_boot_verify_all os cfg)"
  unfolding secure_boot_load_img_def modem_verify_image_def secure_verify_def get_verify_img_info_def
    get_image_footer_byname_def secure_boot_set_flag_def secure_boot_unlock_ddr_def secure_boot_verify_all_def
    modem_check_cmdline_def Let_def case_prod_beta
  by (rule keeps_intros keeps_modify io_blind_keeps io_blind_switch image_blind verify_footer_blind
      secure_patiton_blind sec_blindD [OF assms] | assumption | simp)+

lemma spuk_blind: "io_blind I \<Longrightarrow> keeps I (add_spuk_cmdline os str)"
  unfolding add_spuk_cmdline_def Let_def by (rule keeps_intros io_blind_keeps | assumption)+

lemma load_entry_blind:
  assumes "sec_blind I"
  shows "keeps I (load_entry os cfg sp load i t)"
  unfolding load_entry_def modem_load_cp_cmdline_def modem_load_cp_nv_def modem_load_cp_boot_code_def
    modem_head_get_boot_code_def modem_get_patiton_info_def monitors_on_def Let_def case_prod_beta
  by (rule keeps_intros io_blind_keeps io_blind_switch image_blind nv_blind spuk_blind ioctrl_blind
      secure_load_blind sec_blindD [OF assms] assms)+

lemma load_table_blind:
  assumes "sec_blind I"
  shows "keeps I (load_img_from_table os cfg sp load lf sf)"
proof -
  have "keeps I (load_entries os cfg sp load lf sf i ts)" for i ts
    by (induction ts arbitrary: i) (auto intro!: keeps_intros load_entry_blind [OF assms])
  then show ?thesis by (simp add: load_img_from_table_def)
qed

lemma proc_file_blind: "io_blind I \<Longrightarrow> keeps I (write_proc_file os p k str)"
proof -
  assume I: "io_blind I"
  have loop: "keeps I (open_retry os q n)" for q n
  proof (induction os q n rule: open_retry.induct)
    case (1 os q n)
    show ?case
      by (subst open_retry.simps) (rule keeps_intros io_blind_keeps I "1" | assumption)+
  qed
  show ?thesis
    unfolding write_proc_file_def by (rule keeps_intros io_blind_keeps I loop)+
qed

lemma load_run_blind:
  assumes "io_blind I"
  shows "keeps I (modem_load_stop os cfg lt)" "keeps I (modem_load_start os cfg lt)"
  unfolding modem_load_stop_def modem_load_start_def modem_load_each_def modem_load_run_def
  by (rule keeps_intros ioctrl_blind proc_file_blind assms)+

lemma wait_remote_keeps: "io_blind I \<Longrightarrow> keeps I (modem_load_wait_remote os li w)"
proof -
  assume I: "io_blind I"
  have loop: "keeps I (wait_remote_loop os p w n)" for p n
  proof (induction os p w n rule: wait_remote_loop.induct)
    case (1 os p w n)
    show ?case
      by (subst wait_remote_loop.simps) (rule keeps_intros io_blind_keeps ioctrl_blind I "1" | assumption)+
  qed
  show ?thesis
    unfolding modem_load_wait_remote_def by (rule keeps_intros loop)+
qed

lemma rescan_blind: "io_blind I \<Longrightarrow> keeps I (modem_rescan_ep_device os)"
  unfolding modem_rescan_ep_device_def modem_chane_ep_device_owner_def modem_write_file_def ctl_defs
  by (rule keeps_intros io_blind_keeps | assumption)+

lemma load_modem_blind:
  assumes "load_blind I"
  shows "keeps I (load_modem_img os cfg sp lt)"
  unfolding load_modem_img_def load_modem_img_ext_def load_modem_img_int_def load_sp_ext_def load_spl_stage_def
    load_miniap_stage_def ctl_defs Let_def
  by (rule keeps_intros keeps_modify io_blind_switch ioctrl_blind load_table_blind load_run_blind secure_load_blind
      wait_remote_keeps rescan_blind load_blindD [OF assms] assms | assumption)+

lemma load_spl_blind: "sec_blind I \<Longrightarrow> keeps I (load_spl_img os cfg sp)"
  unfolding load_spl_img_def
  by (rule keeps_intros ioctrl_blind load_table_blind sec_blindD(1) | assumption)+

lemma reboot_all_blind:
  assumes "load_blind I"
  shows "keeps I (modem_reboot_all_modem os cfg sp fuel)"
proof -
  have loop: "keeps I (rescan_loop os fuel)"
    by (induction fuel) (auto intro!: keeps_intros rescan_blind io_blind_keeps load_blindD(1) [OF assms])
  show ?thesis
    unfolding modem_reboot_all_modem_def
    by (rule keeps_intros ioctrl_blind load_modem_blind load_blindD(1) [OF assms] assms loop)+
qed

lemma assert_modem_blind: "io_blind I \<Longrightarrow> keeps I (modem_load_assert_modem os)"
  unfolding modem_load_assert_modem_def by (rule keeps_intros ioctrl_blind | assumption)+

section \<open>Events\<close>

locale boot_events = loader_events +
  assumes requests: "P (Ioctl fd c a r)"
    and trusted: "P (Kbc_Verify t r)" "P (Kbc_Unlock t r)"
begin

lemma ev_kbc: "emits P (kernel_bootcp_verify_all os t)" "emits P (kernel_bootcp_unlock_ddr os t)"
  by (auto simp: syscall_defs Let_def intro!: emits_syscall trusted)

lemma ev_start: "emits P (modem_load_start os cfg lt)"
proof -
  have ioctl: "emits P (sys_ioctl os fd c a)" for fd c a
    by (auto simp: syscall_defs Let_def intro!: emits_syscall requests)
  have start: "emits P (modem_ioctrl_start os p)" for p
    unfolding ioctrl_defs iocmd_ret_def modem_iocmd_def case_prod_beta
    by (rule emits_intros ev_calls ioctl)+
  show ?thesis
    unfolding modem_load_start_def modem_load_each_def modem_load_run_def
    by (rule emits_intros ev_intros ev_image start)+
qed

lemma ev_wait_remote: "emits P (modem_load_wait_remote os li w)"
proof -
  have loop: "emits P (wait_remote_loop os p w n)" for p n
  proof (induction os p w n rule: wait_remote_loop.induct)
    case (1 os p w n)
    show ?case
      by (subst wait_remote_loop.simps) (rule emits_intros ev_intros "1" | assumption)+
  qed
  show ?thesis
    unfolding modem_load_wait_remote_def by (rule emits_intros loop)+
qed

lemma ev_rescan: "emits P (modem_rescan_ep_device os)"
  unfolding modem_rescan_ep_device_def modem_chane_ep_device_owner_def modem_write_file_def ctl_defs
  by (rule emits_intros ev_intros)+

lemma ev_secure_boot: "emits P (secure_boot_unlock_ddr os)" "emits P (secure_boot_verify_all os cfg)"
  unfolding secure_boot_unlock_ddr_def secure_boot_verify_all_def
  by (rule emits_intros ev_kbc ev_secure | simp)+

lemma ev_load_modem: "emits P (load_modem_img os cfg sp lt)"
  unfolding load_modem_img_def load_modem_img_ext_def load_modem_img_int_def load_sp_ext_def load_spl_stage_def
    load_miniap_stage_def ctl_defs Let_def
  by (rule emits_intros ev_intros ev_table ev_stop ev_start ev_secure ev_secure_boot ev_wait_remote ev_rescan | simp)+

lemma ev_load_spl: "emits P (load_spl_img os cfg sp)"
  unfolding load_spl_img_def by (rule emits_intros ev_intros ev_table)+

lemma ev_reboot_all: "emits P (modem_reboot_all_modem os cfg sp fuel)"
proof -
  have loop: "emits P (rescan_loop os fuel)"
    by (induction fuel) (auto intro!: emits_intros ev_rescan ev_intros)
  show ?thesis
    unfolding modem_reboot_all_modem_def
    by (rule emits_intros ev_intros ev_load_modem loop)+
qed

lemma ev_assert_modem: "emits P (modem_load_assert_modem os)"
  unfolding modem_load_assert_modem_def by (rule emits_intros ev_intros)+

lemmas ev_boot = ev_load_modem ev_load_spl ev_reboot_all ev_assert_modem ev_rescan

end

end
