(* ===== verification/Modem_Connect.thy ===== *)
theory Modem_Connect
  imports Load_Frame
begin

text \<open>
  \<open>modem_connect.c\<close>: the sockets of the clients (loggers, the radio interface layer, audio),
  the pipe through which they reach the controller, and what happens before a message from the
  modem is passed on. A thread of the code is one definition for what it does before its
  endless loop and one for the body of the loop; the local variables that survive an iteration
  of the reader are fields of the state. The locale \<open>descriptor_table\<close> states what the client
  table promises.
\<close>

section \<open>State\<close>

datatype con_state = MODEMCON_STATE_OFFLINE | MODEMCON_STATE_ALIVE | MODEMCON_STATE_ASSERT | MODEMCON_STATE_RESET

datatype dump_state = DUMP_NONE | DUMP_BEGIN | DUMP_GOING | DUMP_COMPLETE

record conn_world = pcie_world +
  s_fdModemCtrlRead :: int
  s_fdModemCtrlWrite :: int
  s_clientFd :: "int list"
  s_notifypipe :: "int \<times> int"
  s_needResetModem :: bool
  s_wakeLocking :: bool
  s_modemState :: con_state
  rt_later_reset :: bool
  rt_state :: dump_state

definition MAX_CLIENT_NUM :: nat where "MAX_CLIENT_NUM = 20"
definition BUFFER_SIZE :: nat where "BUFFER_SIZE = 128"
definition TIME_FOR_MD_DUMP :: nat where "TIME_FOR_MD_DUMP = 60 * 5"
definition MODEM_SAVE_DUMP_PROP :: string where "MODEM_SAVE_DUMP_PROP = ''persist.vendor.sys.modem.save_dump''"
definition MODEM_RESET_PROP :: string where "MODEM_RESET_PROP = ''persist.vendor.sys.modemreset''"
definition WIFI_ONLY_IMET_PROP :: string where "WIFI_ONLY_IMET_PROP = ''vendor.sys.wifionly.imei''"
definition WIFI_ONLY_VERSION_PROP :: string where "WIFI_ONLY_VERSION_PROP = ''persist.vendor.sys.wifionly''"

definition conn_start :: conn_world where
  "conn_start = pcie_world.extend pcie_start
     \<lparr>s_fdModemCtrlRead = - 1, s_fdModemCtrlWrite = - 1, s_clientFd = replicate MAX_CLIENT_NUM 0,
      s_notifypipe = (- 1, - 1), s_needResetModem = True, s_wakeLocking = False,
      s_modemState = MODEMCON_STATE_OFFLINE, rt_later_reset = False, rt_state = DUMP_NONE\<rparr>"

section \<open>Before a message is passed on\<close>

definition control_nvitemd :: "bool \<Rightarrow> ('z conn_world_scheme, unit) io" where
  "control_nvitemd isStart =
     property_set (if isStart then ''ctl.start'' else ''ctl.stop'') ''vendor.cp_diskserver''"

definition atoi_property :: "os \<Rightarrow> string \<Rightarrow> ('z conn_world_scheme, int) io" where
  "atoi_property os p = bind (property_get os p ''0'') (\<lambda>v. return (atoi v))"

text \<open>The thread that waits for the memory dump before it asks for a reset.\<close>

definition write_reset_to_modem_ctrl :: "os \<Rightarrow> int \<Rightarrow> ('z conn_world_scheme, unit) io" where
  "write_reset_to_modem_ctrl os fd =
     seq (mutex_lock ''s_dumpMtx'')
     (seq (cond_timedwait TIME_FOR_MD_DUMP)
     (seq (mutex_unlock ''s_dumpMtx'')
     (seq (sys_write os fd (PREPARE_RESET @ [NUL]))
     (return ()))))"

definition readIMEI :: "os \<Rightarrow> ('z conn_world_scheme, unit) io" where
  "readIMEI os =
     bind (property_get os WIFI_ONLY_IMET_PROP []) (\<lambda>prop.
     if prop \<noteq> [] then return ()
     else bind (sys_open os ''/dev/stty_lte2'' O_NONBLOCK_RDWR) (\<lambda>fd.
     if fd < 0 then return ()
     else bind (sys_write os fd (''AT+CGSN'' @ [NUL])) (\<lambda>ret.
     if ret < 0 then sys_close fd
     else bind (sys_select os [fd]) (\<lambda>ready.
     if ready = None \<or> ready = Some [] then return ()
     else bind (read_retry os fd (PROPERTY_VALUE_MAX - 1) (os_patience os)) (\<lambda>d.
     if d = None \<or> d = Some [] then sys_close fd
     else seq (property_set WIFI_ONLY_IMET_PROP (filter isdigit (cstr (the d))))
         (sys_close fd))))))"

definition modem_ctrl_process_message :: "os \<Rightarrow> bytes \<Rightarrow> ('z conn_world_scheme, unit) io" where
  "modem_ctrl_process_message os buf =
     (let message = cstr buf in
      if has_substr message MODEM_ALIVE then
        seq (modify (\<lambda>s. s\<lparr>s_modemState := MODEMCON_STATE_ALIVE\<rparr>))
        (seq (control_nvitemd True)
        (bind (property_get os WIFI_ONLY_VERSION_PROP ''false'') (\<lambda>prop.
         do_if (prop = ''true'') (readIMEI os))))
      else if has_substr message MODEM_ASSERT then
        seq (do_if (has_substr message ''P-ARM Modem Assert'') (modify (\<lambda>s. s\<lparr>s_needResetModem := False\<rparr>)))
        (bind (gets s_needResetModem) (\<lambda>need.
         if \<not> need then modify (\<lambda>s. s\<lparr>s_needResetModem := True\<rparr>)
         else seq (modify (\<lambda>s. s\<lparr>s_modemState := MODEMCON_STATE_ASSERT\<rparr>))
           (seq (control_nvitemd False)
           (bind (atoi_property os MODEM_RESET_PROP) (\<lambda>isReset.
           bind (atoi_property os MODEM_SAVE_DUMP_PROP) (\<lambda>isDump.
           if isReset = 0 then return ()
           else if isDump \<noteq> 0 then seq (pthread_create os ''write_reset_to_modem_ctrl'') (return ())
           else bind (gets s_fdModemCtrlWrite) (\<lambda>fd.
             seq (sys_write os fd (PREPARE_RESET @ [NUL])) (return ()))))))))
      else if has_substr message MODEM_RESET then
        seq (control_nvitemd False)
        (bind (gets s_fdModemCtrlWrite) (\<lambda>fd.
         seq (sys_write os fd (MODEM_RESET @ [NUL])) (return ())))
      else return ())"

section \<open>The client table\<close>

definition drop_client :: "nat \<Rightarrow> int list \<Rightarrow> int list" where
  "drop_client i cl = cl[i := - 1]"

text \<open>
  A new client takes the first free slot; in a full table it takes the last one, whose
  descriptor is closed. The result is the slot and the descriptor to close.
\<close>

definition add_client :: "int \<Rightarrow> int list \<Rightarrow> nat \<times> int option \<times> int list" where
  "add_client n cl =
     (case first_index (\<lambda>fd. fd = - 1) cl of
        Some i \<Rightarrow> (i, None, cl[i := n])
      | None \<Rightarrow> (length cl - 1, Some (cl ! (length cl - 1)), cl[length cl - 1 := n]))"

text \<open>The loop over the table in \<open>modem_write_data_to_clients\<close>; the result is that of the last write.\<close>

fun write_clients :: "os \<Rightarrow> bytes \<Rightarrow> nat list \<Rightarrow> int \<Rightarrow> ('z conn_world_scheme, int) io" where
  "write_clients os buf [] ret = return ret"
| "write_clients os buf (i # is) ret =
     bind (gets (\<lambda>s. s_clientFd s ! i)) (\<lambda>fd.
     if fd < 0 then write_clients os buf is ret
     else bind (sys_write os fd buf) (\<lambda>ret.
       seq (do_if (ret < 0) (seq (sys_close fd) (modify (\<lambda>s. s\<lparr>s_clientFd := drop_client i (s_clientFd s)\<rparr>))))
       (write_clients os buf is ret)))"

definition modem_write_data_to_clients :: "os \<Rightarrow> bytes \<Rightarrow> ('z conn_world_scheme, int) io" where
  "modem_write_data_to_clients os buf =
     seq (mutex_lock ''s_writeMutex'')
     (seq (modem_ctrl_process_message os buf)
     (bind (write_clients os buf [0..<MAX_CLIENT_NUM] 0) (\<lambda>ret.
     seq (mutex_unlock ''s_writeMutex'')
     (return ret))))"

definition modem_read_data_from_clients :: "os \<Rightarrow> nat \<Rightarrow> ('z conn_world_scheme, bytes option) io" where
  "modem_read_data_from_clients os n =
     bind (gets s_fdModemCtrlRead) (\<lambda>fd.
     if fd < 0 then return None else sys_read os fd n)"

section \<open>Accepting clients\<close>

text \<open>
  What \<open>modem_setup_clients_connect\<close> does before its loop: the listening socket, if there is
  one. When the second pipe cannot be made its descriptors are left uninitialised.
\<close>

definition clients_setup :: "os \<Rightarrow> ('z conn_world_scheme, int option) io" where
  "clients_setup os =
     seq (modify (\<lambda>s. s\<lparr>s_clientFd := replicate MAX_CLIENT_NUM (- 1)\<rparr>))
     (bind (sys_pipe os) (\<lambda>(r, a, b).
     seq (do_if (0 \<le> r) (modify (\<lambda>s. s\<lparr>s_notifypipe := (a, b)\<rparr>)))
     (bind (sys_pipe os) (\<lambda>(r, a, b).
     bind (uninit os ''filedes[0]'') (\<lambda>u0.
     bind (uninit os ''filedes[1]'') (\<lambda>u1.
     seq (modify (\<lambda>s. s\<lparr>s_fdModemCtrlRead := (if 0 \<le> r then a else sint (ucast u0 :: 32 word)),
            s_fdModemCtrlWrite := (if 0 \<le> r then b else sint (ucast u1 :: 32 word))\<rparr>))
     (bind (socket_local_server os) (\<lambda>sfd.
     if sfd < 0 then return None
     else seq (pthread_create os ''modem_ctrl_read_thread'') (return (Some sfd))))))))))"

definition state_message :: "con_state \<Rightarrow> string" where
  "state_message st =
     (case st of MODEMCON_STATE_OFFLINE \<Rightarrow> ''Modem State: Offline''
      | MODEMCON_STATE_ALIVE \<Rightarrow> ''Modem State: Alive''
      | MODEMCON_STATE_ASSERT \<Rightarrow> ''Modem State: Assert''
      | MODEMCON_STATE_RESET \<Rightarrow> ''Modem State: Reset'')"

text \<open>One round of the accept loop.\<close>

definition accept_client :: "os \<Rightarrow> ('z conn_world_scheme, unit) io" where
  "accept_client os =
     bind (sys_accept os) (\<lambda>n.
     if n = - 1 then return ()
     else bind (gets (\<lambda>s. add_client n (s_clientFd s))) (\<lambda>(i, evicted, cl).
       case evicted of
         None \<Rightarrow>
           seq (modify (\<lambda>s. s\<lparr>s_clientFd := cl\<rparr>))
           (bind (gets s_notifypipe) (\<lambda>p.
           seq (sys_write os (snd p) (''0'' @ [NUL]))
           (bind (gets s_modemState) (\<lambda>st.
           seq (sys_write os n (state_message st @ [NUL]))
           (return ())))))
       | Some old \<Rightarrow>
           seq (sys_close old)
           (seq (modify (\<lambda>s. s\<lparr>s_clientFd := cl\<rparr>))
           (bind (gets s_notifypipe) (\<lambda>p.
           seq (sys_write os (snd p) (''0'' @ [NUL]))
           (return ()))))))"

section \<open>Messages from clients\<close>

definition dispatch_loop_test :: "os \<Rightarrow> ('z conn_world_scheme, unit) io" where
  "dispatch_loop_test os =
     bind (property_get os ''ro.vendor.modem.loop'' ''/dev/spipe_lte0'') (\<lambda>loopDev.
     bind (sys_open os loopDev O_NONBLOCK_RDWR) (\<lambda>loopFd.
     if loopFd < 0 then return ()
     else bind (sys_write os loopFd (''AT'' @ CHR 0x0D # replicate 29 NUL)) (\<lambda>ret.
     if ret < 0 then sys_close loopFd
     else seq (sys_usleep (100 * 1000))
       (seq (read_retry os loopFd (BUFFER_SIZE - 1) (os_patience os))
       (sys_close loopFd)))))"

definition dispatch_modem_blocked :: "os \<Rightarrow> int \<Rightarrow> ('z conn_world_scheme, bool) io" where
  "dispatch_modem_blocked os blockFd =
     seq (sys_write os blockFd (MODEM_BLOCK @ [NUL]))
     (seq (mutex_lock ''s_writeMutex'')
     (bind (gets s_modemState) (\<lambda>st.
     if st \<noteq> MODEMCON_STATE_ALIVE then seq (mutex_unlock ''s_writeMutex'') (return False)
     else seq (modify (\<lambda>s. s\<lparr>s_modemState := MODEMCON_STATE_ASSERT\<rparr>))
     (seq (mutex_unlock ''s_writeMutex'')
     (seq (sys_system ''echo load_modem_img >/sys/power/wake_lock'')
     (seq (modify (\<lambda>s. s\<lparr>s_wakeLocking := True\<rparr>))
     (seq (dispatch_loop_test os)
     (bind (atoi_property os MODEM_SAVE_DUMP_PROP) (\<lambda>isDump.
     seq (do_if (isDump \<noteq> 0) (sys_sleep 5))
     (seq (modem_write_data_to_clients os (MODEM_BLOCK @ [NUL]))
     (bind (atoi_property os MODEM_RESET_PROP) (\<lambda>isReset.
     seq (control_nvitemd False)
     (bind (if isReset \<noteq> 0 then
              (if isDump \<noteq> 0 then return True
               else seq (do_if (0 \<le> blockFd) (sys_write os blockFd (MODEM_RESET @ [NUL]))) (return False))
            else return False) (\<lambda>isWait.
     seq (modify (\<lambda>s. s\<lparr>s_wakeLocking := False\<rparr>))
     (seq (sys_system ''echo load_modem_img >/sys/power/wake_unlock'')
     (return isWait))))))))))))))))"

definition dump_state_of :: "string \<Rightarrow> dump_state \<Rightarrow> dump_state" where
  "dump_state_of info old =
     (if has_substr info ''SLOGMODEM DUMP BEGIN'' then DUMP_BEGIN
      else if has_substr info ''SLOGMODEM DUMP ONGOING'' then DUMP_GOING
      else if has_substr info ''SLOGMODEM DUMP COMPLETE'' then DUMP_COMPLETE
      else old)"

text \<open>
  A message of a client. The dump state is not reset between messages. The 128 byte buffer is
  searched as a string, also when the message fills it and leaves no room for a terminator.
\<close>

definition client_message :: "os \<Rightarrow> bytes \<Rightarrow> ('z conn_world_scheme, unit) io" where
  "client_message os d =
     (if length d = BUFFER_SIZE \<and> NUL \<notin> set d then stop (Fault ''modem_ctrl_read_thread: unterminated message'')
      else let info = cstr d in
       seq (modify (\<lambda>s. s\<lparr>rt_state := dump_state_of info (rt_state s)\<rparr>))
       (if has_substr info MODEM_BLOCK then
          bind (gets s_fdModemCtrlWrite) (\<lambda>fd.
          bind (dispatch_modem_blocked os fd) (\<lambda>w.
          modify (\<lambda>s. s\<lparr>rt_later_reset := w\<rparr>)))
        else if has_substr info ''AGDSP Assert'' then
          seq (modem_write_data_to_clients os d) (return ())
        else bind (gets rt_state) (\<lambda>st.
          do_if (st = DUMP_COMPLETE)
            (seq (mutex_lock ''s_dumpMtx'')
            (seq cond_signal_dump
            (seq (mutex_unlock ''s_dumpMtx'')
            (bind (gets rt_later_reset) (\<lambda>later.
             do_if later
               (seq (modify (\<lambda>s. s\<lparr>rt_later_reset := False\<rparr>))
               (bind (gets s_fdModemCtrlWrite) (\<lambda>fd.
                do_if (0 \<le> fd) (sys_write os fd (MODEM_RESET @ [NUL])))))))))))))"

text \<open>The loop over the table after \<open>select\<close>; \<open>num\<close> counts the ready descriptors still to find.\<close>

fun read_clients :: "os \<Rightarrow> int list \<Rightarrow> nat list \<Rightarrow> nat \<Rightarrow> ('z conn_world_scheme, unit) io" where
  "read_clients os ready [] num = return ()"
| "read_clients os ready (i # is) num =
     (if num = 0 then return ()
      else bind (gets (\<lambda>s. s_clientFd s ! i)) (\<lambda>nfd.
        if nfd = - 1 \<or> nfd \<notin> set ready then read_clients os ready is num
        else bind (sys_read os nfd BUFFER_SIZE) (\<lambda>d.
          seq (if d = None \<or> d = Some []
               then seq (sys_close nfd) (modify (\<lambda>s. s\<lparr>s_clientFd := drop_client i (s_clientFd s)\<rparr>))
               else client_message os (the d))
          (read_clients os ready is (num - 1)))))"

text \<open>One round of \<open>modem_ctrl_read_thread\<close>.\<close>

definition read_thread_round :: "os \<Rightarrow> ('z conn_world_scheme, unit) io" where
  "read_thread_round os =
     bind (gets (\<lambda>s. fst (s_notifypipe s))) (\<lambda>nfd.
     if nfd < 0 then stop (Fault ''modem_ctrl_read_thread: FD_SET of -1'')
     else bind (gets (\<lambda>s. filter (\<lambda>fd. fd \<noteq> - 1) (s_clientFd s))) (\<lambda>cl.
     bind (sys_select os (nfd # cl)) (\<lambda>r. case r of
       None \<Rightarrow> return ()
     | Some ready \<Rightarrow>
       if nfd \<in> set ready
       then seq (sys_read os nfd 31)
           (if length ready = 1 then return () else read_clients os ready [0..<MAX_CLIENT_NUM] (length ready))
       else read_clients os ready [0..<MAX_CLIENT_NUM] (length ready))))"

section \<open>The contract of the client table\<close>

text \<open>
  A table of descriptors of limited size: no operation loses a descriptor. What was in the
  table before an insertion, together with the new descriptor, is afterwards either in the
  table or handed out to be closed.
\<close>

locale descriptor_table =
  fixes add :: "int \<Rightarrow> 't \<Rightarrow> nat \<times> int option \<times> 't"
    and drop_at :: "nat \<Rightarrow> 't \<Rightarrow> 't"
    and fd_at :: "'t \<Rightarrow> nat \<Rightarrow> int"
    and held :: "'t \<Rightarrow> int multiset"
    and fine :: "'t \<Rightarrow> bool"
    and slots :: nat
    and empty_table :: 't
  assumes empty_fine: "fine empty_table" "held empty_table = {#}"
    and add_fine: "fine t \<Longrightarrow> 0 \<le> n \<Longrightarrow> fine (snd (snd (add n t)))"
    and drop_fine: "fine t \<Longrightarrow> fine (drop_at i t)"
    and add_free: "fine t \<Longrightarrow> 0 \<le> n \<Longrightarrow> add n t = (i, None, t') \<Longrightarrow> held t' = add_mset n (held t)"
    and add_full: "fine t \<Longrightarrow> 0 \<le> n \<Longrightarrow> add n t = (i, Some old, t') \<Longrightarrow>
      old \<in># held t \<and> held t' = add_mset n (held t - {#old#})"
    and drop_held: "fine t \<Longrightarrow> i < slots \<Longrightarrow> 0 \<le> fd_at t i \<Longrightarrow>
      fd_at t i \<in># held t \<and> held (drop_at i t) = held t - {#fd_at t i#}"
    and held_bound: "fine t \<Longrightarrow> size (held t) \<le> slots"
    and held_nonneg: "fine t \<Longrightarrow> n \<in># held t \<Longrightarrow> 0 \<le> n"
begin

lemma conserved:
  assumes "fine t" "0 \<le> n" "add n t = (i, evicted, t')"
  shows "held t' + (case evicted of None \<Rightarrow> {#} | Some old \<Rightarrow> {#old#}) = add_mset n (held t)"
proof (cases evicted)
  case None
  with add_free [OF assms(1,2)] assms(3) show ?thesis by simp
next
  case (Some old)
  with add_full [OF assms(1,2)] assms(3) show ?thesis by (auto simp: multiset_eq_iff)
qed

lemma newest_held:
  assumes "fine t" "0 \<le> n" "add n t = (i, evicted, t')"
  shows "n \<in># held t'"
  using assms add_free add_full by (cases evicted) auto

text \<open>Descriptors owned by somebody else stay outside when the table changes.\<close>

lemma add_within:
  assumes "fine t" "0 \<le> n" "add n t = (i, None, t')" "S + held t \<subseteq># M"
  shows "S + held t' \<subseteq># add_mset n M"
  using assms add_free [OF assms(1-3)] by simp

lemma replace_within:
  assumes "fine t" "0 \<le> n" "add n t = (i, Some old, t')" "S + held t \<subseteq># M"
  shows "old \<in># add_mset n M" "S + held t' \<subseteq># add_mset n M - {#old#}"
proof -
  have old: "old \<in># held t" "held t' = add_mset n (held t - {#old#})"
    using add_full [OF assms(1-3)] by auto
  then show "old \<in># add_mset n M"
    using mset_subset_eqD [OF assms(4), of old] by simp
  obtain H where H: "held t = add_mset old H"
    using old(1) by (rule mset_add)
  have "add_mset old (S + held t') \<subseteq># add_mset n M"
    using assms(4) old(2) H by simp
  then show "S + held t' \<subseteq># add_mset n M - {#old#}"
    by (simp only: insert_subset_eq_iff)
qed

lemma drop_within:
  assumes "fine t" "i < slots" "0 \<le> fd_at t i" "S + held t \<subseteq># M"
  shows "fd_at t i \<in># M" "S + held (drop_at i t) \<subseteq># M - {#fd_at t i#}"
proof -
  have fd: "fd_at t i \<in># held t" "held (drop_at i t) = held t - {#fd_at t i#}"
    using drop_held [OF assms(1-3)] by auto
  then show "fd_at t i \<in># M"
    using mset_subset_eqD [OF assms(4), of "fd_at t i"] by simp
  obtain H where H: "held t = add_mset (fd_at t i) H"
    using fd(1) by (rule mset_add)
  show "S + held (drop_at i t) \<subseteq># M - {#fd_at t i#}"
    using assms(4) fd(2) H by (simp add: insert_subset_eq_iff)
qed

end

definition held_clients :: "int list \<Rightarrow> int multiset" where
  "held_clients cl = mset (filter (\<lambda>fd. 0 \<le> fd) cl)"

definition clients_fine :: "int list \<Rightarrow> bool" where
  "clients_fine cl \<longleftrightarrow> length cl = MAX_CLIENT_NUM \<and> list_all (\<lambda>fd. - 1 \<le> fd) cl"

lemma held_update:
  "i < length cl \<Longrightarrow> held_clients (cl[i := n]) =
     held_clients cl - (if 0 \<le> cl ! i then {#cl ! i#} else {#}) + (if 0 \<le> n then {#n#} else {#})"
proof -
  assume i: "i < length cl"
  have cl: "cl = take i cl @ cl ! i # drop (Suc i) cl"
    using i by (rule id_take_nth_drop)
  have "held_clients cl = held_clients (take i cl) + (if 0 \<le> cl ! i then {#cl ! i#} else {#}) + held_clients (drop (Suc i) cl)"
    by (subst cl) (simp add: held_clients_def)
  then show ?thesis
    using i by (auto simp: upd_conv_take_nth_drop held_clients_def)
qed

lemma held_member: "i < length cl \<Longrightarrow> 0 \<le> cl ! i \<Longrightarrow> cl ! i \<in># held_clients cl"
  by (auto simp: held_clients_def)

interpretation client_table: descriptor_table add_client drop_client "\<lambda>cl i. cl ! i" held_clients clients_fine
  MAX_CLIENT_NUM "replicate MAX_CLIENT_NUM (- 1)"
proof
  show "clients_fine (replicate MAX_CLIENT_NUM (- 1))" "held_clients (replicate MAX_CLIENT_NUM (- 1)) = {#}"
    by (simp_all add: clients_fine_def held_clients_def list_all_iff)
  fix t :: "int list" and n old :: int and i :: nat and t' :: "int list"
  assume t: "clients_fine t"
  then have len: "length t = MAX_CLIENT_NUM" "MAX_CLIENT_NUM - 1 < MAX_CLIENT_NUM"
    by (auto simp: clients_fine_def MAX_CLIENT_NUM_def)
  show "0 \<le> n \<Longrightarrow> clients_fine (snd (snd (add_client n t)))"
    using t by (auto simp: clients_fine_def add_client_def list_all_update split: option.split)
  show "clients_fine (drop_client i t)"
    using t by (auto simp: clients_fine_def drop_client_def list_all_update)
  show "0 \<le> n \<Longrightarrow> add_client n t = (i, None, t') \<Longrightarrow> held_clients t' = add_mset n (held_clients t)"
    by (auto simp: add_client_def held_update dest: first_index_split split: option.splits)
  show "0 \<le> n \<Longrightarrow> add_client n t = (i, Some old, t') \<Longrightarrow>
      old \<in># held_clients t \<and> held_clients t' = add_mset n (held_clients t - {#old#})"
  proof -
    assume n: "0 \<le> n" "add_client n t = (i, Some old, t')"
    then have full: "find (\<lambda>fd. fd = - 1) t = None" "old = t ! (length t - 1)" "t' = t[length t - 1 := n]"
      using first_index_None [of "\<lambda>fd. fd = - 1" t] by (auto simp: add_client_def split: option.splits)
    have last: "length t - 1 < length t"
      using len by simp
    have "- 1 \<notin> set t" "\<forall>fd \<in> set t. - 1 \<le> fd"
      using full(1) t by (auto simp: find_None_iff clients_fine_def list_all_iff)
    with nth_mem [OF last] have "t ! (length t - 1) \<noteq> - 1" "- 1 \<le> t ! (length t - 1)"
      by (metis, blast)
    then have "0 \<le> t ! (length t - 1)" by simp
    with n(1) full last held_member [OF last] show ?thesis
      by (simp add: held_update)
  qed
  show "i < MAX_CLIENT_NUM \<Longrightarrow> 0 \<le> t ! i \<Longrightarrow>
      t ! i \<in># held_clients t \<and> held_clients (drop_client i t) = held_clients t - {#t ! i#}"
    using len by (simp add: drop_client_def held_update held_member)
  show "size (held_clients t) \<le> MAX_CLIENT_NUM"
    using len size_filter_mset_lesseq [of "\<lambda>fd. 0 \<le> fd" "mset t"] by (simp add: held_clients_def)
  show "n \<in># held_clients t \<Longrightarrow> 0 \<le> n"
    by (auto simp: held_clients_def)
qed

section \<open>Descriptors of the connection\<close>

text \<open>The four pipe ends; they do not change after the set-up.\<close>

definition pipe_ends :: "'z conn_world_scheme \<Rightarrow> int list" where
  "pipe_ends s = [s_fdModemCtrlRead s, s_fdModemCtrlWrite s, fst (s_notifypipe s), snd (s_notifypipe s)]"

definition owns :: "'z conn_world_scheme \<Rightarrow> int list \<times> int list" where
  "owns s = (pipe_ends s, s_clientFd s)"

text \<open>
  The invariant of the connection: the pipe ends are the first four of \<open>F\<close> (the others belong
  to other threads), the client table is well formed, no descriptor was ever used outside its
  life, and every descriptor of \<open>F\<close> and of the table is open.
\<close>

definition conn_inv :: "int list \<Rightarrow> 'z conn_world_scheme \<Rightarrow> bool" where
  "conn_inv F s \<longleftrightarrow> pipe_ends s = take 4 F \<and> clients_fine (s_clientFd s) \<and>
     (\<exists>M. run_events fd_step {#} (trace s) = Some M \<and> mset F + held_clients (s_clientFd s) \<subseteq># M)"

lemma owns_blind: "load_blind (\<lambda>s. owns s = X)"
  by (simp add: load_blind_def io_blind_def owns_def pipe_ends_def)

lemma owns_io: "io_blind (\<lambda>s. owns s = X)"
  using load_blindD(1) [OF owns_blind] .

text \<open>
  \<open>fd_leaves L M m\<close>: started with the descriptors \<open>M\<close> open, \<open>m\<close> uses only open ones and
  leaves at least \<open>L\<close> open.
\<close>

definition fd_leaves :: "int multiset \<Rightarrow> int multiset \<Rightarrow> ('z world_scheme, 'a) io \<Rightarrow> bool" where
  "fd_leaves L M m \<longleftrightarrow> (\<forall>s r0. run_events fd_step r0 (trace s) = Some M \<longrightarrow>
     wp m (\<lambda>_ t. \<exists>M'. run_events fd_step r0 (trace t) = Some M' \<and> L \<subseteq># M') (\<lambda>_ _. True) s)"

named_theorems leaves_intros "descriptors left open"

lemma leaves_return [leaves_intros]: "L \<subseteq># M \<Longrightarrow> fd_leaves L M (return a)"
  by (simp add: fd_leaves_def wp_rules)

lemma leaves_bind [leaves_intros]:
  "tracks fd_step M m N \<Longrightarrow> (\<And>a. fd_leaves L (N a) (f a)) \<Longrightarrow> fd_leaves L M (bind m f)"
  unfolding fd_leaves_def tracks_def wp_bind by (blast intro: wp_conseq)

lemma leaves_seq [leaves_intros]:
  "tracks fd_step M m (\<lambda>_. M') \<Longrightarrow> fd_leaves L M' n \<Longrightarrow> fd_leaves L M (seq m n)"
  unfolding seq_def by (rule leaves_bind)

lemma leaves_if [leaves_intros]:
  "(b \<Longrightarrow> fd_leaves L M m) \<Longrightarrow> (\<not> b \<Longrightarrow> fd_leaves L M n) \<Longrightarrow> fd_leaves L M (if b then m else n)"
  by simp

lemma leaves_last: "tracks fd_step M m (\<lambda>_. M') \<Longrightarrow> L \<subseteq># M' \<Longrightarrow> fd_leaves L M m"
  unfolding fd_leaves_def tracks_def by (blast intro: wp_conseq)

lemma readIMEI_leaves: "fd_leaves M M (readIMEI os)"
  unfolding readIMEI_def
  by (rule leaves_intros fd_intros retry_fd leaves_last [OF fd_close] | simp)+

lemma clean_leaves: "fd_clean m \<Longrightarrow> fd_leaves M M m"
  by (rule leaves_last [OF fd_cleanD]) simp_all

text \<open>Operations that do not touch the pipe ends and the table keep the invariant.\<close>

lemma conn_keeps:
  fixes m :: "('z conn_world_scheme, 'a) io"
  assumes leaves: "\<And>M. fd_leaves M M m" and owns: "\<And>X. keeps (\<lambda>s. owns s = X) m"
  shows "keeps (conn_inv F) m"
  unfolding keeps_def
proof (intro allI impI)
  fix s :: "'z conn_world_scheme"
  assume inv: "conn_inv F s"
  then obtain M where M: "run_events fd_step {#} (trace s) = Some M" "mset F + held_clients (s_clientFd s) \<subseteq># M"
    by (auto simp: conn_inv_def)
  have "wp m (\<lambda>_ t. (\<exists>M'. run_events fd_step {#} (trace t) = Some M' \<and> M \<subseteq># M') \<and> owns t = owns s)
      (\<lambda>r t. True \<and> True) s"
    using leaves [unfolded fd_leaves_def, rule_format, OF M(1)] owns [unfolded keeps_def, rule_format, OF refl]
    by (rule wp_conj)
  then show "wp m (\<lambda>_. conn_inv F) (\<lambda>_ _. True) s"
    by (rule wp_conseq) (use inv M in \<open>auto simp: conn_inv_def owns_def pipe_ends_def intro: subset_mset.trans\<close>)
qed

lemma conn_clean: "fd_clean m \<Longrightarrow> (\<And>X. keeps (\<lambda>s. owns s = X) m) \<Longrightarrow> keeps (conn_inv F) m"
  by (rule conn_keeps [OF clean_leaves])

lemma conn_io: "fd_clean m \<Longrightarrow> (\<And>I. io_blind I \<Longrightarrow> keeps I m) \<Longrightarrow> keeps (conn_inv F) m"
  by (rule conn_clean) (auto intro: owns_io)

lemma conn_quiet:
  "keeps (conn_inv F) (sys_usleep n)" "keeps (conn_inv F) (sys_sleep n)" "keeps (conn_inv F) (property_get os p v)"
  "keeps (conn_inv F) (property_set p v)" "keeps (conn_inv F) (sys_system p)"
  "keeps (conn_inv F) (pthread_create os p)" "keeps (conn_inv F) (sys_select os fds)"
  "keeps (conn_inv F) cond_signal_dump" "keeps (conn_inv F) (cond_timedwait n)" "keeps (conn_inv F) (mutex_lock m)"
  "keeps (conn_inv F) (mutex_unlock m)" "keeps (conn_inv F) (sys_setitimer n)"
  by (rule conn_io fd_cleanI fd_intros io_blind_keeps | assumption)+

lemma conn_modify:
  "(\<And>s. trace (f s) = trace s \<and> owns (f s) = owns s) \<Longrightarrow> keeps (conn_inv F) (modify f)"
  by (rule keeps_modify) (simp add: conn_inv_def owns_def)

lemma conn_event:
  assumes "conn_inv F s" "\<And>M. mset F + held_clients (s_clientFd s) \<subseteq># M \<Longrightarrow> fd_step M e = Some M"
  shows "conn_inv F (s\<lparr>trace := trace s @ [e]\<rparr>)"
  using assms by (auto simp: conn_inv_def pipe_ends_def run_events_append)

lemma conn_transfer:
  assumes "fd \<in> set F"
  shows "keeps (conn_inv F) (sys_write os fd d)" "keeps (conn_inv F) (sys_read os fd n)"
proof -
  have "mset F + H \<subseteq># M \<Longrightarrow> fd \<in># M" for H M
    using assms by (metis in_multiset_in_set mset_subset_eqD union_iff)
  then show "keeps (conn_inv F) (sys_write os fd d)" "keeps (conn_inv F) (sys_read os fd n)"
    by (auto simp: syscall_defs Let_def intro!: keeps_syscall conn_event)
qed

text \<open>A pipe end read from the state is that of \<open>F\<close>.\<close>

lemma conn_pipe:
  assumes "conn_inv F s"
  shows "4 \<le> length F" "s_fdModemCtrlRead s = F ! 0" "s_fdModemCtrlWrite s = F ! 1" "s_notifypipe s = (F ! 2, F ! 3)"
proof -
  have F: "pipe_ends s = take 4 F"
    using assms by (simp add: conn_inv_def)
  from arg_cong [OF this, of length] show len: "4 \<le> length F"
    by (simp add: pipe_ends_def)
  have "pipe_ends s ! i = F ! i" if "i < 4" for i
    using F that by simp
  from this [of 0] this [of 1] this [of 2] this [of 3] show "s_fdModemCtrlRead s = F ! 0"
    "s_fdModemCtrlWrite s = F ! 1" "s_notifypipe s = (F ! 2, F ! 3)"
    by (simp_all add: pipe_ends_def prod_eq_iff numeral_2_eq_2 numeral_3_eq_3)
qed

lemma conn_gets:
  "keeps (conn_inv F) (f (F ! 0)) \<Longrightarrow> keeps (conn_inv F) (bind (gets s_fdModemCtrlRead) f)"
  "keeps (conn_inv F) (f (F ! 1)) \<Longrightarrow> keeps (conn_inv F) (bind (gets s_fdModemCtrlWrite) f)"
  "keeps (conn_inv F) (g (F ! 2, F ! 3)) \<Longrightarrow> keeps (conn_inv F) (bind (gets s_notifypipe) g)"
  by (rule keeps_gets_bind; simp add: keeps_def conn_pipe)+

lemma pipe_end_mem [simp]: "4 \<le> length F \<Longrightarrow> i < 4 \<Longrightarrow> F ! i \<in> set F"
  by (rule nth_mem) simp

lemma conn_ends: "keeps (conn_inv F) m" if "4 \<le> length F \<Longrightarrow> keeps (conn_inv F) m"
  using that conn_pipe(1) by (auto simp: keeps_def)

lemma process_message_conn: "keeps (conn_inv F) (modem_ctrl_process_message os buf)"
proof (rule conn_ends)
  assume F: "4 \<le> length F"
  have imei: "keeps (conn_inv F) (readIMEI os)"
    by (rule conn_keeps [OF readIMEI_leaves], unfold readIMEI_def)
      (rule keeps_intros io_blind_keeps io_blind_retry owns_io)+
  show "keeps (conn_inv F) (modem_ctrl_process_message os buf)"
    unfolding modem_ctrl_process_message_def control_nvitemd_def atoi_property_def Let_def
    by (rule conn_gets keeps_intros conn_modify conn_quiet conn_transfer imei
        | simp add: F owns_def pipe_ends_def)+
qed

text \<open>The loop over the clients: a slot is used and emptied while its descriptor is open.\<close>

lemma client_open:
  assumes "conn_inv F s" "i < MAX_CLIENT_NUM" "0 \<le> s_clientFd s ! i" "mset F + held_clients (s_clientFd s) \<subseteq># M"
  shows "s_clientFd s ! i \<in># M"
    "mset F + held_clients (drop_client i (s_clientFd s)) \<subseteq># M - {#s_clientFd s ! i#}"
  using client_table.drop_within [of "s_clientFd s" i "mset F" M] assms by (auto simp: conn_inv_def)

lemma client_drop:
  assumes "conn_inv F s" "i < MAX_CLIENT_NUM" "0 \<le> s_clientFd s ! i"
  shows "conn_inv F (s\<lparr>trace := trace s @ [Close (s_clientFd s ! i)], s_clientFd := drop_client i (s_clientFd s)\<rparr>)"
proof -
  obtain M where M: "run_events fd_step {#} (trace s) = Some M" "mset F + held_clients (s_clientFd s) \<subseteq># M"
    using assms(1) by (auto simp: conn_inv_def)
  with client_open [OF assms M(2)] client_table.drop_fine [of "s_clientFd s" i] assms(1) show ?thesis
    by (auto simp: conn_inv_def pipe_ends_def run_events_append)
qed

lemma write_clients_conn:
  "\<forall>i \<in> set is. i < MAX_CLIENT_NUM \<Longrightarrow> keeps (conn_inv F :: 'z conn_world_scheme \<Rightarrow> bool) (write_clients os buf is ret)"
proof (induction "is" arbitrary: ret)
  case (Cons i "is")
  have rest: "conn_inv F t \<Longrightarrow> wp (write_clients os buf is r) (\<lambda>_. conn_inv F) (\<lambda>_ _. True) t"
    for r and t :: "'z conn_world_scheme"
    using Cons by (auto simp: keeps_def)
  show ?case
    unfolding write_clients.simps
  proof (rule keeps_gets_bind)
    fix s :: "'z conn_world_scheme"
    assume inv: "conn_inv F s"
    let ?fd = "s_clientFd s ! i"
    have sent: "conn_inv F (s\<lparr>trace := trace s @ [Write ?fd buf w]\<rparr>)" if "0 \<le> ?fd" for w
      using inv that client_open(1) [OF inv _ that] Cons.prems by (auto intro!: conn_event)
    have "conn_inv F (s\<lparr>trace := (trace s @ [Write ?fd buf w]) @ [Close ?fd], s_clientFd := drop_client i (s_clientFd s)\<rparr>)"
      if "0 \<le> ?fd" for w
      using client_drop [OF sent [OF that, of w], of i] that Cons.prems by simp
    then show "wp (if ?fd < 0 then write_clients os buf is ret
        else bind (sys_write os ?fd buf) (\<lambda>ret. seq (do_if (ret < 0) (seq (sys_close ?fd)
            (modify (\<lambda>s. s\<lparr>s_clientFd := drop_client i (s_clientFd s)\<rparr>)))) (write_clients os buf is ret)))
        (\<lambda>_. conn_inv F) (\<lambda>_ _. True) s"
      by (auto simp: wp_rules wp_close wp_write Let_def simp del: append_assoc intro!: rest inv sent)
  qed
qed (simp add: keeps_return)

lemma write_data_conn: "keeps (conn_inv F) (modem_write_data_to_clients os buf)"
  unfolding modem_write_data_to_clients_def
  by (rule keeps_intros conn_quiet process_message_conn write_clients_conn | simp)+

lemma read_data_conn: "keeps (conn_inv F) (modem_read_data_from_clients os n)"
proof (rule conn_ends)
  assume F: "4 \<le> length F"
  show "keeps (conn_inv F) (modem_read_data_from_clients os n)"
    unfolding modem_read_data_from_clients_def
    by (rule conn_gets keeps_intros conn_transfer | simp add: F)+
qed

lemma accept_conn:
  fixes s :: "'z conn_world_scheme"
  assumes "conn_inv F s" "0 \<le> n" "add_client n (s_clientFd s) = (i, evicted, cl)"
  shows "evicted = None \<Longrightarrow> conn_inv F (s\<lparr>trace := trace s @ [Accept n], s_clientFd := cl\<rparr>)"
    "evicted = Some old \<Longrightarrow> conn_inv F (s\<lparr>trace := (trace s @ [Accept n]) @ [Close old], s_clientFd := cl\<rparr>)"
proof -
  obtain M where M: "run_events fd_step {#} (trace s) = Some M" "mset F + held_clients (s_clientFd s) \<subseteq># M"
    using assms(1) by (auto simp: conn_inv_def)
  have fine: "clients_fine (s_clientFd s)" "clients_fine cl"
    using assms client_table.add_fine [of "s_clientFd s" n] by (auto simp: conn_inv_def)
  show "evicted = None \<Longrightarrow> conn_inv F (s\<lparr>trace := trace s @ [Accept n], s_clientFd := cl\<rparr>)"
    using client_table.add_within [OF fine(1) assms(2) _ M(2)] assms M fine
    by (auto simp: conn_inv_def pipe_ends_def run_events_append)
  show "evicted = Some old \<Longrightarrow> conn_inv F (s\<lparr>trace := (trace s @ [Accept n]) @ [Close old], s_clientFd := cl\<rparr>)"
    using client_table.replace_within [OF fine(1) assms(2) _ M(2)] assms M fine
    by (auto simp: conn_inv_def pipe_ends_def run_events_append)
qed

lemma state_message_nonempty: "state_message st \<noteq> []"
  by (cases st) (simp_all add: state_message_def)

text \<open>The new client is written to right after it was entered.\<close>

lemma conn_client_write:
  "keeps (\<lambda>s. conn_inv F s \<and> fd \<in># held_clients (s_clientFd s)) (sys_write os fd' d)"
  if "fd' = fd \<or> fd' \<in> set F"
proof -
  have "fd' \<in># M" if "mset F + held_clients cl \<subseteq># M" "fd \<in># held_clients cl" for M cl
    using \<open>fd' = fd \<or> fd' \<in> set F\<close> mset_subset_eqD [OF that(1), of fd'] that(2) by auto
  then show ?thesis
    by (auto simp: syscall_defs Let_def intro!: keeps_syscall conn_event)
qed

lemma accept_client_conn: "keeps (conn_inv F) (accept_client os)"
proof (rule conn_ends)
  assume F: "4 \<le> length F"
  show "keeps (conn_inv F :: 'a conn_world_scheme \<Rightarrow> bool) (accept_client os)"
    unfolding keeps_def
  proof (intro allI impI)
    fix s :: "'a conn_world_scheme"
    assume inv: "conn_inv F s"
    define n where "n = max (- 1) (os_accept os (trace s))"
    define i where "i = fst (add_client n (s_clientFd s))"
    define evicted where "evicted = fst (snd (add_client n (s_clientFd s)))"
    define cl where "cl = snd (snd (add_client n (s_clientFd s)))"
    have add: "add_client n (s_clientFd s) = (i, evicted, cl)"
      by (simp add: i_def evicted_def cl_def)
    have ends: "s_notifypipe s = (F ! 2, F ! 3)" "F ! 3 \<in> set F"
      using conn_pipe [OF inv] by simp_all
    have closed: "conn_inv F (s\<lparr>trace := trace s @ [Accept (- 1)]\<rparr>)"
      by (rule conn_event [OF inv]) simp
    have full: "wp (sys_write os (F ! 3) d) (\<lambda>_. conn_inv F) (\<lambda>_ _. True)
        (s\<lparr>trace := (trace s @ [Accept n]) @ [Close old], s_clientFd := cl\<rparr>)"
      if "0 \<le> n" "evicted = Some old" for old d
      using conn_transfer(1) [OF ends(2), of os d, unfolded keeps_def, rule_format,
          OF accept_conn(2) [OF inv that(1) add that(2)]] .
    let ?J = "\<lambda>t. conn_inv F t \<and> n \<in># held_clients (s_clientFd t)"
    have entered: "?J (s\<lparr>trace := trace s @ [Accept n], s_clientFd := cl\<rparr>)"
      if "0 \<le> n" "evicted = None"
      using accept_conn(1) [OF inv that(1) add that(2)] client_table.newest_held [OF _ that(1) add] inv
      by (simp add: conn_inv_def)
    have greet: "keeps ?J (seq (sys_write os (F ! 3) d) (bind (gets s_modemState) (\<lambda>st.
        seq (sys_write os n (state_message st @ [NUL])) (return ()))))" for d
      by (rule keeps_intros conn_client_write | simp add: ends)+
    have free: "wp (seq (sys_write os (F ! 3) d) (bind (gets s_modemState) (\<lambda>st.
        seq (sys_write os n (state_message st @ [NUL])) (return ())))) (\<lambda>_. conn_inv F) (\<lambda>_ _. True)
        (s\<lparr>trace := trace s @ [Accept n], s_clientFd := cl\<rparr>)" if "0 \<le> n" "evicted = None" for d
      using greet [unfolded keeps_def, rule_format, OF entered [OF that]] by (rule wp_conseq) simp_all
    have "wp (accept_client os) (\<lambda>_. conn_inv F) (\<lambda>_ _. True) s =
      (if n = - 1 then conn_inv F (s\<lparr>trace := trace s @ [Accept n]\<rparr>)
       else case evicted of
         None \<Rightarrow> wp (seq (sys_write os (F ! 3) (''0'' @ [NUL])) (bind (gets s_modemState) (\<lambda>st.
           seq (sys_write os n (state_message st @ [NUL])) (return ())))) (\<lambda>_. conn_inv F) (\<lambda>_ _. True)
           (s\<lparr>trace := trace s @ [Accept n], s_clientFd := cl\<rparr>)
       | Some old \<Rightarrow> wp (sys_write os (F ! 3) (''0'' @ [NUL])) (\<lambda>_. conn_inv F) (\<lambda>_ _. True)
           (s\<lparr>trace := (trace s @ [Accept n]) @ [Close old], s_clientFd := cl\<rparr>))"
      using ends(1)
      by (simp add: accept_client_def sys_accept_def sys_close_def wp_rules Let_def n_def [symmetric] add case_prod_beta split: option.split)
    moreover have "n \<noteq> - 1 \<Longrightarrow> 0 \<le> n"
      by (simp add: n_def)
    ultimately show "wp (accept_client os) (\<lambda>_. conn_inv F) (\<lambda>_ _. True) s"
      using closed free full by (simp split: option.split)
  qed
qed

lemma loop_test_conn: "keeps (conn_inv F) (dispatch_loop_test os)"
  by (rule conn_io; unfold dispatch_loop_test_def)
    (rule fd_cleanI, (rule track_intros fd_intros retry_fd | simp)+,
     (rule keeps_intros io_blind_keeps io_blind_retry | assumption)+)

lemma dispatch_conn: "fd \<in> set F \<Longrightarrow> keeps (conn_inv F) (dispatch_modem_blocked os fd)"
  unfolding dispatch_modem_blocked_def control_nvitemd_def atoi_property_def
  by (rule keeps_intros conn_modify conn_quiet conn_transfer write_data_conn loop_test_conn
      | assumption | simp add: owns_def pipe_ends_def)+

lemma client_message_conn: "keeps (conn_inv F) (client_message os d)"
proof (rule conn_ends)
  assume F: "4 \<le> length F"
  show "keeps (conn_inv F) (client_message os d)"
    unfolding client_message_def Let_def
    by (rule conn_gets keeps_intros conn_modify conn_quiet conn_transfer write_data_conn dispatch_conn
        | simp add: F owns_def pipe_ends_def)+
qed

lemma read_clients_conn:
  "\<forall>i \<in> set is. i < MAX_CLIENT_NUM \<Longrightarrow>
   keeps (conn_inv F :: 'z conn_world_scheme \<Rightarrow> bool) (read_clients os ready is num)"
proof (induction "is" arbitrary: num)
  case (Cons i "is")
  have rest: "keeps (conn_inv F :: 'z conn_world_scheme \<Rightarrow> bool) (read_clients os ready is k)" for k
    using Cons by auto
  show ?case
    unfolding read_clients.simps
  proof (rule keeps_if keeps_return keeps_gets_bind)+
    fix s :: "'z conn_world_scheme"
    assume inv: "conn_inv F s"
    let ?fd = "s_clientFd s ! i"
    have fd: "?fd \<noteq> - 1 \<Longrightarrow> 0 \<le> ?fd"
      using inv Cons.prems by (auto simp: conn_inv_def clients_fine_def list_all_length dest!: spec [of _ i])
    have got: "conn_inv F (s\<lparr>trace := trace s @ [Read ?fd BUFFER_SIZE d]\<rparr>)" if "?fd \<noteq> - 1" for d
      using client_open(1) [OF inv _ fd [OF that]] Cons.prems by (auto intro!: conn_event [OF inv])
    have gone: "conn_inv F (s\<lparr>trace := (trace s @ [Read ?fd BUFFER_SIZE d]) @ [Close ?fd],
        s_clientFd := drop_client i (s_clientFd s)\<rparr>)" if "?fd \<noteq> - 1" for d
      using client_drop [OF got [OF that, of d], of i] fd [OF that] Cons.prems by simp
    have handle: "conn_inv F t \<Longrightarrow> wp (seq (client_message os b) (read_clients os ready is k)) (\<lambda>_. conn_inv F) (\<lambda>_ _. True) t"
      for b k and t :: "'z conn_world_scheme"
      using keeps_seq [OF client_message_conn rest] by (simp add: keeps_def)
    show "wp (if ?fd = - 1 \<or> ?fd \<notin> set ready then read_clients os ready is num
        else bind (sys_read os ?fd BUFFER_SIZE) (\<lambda>d. seq (if d = None \<or> d = Some []
            then seq (sys_close ?fd) (modify (\<lambda>s. s\<lparr>s_clientFd := drop_client i (s_clientFd s)\<rparr>))
            else client_message os (the d)) (read_clients os ready is (num - 1)))) (\<lambda>_. conn_inv F) (\<lambda>_ _. True) s"
      using rest [of num] rest [of "num - 1"] inv got gone handle
      by (auto simp: keeps_def wp_bind wp_if wp_read wp_seq wp_close wp_modify Let_def simp del: append_assoc)
  qed
qed (simp add: keeps_return)

lemma read_round_conn: "keeps (conn_inv F) (read_thread_round os)"
proof (rule conn_ends)
  assume F: "4 \<le> length F"
  have ends: "keeps (conn_inv F) (f (F ! 2)) \<Longrightarrow> keeps (conn_inv F) (bind (gets (\<lambda>s. fst (s_notifypipe s))) f)" for f
    by (rule keeps_gets_bind) (simp add: keeps_def conn_pipe)
  show "keeps (conn_inv F) (read_thread_round os)"
    unfolding read_thread_round_def
    by (rule ends keeps_intros conn_quiet conn_transfer read_clients_conn | simp add: F)+
qed

lemma conn_grow:
  assumes "conn_inv F s" "\<And>M. fd_step M e = Some (M + N)"
  shows "conn_inv F (s\<lparr>trace := trace s @ [e]\<rparr>)"
proof -
  obtain M where M: "run_events fd_step {#} (trace s) = Some M" "mset F + held_clients (s_clientFd s) \<subseteq># M"
    using assms(1) by (auto simp: conn_inv_def)
  then have "mset F + held_clients (s_clientFd s) \<subseteq># M + N"
    by (meson mset_subset_eq_add_left subset_mset.trans)
  with M assms show ?thesis by (auto simp: conn_inv_def pipe_ends_def run_events_append)
qed

lemma setup_conn:
  fixes s :: "'z conn_world_scheme"
  assumes "run_events fd_step {#} (trace s) = Some M" "\<forall>tr. 0 \<le> fst (os_pipe os tr)"
  shows "wp (clients_setup os) (\<lambda>_ t. conn_inv (pipe_ends t) t) (\<lambda>_ _. True) s"
proof -
  define p where "p = os_pipe os (trace s)"
  define e1 where "e1 = Pipe (fst p) (fst (snd p)) (snd (snd p))"
  define q where "q = os_pipe os (trace s @ [e1])"
  define e2 where "e2 = Pipe (fst q) (fst (snd q)) (snd (snd q))"
  have pq: "0 \<le> fst p" "0 \<le> fst q"
    using assms(2) by (simp_all add: p_def q_def)
  let ?s = "s\<lparr>s_clientFd := replicate MAX_CLIENT_NUM (- 1), trace := trace s @ [e1, e2], s_notifypipe := snd p,
      s_fdModemCtrlRead := fst (snd q), s_fdModemCtrlWrite := snd (snd q)\<rparr>"
  have fds: "run_events fd_step {#} (trace s @ [e1, e2]) =
      Some (add_mset (fst (snd q)) (add_mset (snd (snd q)) (add_mset (fst (snd p)) (add_mset (snd (snd p)) M))))"
    using assms(1) pq by (simp add: run_events_append e1_def e2_def)
  have inv: "conn_inv (pipe_ends ?s) ?s"
    using fds client_table.empty_fine by (auto simp: conn_inv_def pipe_ends_def)
  have socket: "conn_inv (pipe_ends ?s) (?s\<lparr>trace := trace ?s @ [Socket_Server r]\<rparr>)" for r
    using conn_grow [OF inv, of "Socket_Server r" "if r < 0 then {#} else {#r#}"] by simp
  have thread: "conn_inv F (u\<lparr>trace := trace u @ [Thread p b]\<rparr>)" if "conn_inv F u" for F u p b
    using that by (rule conn_event) simp
  show ?thesis
    using pq socket thread [OF socket]
    by (simp add: clients_setup_def sys_pipe_def socket_local_server_def pthread_create_def wp_rules Let_def
        case_prod_beta p_def [symmetric] e1_def [symmetric] q_def [symmetric] e2_def [symmetric] pipe_ends_def)
qed

end
