(* ===== verification/Connect_Service.thy ===== *)
theory Connect_Service
  imports Modem_Connect
begin

text \<open>
  What the connection to the clients promises: its descriptors and its mutexes are used
  properly, every client is offered every message, a report of a blocked modem is acted upon
  once, and what a dump report sets off.
\<close>

section \<open>The write mutex\<close>

text \<open>
  The mutexes a thread holds; locking one that is held already would block for ever, and
  unlocking one that is not held is an error.
\<close>

fun mutex_step :: "string list \<Rightarrow> event \<Rightarrow> string list option" where
  "mutex_step H (Mutex_Lock m) = (if m \<in> set H then None else Some (m # H))"
| "mutex_step H (Mutex_Unlock m) = (if m \<in> set H then Some (remove1 m H) else None)"
| "mutex_step H _ = Some H"

fun no_mutex :: "event \<Rightarrow> bool" where
  "no_mutex (Mutex_Lock m) = False"
| "no_mutex (Mutex_Unlock m) = False"
| "no_mutex _ = True"

interpretation mutex: boot_events no_mutex
  by unfold_locales simp_all

lemma mutex_neutral: "emits no_mutex m \<Longrightarrow> tracks mutex_step H m (\<lambda>_. H)"
proof (rule emits_tracks [where P = no_mutex])
  fix e show "no_mutex e \<Longrightarrow> mutex_step H e = Some H" by (cases e) simp_all
qed

lemma no_mutex_calls:
  "emits no_mutex (property_set p v)" "emits no_mutex (sys_system p)" "emits no_mutex (pthread_create os p)"
  "emits no_mutex (sys_select os fds)" "emits no_mutex cond_signal_dump" "emits no_mutex (cond_timedwait n)"
  "emits no_mutex (sys_setitimer n)" "emits no_mutex (sys_accept os)" "emits no_mutex (sys_close fd)"
  by (auto simp: syscall_defs Let_def intro!: emits_syscall)

lemma no_mutex_retry: "emits no_mutex (read_retry os fd n k)" "emits no_mutex (select_retry os fds k)"
  by (induction k) (auto intro!: emits_intros mutex.ev_calls no_mutex_calls)

lemma no_mutex_message: "emits no_mutex (modem_ctrl_process_message os buf)"
  unfolding modem_ctrl_process_message_def readIMEI_def control_nvitemd_def atoi_property_def Let_def
  by (rule emits_intros mutex.ev_calls no_mutex_calls no_mutex_retry | simp)+

lemma no_mutex_clients: "emits no_mutex (write_clients os buf is ret)"
  by (induction "is" arbitrary: ret) (auto intro!: emits_intros mutex.ev_calls no_mutex_calls)

lemma mutex_lock_call:
  "m \<notin> set H \<Longrightarrow> tracks mutex_step H (mutex_lock m) (\<lambda>_. m # H)"
  "tracks mutex_step (m # H) (mutex_unlock m) (\<lambda>_. H)"
  unfolding syscall_defs by (rule tracks_syscall, simp)+

lemma write_data_mutex: "tracks mutex_step [] (modem_write_data_to_clients os buf) (\<lambda>_. [])"
  unfolding modem_write_data_to_clients_def
  by (rule mutex_lock_call track_intros no_mutex_message [THEN mutex_neutral] no_mutex_clients [THEN mutex_neutral] | simp)+

lemma loop_test_mutex: "emits no_mutex (dispatch_loop_test os)"
  unfolding dispatch_loop_test_def
  by (rule emits_intros mutex.ev_calls no_mutex_calls no_mutex_retry | simp)+

lemma dispatch_mutex: "tracks mutex_step [] (dispatch_modem_blocked os fd) (\<lambda>_. [])"
  unfolding dispatch_modem_blocked_def control_nvitemd_def atoi_property_def
  by (rule mutex_lock_call track_intros write_data_mutex mutex.ev_calls [THEN mutex_neutral]
      no_mutex_calls [THEN mutex_neutral] loop_test_mutex [THEN mutex_neutral] | simp)+

lemma client_message_mutex: "tracks mutex_step [] (client_message os d) (\<lambda>_. [])"
  unfolding client_message_def Let_def
  by (rule mutex_lock_call track_intros write_data_mutex dispatch_mutex mutex.ev_calls [THEN mutex_neutral]
      no_mutex_calls [THEN mutex_neutral] | simp)+

lemma read_clients_mutex: "tracks mutex_step [] (read_clients os ready is num) (\<lambda>_. [])"
  by (induction "is" arbitrary: num)
    (auto intro!: track_intros client_message_mutex mutex.ev_calls [THEN mutex_neutral] no_mutex_calls [THEN mutex_neutral])

lemma read_round_mutex: "tracks mutex_step [] (read_thread_round os) (\<lambda>_. [])"
  unfolding read_thread_round_def
  by (rule track_intros read_clients_mutex mutex.ev_calls [THEN mutex_neutral] no_mutex_calls [THEN mutex_neutral] | simp)+

lemma accept_client_mutex: "tracks mutex_step [] (accept_client os) (\<lambda>_. [])"
  unfolding accept_client_def case_prod_beta
  by (rule mutex_neutral) (rule emits_intros mutex.ev_calls no_mutex_calls | simp)+

section \<open>What the clients receive\<close>

text \<open>
  What a message does to the table: each client is offered the message, and one that does not
  take it is closed and its slot freed. A slot is given with the result of the write to it.
\<close>

fun offered :: "bytes \<Rightarrow> (int \<times> int) list \<Rightarrow> event list" where
  "offered buf [] = []"
| "offered buf ((fd, w) # cs) =
     (if fd < 0 then [] else Write fd buf w # (if w < 0 then [Close fd] else [])) @ offered buf cs"

fun kept :: "int \<times> int \<Rightarrow> int" where
  "kept (fd, w) = (if 0 \<le> fd \<and> w < 0 then - 1 else fd)"

lemma write_clients_events:
  fixes s :: "'z conn_world_scheme"
  assumes "length (s_clientFd s) = n" "k \<le> n"
  shows "wp (write_clients os buf [k..<n] ret)
     (\<lambda>_ t. \<exists>ws. length ws = n - k \<and> trace t = trace s @ offered buf (zip (drop k (s_clientFd s)) ws) \<and>
        s_clientFd t = take k (s_clientFd s) @ map kept (zip (drop k (s_clientFd s)) ws)) (\<lambda>_ _. True) s"
  using assms
proof (induction "n - k" arbitrary: k ret s)
  case (Suc m)
  let ?cl = "s_clientFd s" and ?fd = "s_clientFd s ! k"
  let ?Q = "\<lambda>k s (_ :: int) (t :: 'z conn_world_scheme). \<exists>ws. length ws = n - k \<and>
     trace t = trace s @ offered buf (zip (drop k (s_clientFd s)) ws) \<and>
     s_clientFd t = take k (s_clientFd s) @ map kept (zip (drop k (s_clientFd s)) ws)"
  have k: "k < n" "drop k ?cl = ?fd # drop (Suc k) ?cl"
    using Suc.hyps(2) Suc.prems by (simp_all add: Cons_nth_drop_Suc)
  have rest: "wp (write_clients os buf [Suc k..<n] r) (?Q k s) (\<lambda>_ _. True) u"
    if u: "trace u = trace s @ offered buf [(?fd, w)]" "s_clientFd u = ?cl[k := kept (?fd, w)]"
    for r w and u :: "'z conn_world_scheme"
  proof (rule wp_conseq [OF Suc.hyps(1) [of "Suc k" u r]])
    fix a and t :: "'z conn_world_scheme"
    assume "?Q (Suc k) u a t"
    then obtain ws where "length ws = n - Suc k" "trace t = trace u @ offered buf (zip (drop (Suc k) (s_clientFd u)) ws)"
      "s_clientFd t = take (Suc k) (s_clientFd u) @ map kept (zip (drop (Suc k) (s_clientFd u)) ws)"
      by blast
    with k u Suc.prems show "?Q k s a t"
      by (intro exI [of _ "w # ws"]) (auto simp: take_Suc_conv_app_nth)
  qed (use Suc.hyps(2) Suc.prems u in auto)
  have skip: "?fd < 0 \<Longrightarrow> wp (write_clients os buf [Suc k..<n] ret) (?Q k s) (\<lambda>_ _. True) s"
    by (rule rest [of s 0]) auto
  have sent: "0 \<le> ?fd \<Longrightarrow> \<not> w < 0 \<Longrightarrow> wp (write_clients os buf [Suc k..<n] r) (?Q k s) (\<lambda>_ _. True)
      (s\<lparr>trace := trace s @ [Write ?fd buf w]\<rparr>)" for r w
    by (rule rest [of _ w]) auto
  have dropped: "0 \<le> ?fd \<Longrightarrow> w < 0 \<Longrightarrow> wp (write_clients os buf [Suc k..<n] r) (?Q k s) (\<lambda>_ _. True)
      (s\<lparr>trace := trace s @ [Write ?fd buf w, Close ?fd], s_clientFd := drop_client k ?cl\<rparr>)" for r w
    by (rule rest [of _ w]) (auto simp: drop_client_def)
  show ?case
    unfolding upt_conv_Cons [OF k(1)] write_clients.simps
    using skip sent dropped by (simp add: wp_rules wp_write wp_close Let_def)
qed (simp add: wp_rules)

lemma process_message_owns: "keeps (\<lambda>s. owns s = X) (modem_ctrl_process_message os buf)"
  unfolding modem_ctrl_process_message_def readIMEI_def control_nvitemd_def atoi_property_def Let_def
  by (rule keeps_intros keeps_modify io_blind_keeps io_blind_retry owns_io | simp add: owns_def pipe_ends_def)+

lemma process_message_grows: "grows (modem_ctrl_process_message os buf)"
  by (rule emits_grows [OF no_mutex_message])

lemma blocked_message: "modem_ctrl_process_message os (MODEM_BLOCK @ [NUL]) = return ()"
  by (simp add: modem_ctrl_process_message_def MODEM_BLOCK_def MODEM_ALIVE_def MODEM_ASSERT_def MODEM_RESET_def
      has_substr_def cstr_def)

lemma write_clients_state: "keeps (\<lambda>s. P (s_modemState s)) (write_clients os buf is ret)"
  by (induction "is" arbitrary: ret)
    (auto intro!: keeps_intros keeps_modify io_blind_keeps simp: io_blind_def)

lemma write_blocked_state:
  "keeps (\<lambda>s. P (s_modemState s)) (modem_write_data_to_clients os (MODEM_BLOCK @ [NUL]))"
  unfolding modem_write_data_to_clients_def blocked_message
  by (rule keeps_intros io_blind_keeps write_clients_state | simp add: io_blind_def)+

lemmas conn_start_defs = conn_start_def pcie_start_def pcie_world.defs event_start_def event_world.defs xml_start_def
  xml_world.defs load_start_def load_world.defs head_start_def head_world.defs sec_start_def sec_world.defs
  ctl_start_def ctl_world.defs conn_world.defs

lemma conn_start_trace: "trace conn_start = []"
  by (simp add: conn_start_defs)

lemma conn_start_fields [simp]:
  "s_modemState conn_start = MODEMCON_STATE_OFFLINE" "s_fdModemCtrlWrite conn_start = - 1"
  by (simp_all add: conn_start_defs)

lemma ensures_gets_if:
  "(\<And>s. b (f s) \<Longrightarrow> I s) \<Longrightarrow> keeps I m \<Longrightarrow> ensures n I \<Longrightarrow> ensures (bind (gets f) (\<lambda>x. if b x then m else n)) I"
  by (auto simp: keeps_def ensures_def wp_rules)

section \<open>Properties\<close>

text \<open>
  After the set-up, if the pipes could be made, all four pipe ends are open, the client
  table is empty and well formed, and no descriptor was used outside its life.
\<close>

theorem clients_setup_invariant:
  assumes "run_events fd_step {#} (trace s) \<noteq> None" "\<forall>tr. 0 \<le> fst (os_pipe os tr)" "clients_setup os s = Ret r t"
  shows "conn_inv (pipe_ends t) t"
  using setup_conn [of s _ os] assms by (auto simp: wp_def)

theorem clients_setup_invariant_witness:
  "\<exists>t. clients_setup ok_os conn_start = Ret (Some 5) t \<and> conn_inv (pipe_ends t) t"
proof -
  have tr: "trace conn_start = []"
    by (rule conn_start_trace)
  have "\<exists>t. clients_setup ok_os conn_start = Ret (Some 5) t"
    by (simp add: clients_setup_def syscall_defs io_simps Let_def ok_os_def tr)
  then obtain t where t: "clients_setup ok_os conn_start = Ret (Some 5) t" ..
  moreover have "conn_inv (pipe_ends t) t"
    by (rule clients_setup_invariant [OF _ _ t]) (simp_all add: tr ok_os_def)
  ultimately show ?thesis by blast
qed

text \<open>
  Accepting a client, a round of the reader (with everything a client's message sets off),
  passing a message to the clients and reading the control pipe keep the invariant of the
  connection: every descriptor in the client table is open, none is used after it was closed
  or closed twice, and the table keeps its twenty slots.
\<close>

theorem connection_invariant:
  "keeps (conn_inv F) (accept_client os) \<and> keeps (conn_inv F) (read_thread_round os) \<and>
   keeps (conn_inv F) (modem_write_data_to_clients os buf) \<and> keeps (conn_inv F) (modem_read_data_from_clients os n)"
  by (rule conjI accept_client_conn read_round_conn write_data_conn read_data_conn)+

text \<open>
  C15: The client table is a bounded multiset of descriptors: entering a descriptor loses
  none, the table never holds more than twenty, and the one pushed out of a full table is the
  one that is handed out to be closed.
\<close>

theorem add_client_conserves:
  assumes "clients_fine cl" "0 \<le> n" "add_client n cl = (i, evicted, cl')"
  shows "held_clients cl' + (case evicted of None \<Rightarrow> {#} | Some old \<Rightarrow> {#old#}) = add_mset n (held_clients cl) \<and>
     size (held_clients cl') \<le> MAX_CLIENT_NUM \<and> n \<in># held_clients cl'"
  using client_table.conserved [OF assms] client_table.newest_held [OF assms] assms
    client_table.held_bound [OF client_table.add_fine [OF assms(1,2)]] by simp

theorem add_client_conserves_witness:
  "held_clients (replicate 19 7 @ [40]) + {#7#} = add_mset 40 (held_clients (replicate 20 7))"
proof -
  have twenty: "replicate 20 (7 :: int) = [7, 7, 7, 7, 7, 7, 7, 7, 7, 7, 7, 7, 7, 7, 7, 7, 7, 7, 7, 7]"
    "replicate 19 (7 :: int) = [7, 7, 7, 7, 7, 7, 7, 7, 7, 7, 7, 7, 7, 7, 7, 7, 7, 7, 7]"
    by (simp_all add: numeral_eq_Suc)
  show ?thesis
    using add_client_conserves [of "replicate 20 7" 40 19 "Some 7" "replicate 19 7 @ [40]"]
    by (simp add: twenty clients_fine_def MAX_CLIENT_NUM_def add_client_def)
qed



text \<open>
  A thread never locks a mutex it holds and leaves holding none: a round of the reader,
  with every message it handles, passing a message on, and accepting a client.
\<close>

theorem connection_mutexes:
  "tracks mutex_step [] (read_thread_round os) (\<lambda>_. []) \<and>
   tracks mutex_step [] (modem_write_data_to_clients os buf) (\<lambda>_. []) \<and> tracks mutex_step [] (accept_client os) (\<lambda>_. [])"
  by (rule conjI read_round_mutex write_data_mutex accept_client_mutex)+

text \<open>
  A report of a blocked modem is acted upon once: afterwards the connection is not in
  the alive state, and in any other state than alive such a report is only passed to the
  controller.
\<close>

theorem dispatch_modem_blocked_once:
  fixes s :: "'z conn_world_scheme"
  shows "ensures (dispatch_modem_blocked os fd) (\<lambda>s :: 'z conn_world_scheme. s_modemState s \<noteq> MODEMCON_STATE_ALIVE) \<and>
    (s_modemState s \<noteq> MODEMCON_STATE_ALIVE \<longrightarrow>
     (\<exists>w. dispatch_modem_blocked os fd s = Ret False (s\<lparr>trace := trace s @ [Write fd (MODEM_BLOCK @ [NUL]) w,
       Mutex_Lock ''s_writeMutex'', Mutex_Unlock ''s_writeMutex'']\<rparr>)))"
proof
  let ?J = "\<lambda>s :: 'z conn_world_scheme. s_modemState s \<noteq> MODEMCON_STATE_ALIVE"
  have J: "io_blind ?J"
    by (simp add: io_blind_def)
  note kept = io_blind_keeps [OF J] io_blind_retry [OF J]
  have loop: "keeps ?J (dispatch_loop_test os)"
    unfolding dispatch_loop_test_def by (rule keeps_intros kept)+
  have set: "ensures (modify (\<lambda>s. s\<lparr>s_modemState := MODEMCON_STATE_ASSERT\<rparr>)) ?J"
    by (simp add: ensures_def wp_rules)
  show "ensures (dispatch_modem_blocked os fd) ?J"
    unfolding dispatch_modem_blocked_def control_nvitemd_def atoi_property_def
    by (rule ensures_seq_last ensures_gets_if ensures_seq_first [OF set] loop
        write_blocked_state [where P = "\<lambda>st. st \<noteq> MODEMCON_STATE_ALIVE"] keeps_intros kept keeps_modify | simp)+
  show "?J s \<longrightarrow> (\<exists>w. dispatch_modem_blocked os fd s = Ret False (s\<lparr>trace := trace s @ [Write fd (MODEM_BLOCK @ [NUL]) w,
       Mutex_Lock ''s_writeMutex'', Mutex_Unlock ''s_writeMutex'']\<rparr>))"
    by (auto simp: dispatch_modem_blocked_def syscall_defs io_simps Let_def)
qed

theorem dispatch_modem_blocked_once_witness:
  "\<exists>w. dispatch_modem_blocked ok_os 4 conn_start = Ret False (conn_start\<lparr>trace := [Write 4 (MODEM_BLOCK @ [NUL]) w,
     Mutex_Lock ''s_writeMutex'', Mutex_Unlock ''s_writeMutex'']\<rparr>)"
  using dispatch_modem_blocked_once [of ok_os 4 conn_start] by (simp add: conn_start_trace)

text \<open>
  When \<open>select\<close> fails or nothing arrives while the identity of the device is asked for,
  the modem's device stays open.
\<close>

theorem readIMEI_leaks:
  "\<exists>t. readIMEI (ok_os\<lparr>os_select := (\<lambda>_ _. None)\<rparr>) conn_start = Ret () t \<and>
     run_events fd_step {#} (trace t) = Some {#4#}"
  by (simp add: readIMEI_def strncpy_def cstr_def syscall_defs io_simps Let_def conn_start_trace)

text \<open>
  The end of a dump is remembered for ever: after one report of it, any other message of
  a client wakes the thread that waits for the dump as well.
\<close>

theorem dump_complete_sticks:
  "\<exists>t. seq (client_message os ''SLOGMODEM DUMP COMPLETE'') (client_message os ''hello'') s = Ret () t \<and>
     count_list (trace t) Signal_Dump = count_list (trace s) Signal_Dump + 2"
  by (simp add: client_message_def dump_state_of_def has_substr_def cstr_def BUFFER_SIZE_def MODEM_BLOCK_def syscall_defs io_simps Let_def)

end
