(* ===== verification/Modem_Control.thy ===== *)
theory Modem_Control
  imports Connect_Service
begin

text \<open>
  \<open>modem_control.c\<close> above the loader and the connection: waiting for the modem to come alive,
  resetting it, and the threads that listen to the clients and to the service processor. As in
  the connection, an endless thread is one definition for what comes before its loop and one
  for a round of it; what survives a round is a field of the state. Loops that end only when the
  outside lets them follow \<open>os_patience\<close> repetitions.
\<close>

section \<open>State\<close>

text \<open>
  Locals of threads that survive a round: the message buffer of the listener of the clients, the
  descriptors of the listener of the modem (assert, watchdog and alive device) with its
  \<open>select\<close> set, and the descriptor of the listener of the service processor. \<open>None\<close> is a
  thread that has not passed its set-up.
\<close>

record ctrl_world = conn_world +
  lc_buf :: bytes
  lm_fds :: "(int \<times> int \<times> int) option"
  lm_rfds :: "int list"
  lsp_fd :: "int option"

definition MAX_ASSERT_INFO_LEN :: nat where "MAX_ASSERT_INFO_LEN = 256"
definition DIAG_DEV_PROP :: string where "DIAG_DEV_PROP = ''ro.vendor.modem.diag''"
definition LOG_DEV_PROP :: string where "LOG_DEV_PROP = ''ro.vendor.modem.log''"
definition MODEM_SYSDUMP_PROP :: string where "MODEM_SYSDUMP_PROP = ''persist.vendor.sysdump''"
definition MODEM_REBOOT_MODEMONLY :: string where "MODEM_REBOOT_MODEMONLY = ''persist.vendor.sys.rebootmodemonly''"
definition PMIC_MONITOR_PATH :: string where "PMIC_MONITOR_PATH = ''/dev/sctl_pm''"
definition SIGALRM :: int where "SIGALRM = 14"

definition ctrl_start :: ctrl_world where
  "ctrl_start = conn_world.extend conn_start
     \<lparr>lc_buf = replicate MAX_ASSERT_INFO_LEN NUL, lm_fds = None, lm_rfds = [], lsp_fd = None\<rparr>"

text \<open>A local \<open>int\<close> that was never assigned.\<close>

definition uninit_int :: "os \<Rightarrow> string \<Rightarrow> ('z ctl_world_scheme, int) io" where
  "uninit_int os v = bind (uninit os v) (\<lambda>u. return (sint (ucast u :: 32 word)))"

section \<open>Waiting for the modem to come alive\<close>

definition modem_ctrl_stop_wait_alive_timer :: "('z ctl_world_scheme, unit) io" where
  "modem_ctrl_stop_wait_alive_timer = seq (modify (\<lambda>s. s\<lparr>alive_timer_sec := 0\<rparr>)) (sys_setitimer 0)"

text \<open>\<open>while (cnt++ < 600)\<close>: the device is opened again and again, also after a success.\<close>

fun open_alive :: "os \<Rightarrow> string \<Rightarrow> nat \<Rightarrow> int \<Rightarrow> ('z ctl_world_scheme, int) io" where
  "open_alive os dev 0 fd = return fd"
| "open_alive os dev (Suc n) fd =
     bind (sys_open os dev O_RDONLY) (\<lambda>fd.
     seq (sys_usleep (100 * 1000))
     (open_alive os dev n fd))"

text \<open>The set given to \<open>select\<close> is what the previous call left of it.\<close>

fun alive_loop :: "os \<Rightarrow> int \<Rightarrow> nat \<Rightarrow> int list \<Rightarrow> ('z conn_world_scheme, unit) io" where
  "alive_loop os fd 0 rfds = return ()"
| "alive_loop os fd (Suc n) rfds =
     bind (gets alive_timer_sec) (\<lambda>sec.
     if sec = 0 then return ()
     else bind (select_retry os rfds (os_patience os)) (\<lambda>r.
     seq (others os)
     (case r of
       None \<Rightarrow> seq (sys_sleep 1) (alive_loop os fd n rfds)
     | Some ready \<Rightarrow>
       if ready = [] then alive_loop os fd n []
       else bind (gets alive_timer_sec) (\<lambda>sec.
         if sec = 0 then return ()
         else bind (sys_read os fd 127) (\<lambda>d.
           if d = None \<or> d = Some [] then seq (sys_sleep 1) (alive_loop os fd n ready)
           else if has_substr (cstr (the d)) MODEM_ALIVE then
             seq modem_ctrl_stop_wait_alive_timer
             (seq (modem_ctrl_set_modem_state MODEM_STATE_ALIVE)
             (seq (modem_write_data_to_clients os MODEM_ALIVE)
             (return ())))
           else alive_loop os fd n ready)))))"

definition modem_ctrl_try_read_modem_alive :: "os \<Rightarrow> ('z conn_world_scheme, unit) io" where
  "modem_ctrl_try_read_modem_alive os =
     bind (modem_ctrl_get_alive_dev os 128) (\<lambda>(alive_dev, has_alive_prop).
     if has_alive_prop then return ()
     else bind (uninit_int os ''cnt'') (\<lambda>cnt.
     bind (uninit_int os ''fd'') (\<lambda>fd.
     bind (open_alive os alive_dev (nat (600 - cnt)) fd) (\<lambda>fd.
     if fd < 0 then return ()
     else seq (alive_loop os fd 60 [fd]) (sys_close fd)))))"

definition modem_ctrl_start_wait_alive_timer :: "os \<Rightarrow> ('z conn_world_scheme, unit) io" where
  "modem_ctrl_start_wait_alive_timer os =
     seq (modify (\<lambda>s. s\<lparr>alive_timer_sec := 60\<rparr>))
     (seq (sys_setitimer 60)
     (modem_ctrl_try_read_modem_alive os))"

section \<open>Preparing a reset\<close>

fun open_dev_retry :: "os \<Rightarrow> string \<Rightarrow> nat \<Rightarrow> ('z ctl_world_scheme, int) io" where
  "open_dev_retry os path 0 = stop (Forever ''modem_ctrl_open_dev: interrupted for ever'')"
| "open_dev_retry os path (Suc k) =
     bind (sys_open os path O_NONBLOCK_RDWR) (\<lambda>fd.
     if fd < 0 then
       bind (get_errno os) (\<lambda>e. if e = EINTR \<or> e = EAGAIN then open_dev_retry os path k else return (- 1))
     else return fd)"

definition modem_ctrl_open_dev :: "os \<Rightarrow> string \<Rightarrow> ('z ctl_world_scheme, int) io" where
  "modem_ctrl_open_dev os path = open_dev_retry os path (os_patience os)"

text \<open>\<open>do count = read(...) while (count > 0)\<close>.\<close>

fun drain :: "os \<Rightarrow> int \<Rightarrow> nat \<Rightarrow> ('z ctl_world_scheme, bytes option) io" where
  "drain os fd 0 = stop (Forever ''drain: never empty'')"
| "drain os fd (Suc k) =
     bind (sys_read os fd 2048) (\<lambda>d.
     if d \<noteq> None \<and> d \<noteq> Some [] then drain os fd k else return d)"

fun empty_log :: "os \<Rightarrow> int \<Rightarrow> int list \<Rightarrow> nat \<Rightarrow> ('z ctl_world_scheme, unit) io" where
  "empty_log os fd rfds 0 = stop (Forever ''modem_ctrl_read_empty_log: never empty'')"
| "empty_log os fd rfds (Suc k) =
     bind (select_retry os rfds (os_patience os)) (\<lambda>r.
     case r of
       None \<Rightarrow> return ()
     | Some ready \<Rightarrow>
       if ready = [] then return ()
       else bind (drain os fd (os_patience os)) (\<lambda>d.
         if d = None then return () else empty_log os fd ready k))"

definition modem_ctrl_read_empty_log :: "os \<Rightarrow> int \<Rightarrow> ('z ctl_world_scheme, unit) io" where
  "modem_ctrl_read_empty_log os fd = empty_log os fd [fd] (os_patience os)"

text \<open>The log channel, or the diagnostic channel in its place.\<close>

definition open_log :: "os \<Rightarrow> string \<Rightarrow> string \<Rightarrow> ('z ctl_world_scheme, int) io" where
  "open_log os log_chan diag_chan =
     bind (sys_open os log_chan O_NONBLOCK_RDWR) (\<lambda>log_fd.
     if log_fd < 0 then sys_open os diag_chan O_NONBLOCK_RDWR else return log_fd)"

definition prepare_reset_modem :: "os \<Rightarrow> ('z ctl_world_scheme, unit) io" where
  "prepare_reset_modem os =
     bind (property_get os DIAG_DEV_PROP ''not_find'') (\<lambda>diag_chan.
     bind (property_get os LOG_DEV_PROP ''not_find'') (\<lambda>log_chan.
     bind (open_log os log_chan diag_chan) (\<lambda>log_fd.
     seq (do_if (0 \<le> log_fd) (seq (modem_ctrl_read_empty_log os log_fd) (sys_close log_fd)))
     (bind (sys_open os diag_chan O_NONBLOCK_RDWR) (\<lambda>diag_fd.
     if diag_fd < 0 then return ()
     else seq (drain os diag_fd (os_patience os))
       (seq (modem_ctrl_set_wait_reset_flag True)
       (seq (sys_write os diag_fd [CHR 0x7A, CHR 0x0A])
       (sys_close diag_fd))))))))"

section \<open>The alive timeout\<close>

definition modem_ctrl_reboot_all_system :: "('z ctl_world_scheme, unit) io" where
  "modem_ctrl_reboot_all_system =
     seq (modem_ctrl_set_modem_state MODEM_STATE_REBOOT_SYS)
     (seq (sys_sleep 5)
     (seq (sys_system (''echo '' @ [CHR 0x22] @ ''c'' @ [CHR 0x22] @ '' > /proc/sysrq-trigger''))
     (stop (Forever ''modem_ctrl_reboot_all_system''))))"

text \<open>
  The handler of the alarm signal. Without \<open>FEATURE_EXTERNAL_MODEM\<close> the source does not
  declare the property buffer and never assigns \<open>is_dump_orca\<close>; the model gives it the buffer
  and leaves the flag indeterminate.
\<close>

definition modem_ctrl_alive_timeout :: "os \<Rightarrow> build_config \<Rightarrow> int \<Rightarrow> ('z conn_world_scheme, unit) io" where
  "modem_ctrl_alive_timeout os cfg signo =
     (if signo \<noteq> SIGALRM then return ()
      else bind modem_ctrl_get_modem_state (\<lambda>st.
      if st = MODEM_STATE_ALIVE then return ()
      else bind (gets alive_timer_sec) (\<lambda>sec.
      if sec = 0 then return ()
      else seq (modify (\<lambda>s. s\<lparr>alive_timer_sec := 0\<rparr>))
        (seq (sys_sleep 6)
        (bind (if FEATURE_EXTERNAL_MODEM cfg
               then bind (property_get os MODEM_SYSDUMP_PROP ''off'') (\<lambda>v. return (has_substr v ''on''))
               else bind (uninit os ''is_dump_orca'') (\<lambda>u. return (u \<noteq> 0))) (\<lambda>is_dump_orca.
        bind (atoi_property os MODEM_RESET_PROP) (\<lambda>is_reset.
        if is_reset \<noteq> 0 \<and> \<not> is_dump_orca then modem_ctrl_reboot_all_system
        else seq (modem_ctrl_set_modem_state MODEM_STATE_ASSERT)
          (seq (modem_write_data_to_clients os MODEM_NOT_ALIVE)
          (return ())))))))))"

section \<open>Booting\<close>

definition modem_ctrl_boot_modem ::
  "os \<Rightarrow> build_config \<Rightarrow> secure_params \<Rightarrow> xml_env \<Rightarrow> ('z conn_world_scheme, int) io" where
  "modem_ctrl_boot_modem os cfg sp xe =
     bind (init_modem_img_info os cfg sp xe) (\<lambda>r.
     if r \<noteq> 0 then return (- 1)
     else bind (modem_has_been_boot os) (\<lambda>modem_is_alive.
     bind (modem_ctrl_parse_cmdline os (Some ''shutdown'')) (\<lambda>p.
     seq (do_if (p \<noteq> 0 \<and> \<not> modem_is_alive) (load_modem_img os cfg sp LOAD_ALL_IMG))
     (seq (pthread_create os ''modem_ctrl_listen_sp'')
     (seq (do_if (\<not> FEATURE_REMOVE_SPRD_MODEM cfg)
             (seq (pthread_create os ''modem_ctrl_listen_modem'')
             (seq (sys_signal ''modem_ctrl_alive_timeout'')
             (do_if (\<not> modem_is_alive) (modem_ctrl_start_wait_alive_timer os)))))
     (return 0))))))"

section \<open>Listening to the clients\<close>

definition modem_ctrl_reboot_external_modem ::
  "os \<Rightarrow> build_config \<Rightarrow> secure_params \<Rightarrow> ('z pcie_world_scheme, unit) io" where
  "modem_ctrl_reboot_external_modem os cfg sp =
     seq (modem_ctrl_set_modem_state MODEM_STATE_REBOOT_EXT_MODEM)
     (modem_reboot_all_modem os cfg sp (os_patience os))"

text \<open>At most fifty looks at the reset flag, 100 ms apart.\<close>

fun wait_reset_loop :: "os \<Rightarrow> nat \<Rightarrow> ('z ctl_world_scheme, unit) io" where
  "wait_reset_loop os 0 = return ()"
| "wait_reset_loop os (Suc cnt) =
     seq (sys_usleep (100 * 1000))
     (seq (others os)
     (bind (gets wait_modem_reset) (\<lambda>w.
     if 0 < cnt \<and> w then wait_reset_loop os cnt else return ())))"

definition modem_only :: "os \<Rightarrow> ('z conn_world_scheme, bool) io" where
  "modem_only os = bind (atoi_property os MODEM_REBOOT_MODEMONLY) (\<lambda>v. return (v \<noteq> 0))"

text \<open>\<open>Modem Reset\<close>: load the modem again.\<close>

definition handle_reset :: "os \<Rightarrow> build_config \<Rightarrow> secure_params \<Rightarrow> ('z conn_world_scheme, unit) io" where
  "handle_reset os cfg sp =
     seq modem_ctrl_stop_wait_alive_timer
     (seq (if FEATURE_EXTERNAL_MODEM cfg
           then bind (modem_only os) (\<lambda>reboot_modem_only.
             if \<not> reboot_modem_only then modem_ctrl_reboot_external_modem os cfg sp
             else seq (load_modem_img os cfg sp LOAD_MODEM_IMG) (return ()))
           else seq (load_modem_img os cfg sp LOAD_MODEM_IMG) (return ()))
     (modem_ctrl_start_wait_alive_timer os))"

text \<open>\<open>Prepare Reset\<close> for a modem that can reset itself: ask it to, and force it after 5 s.\<close>

definition handle_self_reset :: "os \<Rightarrow> build_config \<Rightarrow> secure_params \<Rightarrow> ('z conn_world_scheme, unit) io" where
  "handle_self_reset os cfg sp =
     seq (prepare_reset_modem os)
     (seq (wait_reset_loop os 50)
     (bind (gets wait_modem_reset) (\<lambda>w.
     do_if w
       (seq modem_ctrl_stop_wait_alive_timer
       (seq (if FEATURE_EXTERNAL_MODEM cfg then modem_ctrl_reboot_external_modem os cfg sp
             else seq (load_modem_img os cfg sp LOAD_MODEM_IMG) (return ()))
       (modem_ctrl_start_wait_alive_timer os))))))"

definition handle_prepare_reset :: "os \<Rightarrow> build_config \<Rightarrow> secure_params \<Rightarrow> ('z conn_world_scheme, unit) io" where
  "handle_prepare_reset os cfg sp =
     (if FEATURE_EXTERNAL_MODEM cfg then
        seq (modify (\<lambda>s. s\<lparr>b_miniap_panic := False\<rparr>))
        (bind (modem_only os) (\<lambda>reboot_modem_only.
         if \<not> reboot_modem_only then
           seq modem_ctrl_stop_wait_alive_timer
           (seq (modem_ctrl_reboot_external_modem os cfg sp)
           (modem_ctrl_start_wait_alive_timer os))
         else handle_self_reset os cfg sp))
      else handle_self_reset os cfg sp)"

definition handle_blocked :: "os \<Rightarrow> ('z conn_world_scheme, unit) io" where
  "handle_blocked os =
     seq (modem_ctrl_set_modem_state MODEM_STATE_BLOCK)
     (bind (atoi_property os MODEM_SAVE_DUMP_PROP) (\<lambda>isDump.
     do_if (isDump \<noteq> 0) (modem_load_assert_modem os)))"

text \<open>
  A round of \<open>modem_ctrl_listen_clients\<close>. The buffer is not cleared: what a message does not
  overwrite is left from earlier ones. A state other than blocked, assert and reset ends the
  round with the suspend blocker still taken.
\<close>

definition handle_message :: "os \<Rightarrow> build_config \<Rightarrow> secure_params \<Rightarrow> string \<Rightarrow> ('z conn_world_scheme, unit) io" where
  "handle_message os cfg sp msg =
     seq (do_if (has_substr msg MODEM_BLOCK) (handle_blocked os))
     (bind modem_ctrl_get_modem_state (\<lambda>st.
     if st \<noteq> MODEM_STATE_BLOCK \<and> st \<noteq> MODEM_STATE_ASSERT \<and> st \<noteq> MODEM_STATE_RESET then return ()
     else seq (if has_substr msg MODEM_RESET then handle_reset os cfg sp
               else if has_substr msg PREPARE_RESET then handle_prepare_reset os cfg sp
               else return ())
           (modem_ctrl_enable_wake_lock os False)))"

definition listen_clients_round :: "os \<Rightarrow> build_config \<Rightarrow> secure_params \<Rightarrow> ('z ctrl_world_scheme, unit) io" where
  "listen_clients_round os cfg sp =
     bind (modem_read_data_from_clients os MAX_ASSERT_INFO_LEN) (\<lambda>d.
     if d = None \<or> d = Some [] then sys_sleep 1
     else seq (modify (\<lambda>s. s\<lparr>lc_buf := the d @ drop (length (the d)) (lc_buf s)\<rparr>))
       (bind (gets lc_buf) (\<lambda>buf.
       seq (modem_ctrl_enable_wake_lock os True)
       (if NUL \<notin> set buf then stop (Fault ''modem_ctrl_listen_clients: unterminated message'')
        else handle_message os cfg sp (cstr buf)))))"

section \<open>Listening to the service processor\<close>

fun open_sp :: "os \<Rightarrow> nat \<Rightarrow> ('z ctl_world_scheme, int option) io" where
  "open_sp os 0 = return None"
| "open_sp os (Suc try_cnt) =
     bind (sys_open os PMIC_MONITOR_PATH O_RDWR) (\<lambda>fd.
     if 0 \<le> fd then return (Some fd)
     else bind (get_errno os) (\<lambda>e.
       if e = ENOENT then return None else seq (sys_sleep 1) (open_sp os try_cnt)))"

definition listen_sp_setup :: "os \<Rightarrow> ('z ctrl_world_scheme, unit) io" where
  "listen_sp_setup os =
     bind (open_sp os 60) (\<lambda>r. case r of
       None \<Rightarrow> return ()
     | Some fd \<Rightarrow>
       bind (atoi_property os ''ro.debuggable'') (\<lambda>debuggable.
       seq (do_if (debuggable = 0)
              (bind (property_get os ''persist.vendor.modem.spwdt'' ''on'') (\<lambda>v.
               do_if (v \<noteq> ''off'') (sys_write os fd ''watchdog on''))))
       (modify (\<lambda>s. s\<lparr>lsp_fd := Some fd\<rparr>))))"

text \<open>A round of \<open>modem_ctrl_listen_sp\<close>; an error of \<open>select\<close> ends the thread.\<close>

definition listen_sp_round :: "os \<Rightarrow> int \<Rightarrow> ('z ctrl_world_scheme, unit) io" where
  "listen_sp_round os fd =
     bind (sys_select os [fd]) (\<lambda>r. case r of
       None \<Rightarrow> bind (get_errno os) (\<lambda>e.
         if e = EINTR \<or> e = EAGAIN then sys_sleep 1
         else seq (sys_close fd) (modify (\<lambda>s. s\<lparr>lsp_fd := None\<rparr>)))
     | Some ready \<Rightarrow>
       if ready = [] then return ()
       else seq (modem_ctrl_enable_wake_lock os True)
         (bind (sys_read os fd 127) (\<lambda>d.
         if d = None \<or> d = Some [] then return ()
         else if \<not> has_substr (cstr (the d)) ''P-ARM Modem Assert'' then return ()
         else bind (atoi_property os MODEM_RESET_PROP) (\<lambda>is_reset.
           seq (do_if (is_reset \<noteq> 0) modem_ctrl_reboot_all_system)
           (bind modem_ctrl_get_boot_mode (\<lambda>mode.
           seq (do_if (mode \<noteq> BOOT_MODE_CALIBRATION) (modem_write_data_to_clients os (the d)))
           (modem_ctrl_enable_wake_lock os False)))))))"

section \<open>Descriptors\<close>

text \<open>\<open>turns I m J\<close>: started where \<open>I\<close> holds, \<open>m\<close> ends where \<open>J\<close> holds of its result.\<close>

definition turns :: "('s \<Rightarrow> bool) \<Rightarrow> ('s, 'a) io \<Rightarrow> ('a \<Rightarrow> 's \<Rightarrow> bool) \<Rightarrow> bool" where
  "turns I m J \<longleftrightarrow> (\<forall>s. I s \<longrightarrow> wp m J (\<lambda>_ _. True) s)"

named_theorems turns_intros "how programs change an invariant"

lemma turns_bind [turns_intros]: "turns I m J \<Longrightarrow> (\<And>a. turns (J a) (f a) K) \<Longrightarrow> turns I (bind m f) K"
  unfolding turns_def wp_bind by (blast intro: wp_conseq)

lemma turns_seq [turns_intros]: "turns I m (\<lambda>_. J) \<Longrightarrow> turns J n K \<Longrightarrow> turns I (seq m n) K"
  unfolding seq_def by (rule turns_bind)

lemma turns_return: "(\<And>s. I s \<Longrightarrow> J a s) \<Longrightarrow> turns I (return a) J"
  by (simp add: turns_def wp_rules)

lemma turns_if [turns_intros]: "(b \<Longrightarrow> turns I m J) \<Longrightarrow> (\<not> b \<Longrightarrow> turns I n J) \<Longrightarrow> turns I (if b then m else n) J"
  by simp

lemma turns_option [turns_intros]:
  "(x = None \<Longrightarrow> turns I m J) \<Longrightarrow> (\<And>a. x = Some a \<Longrightarrow> turns I (f a) J) \<Longrightarrow>
   turns I (case x of None \<Rightarrow> m | Some a \<Rightarrow> f a) J"
  by (cases x) simp_all

lemma turns_modify: "(\<And>s. I s \<Longrightarrow> J () (f s)) \<Longrightarrow> turns I (modify f) J"
  by (simp add: turns_def wp_rules)

lemma turns_pre: "turns I m J \<Longrightarrow> (\<And>s. H s \<Longrightarrow> I s) \<Longrightarrow> turns H m J"
  by (auto simp: turns_def)

lemma turns_post: "turns I m J \<Longrightarrow> (\<And>a s. J a s \<Longrightarrow> K a s) \<Longrightarrow> turns I m K"
  unfolding turns_def by (blast intro: wp_conseq)

lemma keeps_turns: "keeps I m \<Longrightarrow> turns I m (\<lambda>_. I)"
  by (simp add: turns_def keeps_def)

lemma turns_keeps: "turns I m (\<lambda>_. I) \<Longrightarrow> keeps I m"
  by (simp add: turns_def keeps_def)

lemma conn_opened:
  assumes "conn_inv F s" "0 \<le> fd"
  shows "conn_inv (F @ [fd]) (s\<lparr>trace := trace s @ [Open p fl fd]\<rparr>)"
proof -
  obtain M where M: "run_events fd_step {#} (trace s) = Some M" "mset F + held_clients (s_clientFd s) \<subseteq># M"
    using assms(1) by (auto simp: conn_inv_def)
  moreover have "add_mset fd (mset F + held_clients (s_clientFd s)) \<subseteq># add_mset fd M"
    using M(2) by simp
  ultimately show ?thesis
    using assms conn_pipe(1) [OF assms(1)] by (auto simp: conn_inv_def pipe_ends_def run_events_append)
qed

lemma conn_closed:
  assumes "conn_inv (F @ [fd]) s" "4 \<le> length F"
  shows "conn_inv F (s\<lparr>trace := trace s @ [Close fd]\<rparr>)"
proof -
  obtain M where M: "run_events fd_step {#} (trace s) = Some M" "add_mset fd (mset F + held_clients (s_clientFd s)) \<subseteq># M"
    using assms(1) by (auto simp: conn_inv_def)
  then have "fd \<in># M" "mset F + held_clients (s_clientFd s) \<subseteq># M - {#fd#}"
    by (simp_all add: insert_subset_eq_iff)
  with M(1) assms show ?thesis
    by (auto simp: conn_inv_def pipe_ends_def run_events_append)
qed

lemma conn_fewer: "conn_inv (F @ G) s \<Longrightarrow> 4 \<le> length F \<Longrightarrow> conn_inv F s"
proof -
  have "mset F + H \<subseteq># M" if "mset F + mset G + H \<subseteq># M" for H M :: "int multiset"
    using that by (rule subset_mset.trans [rotated]) simp
  then show "conn_inv (F @ G) s \<Longrightarrow> 4 \<le> length F \<Longrightarrow> conn_inv F s"
    by (auto simp: conn_inv_def)
qed

lemma conn_open:
  "turns (conn_inv F) (sys_open os p fl) (\<lambda>fd. conn_inv (if 0 \<le> fd then F @ [fd] else F))"
  by (auto simp: turns_def wp_rules Let_def conn_opened intro!: conn_event)

lemma conn_open_next:
  assumes "\<And>fd. 0 \<le> fd \<Longrightarrow> turns (conn_inv (F @ [fd])) (f fd) J" "\<And>fd. fd < 0 \<Longrightarrow> turns (conn_inv F) (f fd) J"
  shows "turns (conn_inv F) (bind (sys_open os p fl) f) J"
  by (rule turns_bind [OF conn_open]) (use assms in \<open>auto simp: not_le\<close>)

lemma conn_close: "4 \<le> length F \<Longrightarrow> turns (conn_inv (F @ [fd])) (sys_close fd) (\<lambda>_. conn_inv F)"
  by (simp add: turns_def wp_rules conn_closed)

lemma conn_wake: "keeps (conn_inv F) (modem_ctrl_enable_wake_lock os b)"
  by (rule conn_io) (auto intro: ctl_fd io_blind_switch)

lemma conn_retry: "keeps (conn_inv F) (select_retry os fds k)"
  by (rule conn_io) (auto intro: io_blind_retry fd_cleanI retry_fd)

lemma conn_others: "keeps (conn_inv F) (others os)"
  unfolding others_def by (rule conn_modify) (simp add: case_prod_beta Let_def owns_def pipe_ends_def)

lemma conn_sets:
  "keeps (conn_inv F) (modem_ctrl_set_modem_state st)" "keeps (conn_inv F) (modem_ctrl_set_wait_reset_flag b)"
  "keeps (conn_inv F) modem_ctrl_get_modem_state" "keeps (conn_inv F) modem_ctrl_get_boot_mode"
  "keeps (conn_inv F) (modem_ctrl_set_miniap_panic b)"
  "keeps (conn_inv F) modem_ctrl_stop_wait_alive_timer" "keeps (conn_inv F) (uninit os v)" "keeps (conn_inv F) (get_errno os)"
  unfolding ctl_defs modem_ctrl_stop_wait_alive_timer_def uninit_def get_errno_def
  by (rule keeps_intros conn_modify conn_quiet | simp add: owns_def pipe_ends_def)+

lemma conn_load:
  "keeps (conn_inv F) (load_modem_img os cfg sp lt)" "keeps (conn_inv F) (modem_reboot_all_modem os cfg sp k)"
  "keeps (conn_inv F) (modem_load_assert_modem os)" "keeps (conn_inv F) (load_spl_img os cfg sp)"
  "keeps (conn_inv F) (modem_rescan_ep_device os)"
  by (rule conn_clean [OF load_modem_fd load_modem_blind [OF owns_blind]]
      conn_clean [OF reboot_all_fd reboot_all_blind [OF owns_blind]]
      conn_clean [OF assert_modem_fd assert_modem_blind [OF owns_io]]
      conn_clean [OF spl_img_fd load_spl_blind [OF load_blindD(4) [OF owns_blind]]] conn_clean [OF rescan_fd rescan_blind [OF owns_io]])+

lemma conn_reboot: "keeps (conn_inv F) modem_ctrl_reboot_all_system"
  unfolding modem_ctrl_reboot_all_system_def
  by (rule keeps_intros conn_sets conn_quiet)+

lemma conn_atoi: "keeps (conn_inv F) (atoi_property os p)" "keeps (conn_inv F) (modem_only os)"
  unfolding atoi_property_def modem_only_def by (rule keeps_intros conn_quiet)+

lemmas conn_rules = conn_wake conn_retry conn_others conn_sets conn_load conn_reboot conn_atoi conn_quiet
  write_data_conn read_data_conn

text \<open>The loop that waits for the first message, while its device is open.\<close>

lemma alive_loop_conn: "fd \<in> set F \<Longrightarrow> keeps (conn_inv F :: 'z conn_world_scheme \<Rightarrow> bool) (alive_loop os fd n rfds)"
proof (induction n arbitrary: rfds)
  case (Suc n)
  then have rest: "keeps (conn_inv F :: 'z conn_world_scheme \<Rightarrow> bool) (alive_loop os fd n r)" for r by simp
  show ?case
    unfolding alive_loop.simps by (rule keeps_intros conn_rules conn_transfer [OF Suc.prems] rest)+
qed (simp add: keeps_return)

lemma open_alive_conn:
  "4 \<le> length F \<Longrightarrow> turns (conn_inv F :: 'z conn_world_scheme \<Rightarrow> bool) (open_alive os dev (Suc n) fd0) (\<lambda>fd. conn_inv (if 0 \<le> fd then F @ [fd] else F))"
proof (induction n arbitrary: fd0)
  case 0
  have pause: "turns (conn_inv G) (seq (sys_usleep k) (return fd)) (\<lambda>r s. r = fd \<and> conn_inv G s)" for G k and fd :: int
    by (rule turns_seq keeps_turns conn_quiet turns_return | simp)+
  show ?case
    by (simp del: open_alive.simps add: open_alive.simps(2)) 
      (rule conn_open_next; simp; rule turns_post [OF pause]; simp)
next
  case (Suc n)
  have "turns (conn_inv F :: 'z conn_world_scheme \<Rightarrow> bool) (open_alive os dev (Suc n) fd) (\<lambda>fd. conn_inv (if 0 \<le> fd then F @ [fd] else F))" for fd
    by (rule Suc.IH [OF Suc.prems])
  then have later: "turns (conn_inv F :: 'z conn_world_scheme \<Rightarrow> bool) (seq (sys_usleep k) (open_alive os dev (Suc n) fd)) (\<lambda>fd. conn_inv (if 0 \<le> fd then F @ [fd] else F))" for k fd
    by (rule turns_seq [OF keeps_turns [OF conn_quiet(1)]])
  show ?case
    unfolding open_alive.simps(2) [of os dev "Suc n"]
    by (rule conn_open_next; rule turns_pre [OF later]) (auto elim: conn_fewer [OF _ Suc.prems])
qed

text \<open>
  The loop that opens the device starts from an indeterminate count; the environments of the
  descriptor theorems are those where it is below 600, so that the device is opened at all.
\<close>

definition count_below :: "os \<Rightarrow> bool" where
  "count_below os \<longleftrightarrow> (\<forall>tr. sint (ucast (os_uninit os tr ''cnt'') :: 32 word) < 600)"

lemma try_alive_conn:
  assumes "count_below os"
  shows "keeps (conn_inv F) (modem_ctrl_try_read_modem_alive os)"
proof (rule conn_ends)
  assume F: "4 \<le> length F"
  have cnt: "turns (conn_inv F) (uninit_int os ''cnt'') (\<lambda>c s. c < 600 \<and> conn_inv F s)"
    using assms by (auto simp: turns_def uninit_int_def wp_rules count_below_def)
  have fd: "turns (\<lambda>s. c < 600 \<and> conn_inv F s) (uninit_int os v) (\<lambda>_ s. c < 600 \<and> conn_inv F s)" for c v
    by (auto simp: turns_def uninit_int_def wp_rules)
  have opens: "turns (\<lambda>s. c < 600 \<and> conn_inv F s) (open_alive os dev (nat (600 - c)) fd0)
      (\<lambda>fd. conn_inv (if 0 \<le> fd then F @ [fd] else F))" for c dev fd0
  proof (cases "c < 600")
    case True
    then obtain n where "nat (600 - c) = Suc n" by (cases "nat (600 - c)") auto
    then show ?thesis
      using open_alive_conn [OF F] by (auto simp: turns_def)
  qed (simp add: turns_def)
  have used: "turns (conn_inv (if 0 \<le> fd then F @ [fd] else F))
      (if fd < 0 then return () else seq (alive_loop os fd 60 [fd]) (sys_close fd)) (\<lambda>_. conn_inv F)" for fd
    by (cases "fd < 0") (simp_all add: turns_return turns_seq [OF keeps_turns [OF alive_loop_conn] conn_close [OF F]])
  have dev: "keeps (conn_inv F) (modem_ctrl_get_alive_dev os k)" for k
    unfolding modem_ctrl_get_alive_dev_def by (rule keeps_intros conn_quiet)+
  show "keeps (conn_inv F) (modem_ctrl_try_read_modem_alive os)"
    unfolding modem_ctrl_try_read_modem_alive_def case_prod_beta
    by (rule turns_keeps) (rule turns_bind [OF keeps_turns [OF dev]] turns_if turns_return turns_bind [OF cnt]
      turns_bind [OF fd] turns_bind [OF opens] used | assumption)+
qed

lemma start_timer_conn:
  "count_below os \<Longrightarrow> keeps (conn_inv F) (modem_ctrl_start_wait_alive_timer os)"
  unfolding modem_ctrl_start_wait_alive_timer_def
  by (rule keeps_intros conn_modify conn_quiet try_alive_conn | simp add: owns_def pipe_ends_def)+

lemma prepare_reset_conn: "keeps (conn_inv F) (prepare_reset_modem os)"
proof -
  have drain: "fd \<in># M \<Longrightarrow> tracks fd_step M (drain os fd k) (\<lambda>_. M)" for fd k and M
    by (induction k) (auto intro!: track_intros fd_intros)
  have log: "fd \<in># M \<Longrightarrow> tracks fd_step M (empty_log os fd r k) (\<lambda>_. M)" for fd r k and M
    by (induction k arbitrary: r) (auto intro!: track_intros retry_fd drain)
  have blind: "io_blind I \<Longrightarrow> keeps I (drain os fd k)" for I fd k
    by (induction k) (auto intro!: keeps_intros io_blind_keeps)
  have log_blind: "io_blind I \<Longrightarrow> keeps I (empty_log os fd r k)" for I fd k r
    by (induction k arbitrary: r) (auto intro!: keeps_intros io_blind_retry blind)
  have chan: "tracks fd_step M (open_log os p q) (\<lambda>fd. if fd < 0 then M else add_mset fd M)" for p q M
    unfolding open_log_def
    by (rule tracks_bind [OF fd_open]) (auto intro: fd_open tracks_return)
  show ?thesis
  proof (rule conn_clean)
    show "fd_clean (prepare_reset_modem os)"
      unfolding prepare_reset_modem_def modem_ctrl_read_empty_log_def ctl_defs
      by (rule fd_cleanI) (rule track_intros chan fd_intros drain log | simp)+
    show "keeps (\<lambda>s. owns s = X) (prepare_reset_modem os)" for X
      unfolding prepare_reset_modem_def modem_ctrl_read_empty_log_def open_log_def ctl_defs
      by (rule keeps_intros keeps_modify io_blind_keeps owns_io blind log_blind | simp add: owns_def pipe_ends_def)+
  qed
qed

lemma wait_reset_conn: "keeps (conn_inv F) (wait_reset_loop os n)"
  by (induction n) (auto intro!: keeps_intros conn_rules)

lemma handle_message_conn:
  assumes "count_below os"
  shows "keeps (conn_inv F) (handle_message os cfg sp msg)"
  unfolding handle_message_def handle_blocked_def handle_reset_def handle_prepare_reset_def handle_self_reset_def
    modem_ctrl_reboot_external_modem_def
  by (rule keeps_intros conn_rules start_timer_conn [OF assms] prepare_reset_conn wait_reset_conn conn_modify
      | simp add: owns_def pipe_ends_def)+

lemma listen_clients_conn: "count_below os \<Longrightarrow> keeps (conn_inv F) (listen_clients_round os cfg sp)"
  unfolding listen_clients_round_def
  by (rule keeps_intros conn_rules handle_message_conn conn_modify | simp add: owns_def pipe_ends_def)+

lemma alive_timeout_conn: "keeps (conn_inv F) (modem_ctrl_alive_timeout os cfg signo)"
  unfolding modem_ctrl_alive_timeout_def
  by (rule keeps_intros conn_rules conn_modify | simp add: owns_def pipe_ends_def)+

end
