(* ===== verification/Control_Service.thy ===== *)
theory Control_Service
  imports Modem_Control
begin

text \<open>
  What the controller leaves alone, its use of the write mutex and of the suspend blocker, and
  how it waits: the bounds of its loops, what the alarm does, and where messages are lost.
\<close>

section \<open>What connection and controller leave alone\<close>

text \<open>
  Conditions on the parts of the state no thread changes after its set-up: the load tables, the
  registered event handlers, the paths of the endpoint, the locals of the other listeners.
\<close>

definition conn_blind :: "('z conn_world_scheme \<Rightarrow> bool) \<Rightarrow> bool" where
  "conn_blind I \<longleftrightarrow> load_blind I \<and>
     (\<forall>s cl st need w later ds rst sec p. I s \<longrightarrow> I (s\<lparr>s_clientFd := cl\<rparr>) \<and> I (s\<lparr>s_modemState := st\<rparr>) \<and>
        I (s\<lparr>s_needResetModem := need\<rparr>) \<and> I (s\<lparr>s_wakeLocking := w\<rparr>) \<and> I (s\<lparr>rt_later_reset := later\<rparr>) \<and>
        I (s\<lparr>rt_state := ds\<rparr>) \<and> I (s\<lparr>wait_modem_reset := rst\<rparr>) \<and> I (s\<lparr>alive_timer_sec := sec\<rparr>) \<and>
        I (s\<lparr>b_miniap_panic := p\<rparr>))"

lemma conn_blindD:
  assumes "conn_blind I"
  shows "load_blind I" "io_blind I"
    "I s \<Longrightarrow> I (s\<lparr>s_clientFd := cl\<rparr>)" "I s \<Longrightarrow> I (s\<lparr>s_modemState := st\<rparr>)" "I s \<Longrightarrow> I (s\<lparr>s_needResetModem := need\<rparr>)"
    "I s \<Longrightarrow> I (s\<lparr>s_wakeLocking := w\<rparr>)" "I s \<Longrightarrow> I (s\<lparr>rt_later_reset := later\<rparr>)" "I s \<Longrightarrow> I (s\<lparr>rt_state := ds\<rparr>)"
    "I s \<Longrightarrow> I (s\<lparr>wait_modem_reset := rst\<rparr>)" "I s \<Longrightarrow> I (s\<lparr>alive_timer_sec := sec\<rparr>)" "I s \<Longrightarrow> I (s\<lparr>b_miniap_panic := p\<rparr>)"
    "I s \<Longrightarrow> I (s\<lparr>g_modem_state := ms\<rparr>)"
  using assms by (auto simp: conn_blind_def intro: load_blindD)

lemmas blind_steps = keeps_intros keeps_modify io_blind_keeps io_blind_retry io_blind_switch

lemma message_blind: "conn_blind I \<Longrightarrow> keeps I (modem_ctrl_process_message os buf)"
  unfolding modem_ctrl_process_message_def readIMEI_def control_nvitemd_def atoi_property_def Let_def
  by (rule blind_steps | erule conn_blindD | assumption | simp)+

lemma write_data_blind:
  assumes "conn_blind I"
  shows "keeps I (modem_write_data_to_clients os buf)"
proof -
  have "keeps I (write_clients os buf is ret)" for "is" ret
    by (induction "is" arbitrary: ret)
      (auto intro!: keeps_intros keeps_modify io_blind_keeps conn_blindD [OF assms])
  then show ?thesis
    unfolding modem_write_data_to_clients_def
    by (intro keeps_intros io_blind_keeps message_blind assms conn_blindD(2) [OF assms])
qed

lemma accept_blind: "conn_blind I \<Longrightarrow> keeps I (accept_client os)"
  unfolding accept_client_def case_prod_beta
  by (rule blind_steps | erule conn_blindD | assumption | simp)+

lemma dispatch_blind:
  assumes "conn_blind I"
  shows "keeps I (dispatch_modem_blocked os fd)"
  unfolding dispatch_modem_blocked_def dispatch_loop_test_def control_nvitemd_def atoi_property_def
  by (rule blind_steps write_data_blind conn_blindD [OF assms] assms | assumption | simp)+

lemma client_message_blind:
  assumes "conn_blind I"
  shows "keeps I (client_message os d)"
  unfolding client_message_def Let_def
  by (rule blind_steps write_data_blind dispatch_blind conn_blindD [OF assms] assms | assumption | simp)+

lemma read_round_blind:
  assumes "conn_blind I"
  shows "keeps I (read_thread_round os)"
proof -
  have "keeps I (read_clients os ready is num)" for ready "is" num
    by (induction "is" arbitrary: num)
      (auto intro!: keeps_intros keeps_modify io_blind_keeps client_message_blind assms conn_blindD [OF assms])
  then show ?thesis
    unfolding read_thread_round_def by (intro keeps_intros io_blind_keeps conn_blindD(2) [OF assms])
qed

lemma others_blind: "conn_blind I \<Longrightarrow> keeps I (others os)"
  unfolding others_def
  by (rule keeps_modify) (simp add: case_prod_beta Let_def conn_blindD)

lemma timer_blind:
  assumes "conn_blind I"
  shows "keeps I modem_ctrl_stop_wait_alive_timer" "keeps I (modem_ctrl_start_wait_alive_timer os)"
proof -
  note steps = keeps_intros keeps_modify io_blind_keeps io_blind_retry conn_blindD [OF assms]
  show stopped: "keeps I modem_ctrl_stop_wait_alive_timer"
    unfolding modem_ctrl_stop_wait_alive_timer_def by (rule steps | assumption)+
  have opens: "keeps I (open_alive os dev n fd)" for dev n fd
    by (induction n arbitrary: fd) (auto intro!: steps)
  have loop: "keeps I (alive_loop os fd n rfds)" for fd n rfds
    by (induction n arbitrary: rfds)
      (auto intro!: steps others_blind [OF assms] stopped write_data_blind [OF assms] simp: ctl_defs)
  show "keeps I (modem_ctrl_start_wait_alive_timer os)"
    unfolding modem_ctrl_start_wait_alive_timer_def modem_ctrl_try_read_modem_alive_def uninit_int_def
      modem_ctrl_get_alive_dev_def case_prod_beta
    by (rule steps opens loop | assumption)+
qed

lemma prepare_reset_blind:
  assumes "conn_blind I"
  shows "keeps I (prepare_reset_modem os)"
proof -
  note steps = keeps_intros keeps_modify io_blind_keeps io_blind_retry conn_blindD [OF assms]
  have drain: "keeps I (drain os fd k)" for fd k
    by (induction k) (auto intro!: steps)
  have log: "keeps I (empty_log os fd r k)" for fd r k
    by (induction k arbitrary: r) (auto intro!: steps drain)
  show ?thesis
    unfolding prepare_reset_modem_def open_log_def modem_ctrl_read_empty_log_def ctl_defs
    by (rule steps drain log | assumption)+
qed

lemma handle_message_blind:
  assumes "conn_blind I"
  shows "keeps I (handle_message os cfg sp msg)"
proof -
  have wait: "keeps I (wait_reset_loop os n)" for n
    by (induction n) (auto intro!: keeps_intros io_blind_keeps others_blind assms conn_blindD [OF assms])
  show ?thesis
    unfolding handle_message_def handle_blocked_def handle_reset_def handle_prepare_reset_def handle_self_reset_def
      modem_ctrl_reboot_external_modem_def modem_only_def atoi_property_def ctl_defs
    by (rule blind_steps load_modem_blind reboot_all_blind assert_modem_blind prepare_reset_blind timer_blind wait
        conn_blindD [OF assms] assms | assumption)+
qed

lemma reboot_system_blind: "conn_blind I \<Longrightarrow> keeps I modem_ctrl_reboot_all_system"
  unfolding modem_ctrl_reboot_all_system_def ctl_defs
  by (rule blind_steps | erule conn_blindD | assumption)+

lemma alive_timeout_blind:
  assumes "conn_blind I"
  shows "keeps I (modem_ctrl_alive_timeout os cfg signo)"
  unfolding modem_ctrl_alive_timeout_def atoi_property_def ctl_defs
  by (rule blind_steps reboot_system_blind write_data_blind conn_blindD [OF assms] assms | assumption)+

lemmas ctrl_blind = write_data_blind accept_blind read_round_blind timer_blind handle_message_blind
  reboot_system_blind alive_timeout_blind

section \<open>The write mutex\<close>

lemmas mutex_steps = track_intros write_data_mutex mutex.ev_intros [THEN mutex_neutral]
  mutex.ev_calls [THEN mutex_neutral] mutex.ev_boot [THEN mutex_neutral] no_mutex_calls [THEN mutex_neutral]
  no_mutex_retry [THEN mutex_neutral]

lemma others_mutex: "tracks mutex_step H (others os) (\<lambda>_. H)"
  unfolding others_def by (rule tracks_modify) (simp_all add: case_prod_beta Let_def)

lemma timer_mutex:
  "tracks mutex_step [] modem_ctrl_stop_wait_alive_timer (\<lambda>_. [])"
  "tracks mutex_step [] (modem_ctrl_start_wait_alive_timer os) (\<lambda>_. [])"
proof -
  show stopped: "tracks mutex_step [] modem_ctrl_stop_wait_alive_timer (\<lambda>_. [])"
    unfolding modem_ctrl_stop_wait_alive_timer_def by (rule mutex_steps | simp)+
  have opens: "tracks mutex_step [] (open_alive os dev n fd) (\<lambda>_. [])" for dev n fd
    by (induction n arbitrary: fd) (auto intro!: mutex_steps)
  have loop: "tracks mutex_step [] (alive_loop os fd n rfds) (\<lambda>_. [])" for fd n rfds
  proof (induction n arbitrary: rfds)
    case (Suc n)
    show ?case
      unfolding alive_loop.simps ctl_defs by (rule mutex_steps others_mutex stopped Suc | simp)+
  qed (simp add: tracks_return)
  show "tracks mutex_step [] (modem_ctrl_start_wait_alive_timer os) (\<lambda>_. [])"
    unfolding modem_ctrl_start_wait_alive_timer_def modem_ctrl_try_read_modem_alive_def uninit_int_def uninit_def
      modem_ctrl_get_alive_dev_def case_prod_beta
    by (rule mutex_steps opens loop | simp)+
qed

lemma prepare_reset_mutex: "tracks mutex_step [] (prepare_reset_modem os) (\<lambda>_. [])"
proof -
  have drain: "tracks mutex_step [] (drain os fd k) (\<lambda>_. [])" for fd k
    by (induction k) (auto intro!: mutex_steps)
  have log: "tracks mutex_step [] (empty_log os fd r k) (\<lambda>_. [])" for fd r k
    by (induction k arbitrary: r) (auto intro!: mutex_steps drain)
  show ?thesis
    unfolding prepare_reset_modem_def open_log_def modem_ctrl_read_empty_log_def ctl_defs
    by (rule mutex_steps drain log | simp)+
qed

lemma handle_message_mutex: "tracks mutex_step [] (handle_message os cfg sp msg) (\<lambda>_. [])"
proof -
  have wait: "tracks mutex_step [] (wait_reset_loop os n) (\<lambda>_. [])" for n
    by (induction n) (auto intro!: mutex_steps others_mutex)
  show ?thesis
    unfolding handle_message_def handle_blocked_def handle_reset_def handle_prepare_reset_def handle_self_reset_def
      modem_ctrl_reboot_external_modem_def modem_only_def atoi_property_def ctl_defs
    by (rule mutex_steps prepare_reset_mutex timer_mutex wait | simp)+
qed

lemma alive_timeout_mutex: "tracks mutex_step [] (modem_ctrl_alive_timeout os cfg signo) (\<lambda>_. [])"
  unfolding modem_ctrl_alive_timeout_def modem_ctrl_reboot_all_system_def atoi_property_def ctl_defs uninit_def
  by (rule mutex_steps | simp)+

lemma listen_clients_mutex: "tracks mutex_step [] (listen_clients_round os cfg sp) (\<lambda>_. [])"
  unfolding listen_clients_round_def modem_read_data_from_clients_def
  by (rule mutex_steps handle_message_mutex | simp)+

lemma listen_sp_mutex: "tracks mutex_step [] (listen_sp_round os fd) (\<lambda>_. [])"
  unfolding listen_sp_round_def modem_ctrl_reboot_all_system_def atoi_property_def ctl_defs get_errno_def
  by (rule mutex_steps | simp)+

section \<open>Properties\<close>

lemma emits_weaken: "emits P m \<Longrightarrow> (\<And>e. P e \<Longrightarrow> Q e) \<Longrightarrow> emits Q m"
proof -
  assume m: "emits P m" and PQ: "\<And>e. P e \<Longrightarrow> Q e"
  have "\<exists>es. trace t = trace s @ es \<and> list_all P es \<Longrightarrow> \<exists>es. trace t = trace s @ es \<and> list_all Q es"
    for s t :: "'a world_scheme"
    using PQ by (blast intro: list.pred_mono_strong)
  then show "emits Q m"
    unfolding emits_def by (intro allI wp_conseq [OF m [unfolded emits_def, rule_format]])
qed

lemma emits_final: "emits P m \<Longrightarrow> \<exists>es. trace (final (m s)) = trace s @ es"
  by (cases "m s") (auto simp: emits_def wp_def dest!: spec [of _ s])

lemma write_data_locks:
  fixes s :: "'z conn_world_scheme"
  shows "\<exists>es. trace (final (modem_write_data_to_clients os buf s)) = trace s @ Mutex_Lock ''s_writeMutex'' # es"
proof -
  define rest :: "('z conn_world_scheme, int) io" where "rest = seq (modem_ctrl_process_message os buf)
    (bind (write_clients os buf [0..<MAX_CLIENT_NUM] 0) (\<lambda>ret. seq (mutex_unlock ''s_writeMutex'') (return ret)))"
  have "emits (\<lambda>_. True) rest"
    unfolding rest_def
    by (rule emits_intros emits_weaken [OF no_mutex_message] emits_weaken [OF no_mutex_clients]
        | simp add: syscall_defs emits_syscall)+
  from emits_final [OF this, where s = "s\<lparr>trace := trace s @ [Mutex_Lock ''s_writeMutex'']\<rparr>"]
  have "\<exists>es. trace (final (seq (mutex_lock ''s_writeMutex'') rest s)) = trace s @ Mutex_Lock ''s_writeMutex'' # es"
    by (auto simp: seq_def bind_def mutex_lock_def syscall_def)
  then show ?thesis
    by (simp only: modem_write_data_to_clients_def rest_def)
qed

text \<open>
  \<open>relocks H m\<close>: in a thread that holds the mutexes \<open>H\<close>, \<open>m\<close> comes back only after it has
  asked for one of them a second time.
\<close>

definition relocks :: "string list \<Rightarrow> ('z world_scheme, 'a) io \<Rightarrow> bool" where
  "relocks H m \<longleftrightarrow> (\<forall>s r0. run_events mutex_step r0 (trace s) = Some H \<longrightarrow>
     wp m (\<lambda>_ t. run_events mutex_step r0 (trace t) = None) (\<lambda>_ _. True) s)"

lemma relocks_bind:
  assumes "emits no_mutex m" "\<And>a. relocks H (f a)"
  shows "relocks H (bind m f)"
  unfolding relocks_def wp_bind
proof (intro allI impI)
  fix s :: "'a world_scheme" and r0
  assume "run_events mutex_step r0 (trace s) = Some H"
  with mutex_neutral [OF assms(1), of H] have "wp m (\<lambda>_ t. run_events mutex_step r0 (trace t) = Some H) (\<lambda>_ _. True) s"
    unfolding tracks_def by (blast intro: wp_conseq)
  then show "wp m (\<lambda>a. wp (f a) (\<lambda>_ t. run_events mutex_step r0 (trace t) = None) (\<lambda>_ _. True)) (\<lambda>_ _. True) s"
    by (rule wp_conseq) (use assms(2) in \<open>auto simp: relocks_def\<close>)
qed

lemma relocks_seq: "emits no_mutex m \<Longrightarrow> relocks H n \<Longrightarrow> relocks H (seq m n)"
  unfolding seq_def by (rule relocks_bind)

lemma relocks_if: "(b \<Longrightarrow> relocks H m) \<Longrightarrow> (\<not> b \<Longrightarrow> relocks H n) \<Longrightarrow> relocks H (if b then m else n)"
  by simp

lemma relocks_stop: "relocks H (stop r)"
  by (simp add: relocks_def wp_rules)

lemma relocks_return: "relocks H m \<Longrightarrow> relocks H (seq m (return ()))"
  by (simp add: relocks_def wp_rules)

lemma relocks_data: "''s_writeMutex'' \<in> set H \<Longrightarrow> relocks H (modem_write_data_to_clients os buf)"
proof (unfold relocks_def, intro allI impI)
  fix s :: "'a conn_world_scheme" and r0
  assume H: "''s_writeMutex'' \<in> set H" "run_events mutex_step r0 (trace s) = Some H"
  obtain es where "trace (final (modem_write_data_to_clients os buf s)) = trace s @ Mutex_Lock ''s_writeMutex'' # es"
    using write_data_locks by blast
  with H show "wp (modem_write_data_to_clients os buf) (\<lambda>_ t. run_events mutex_step r0 (trace t) = None) (\<lambda>_ _. True) s"
    by (auto simp: wp_def run_events_append split: result.split)
qed

lemma write_clients_none: "\<forall>i \<in> set is. s_clientFd s ! i < 0 \<Longrightarrow> write_clients os buf is ret s = Ret ret s"
  by (induction "is") (simp_all add: io_simps)

lemma not_alive_message:
  "has_substr (cstr MODEM_NOT_ALIVE) MODEM_ALIVE = False" "has_substr (cstr MODEM_NOT_ALIVE) MODEM_ASSERT = True"
  "has_substr (cstr MODEM_NOT_ALIVE) ''P-ARM Modem Assert'' = False"
  by (simp_all add: MODEM_NOT_ALIVE_def MODEM_ALIVE_def MODEM_ASSERT_def has_substr_def cstr_def)

lemma conn_start_need: "s_needResetModem conn_start = True"
  by (simp add: conn_start_defs)

lemmas relocks_intros = relocks_return relocks_data relocks_bind relocks_seq relocks_if relocks_stop

lemma unset_property: "strncpy [] n = []" "atoi ''0'' = 0"
  by (simp_all add: strncpy_def cstr_def atoi_def strtol10_def sign_of_def isspace_def isdigit_def digit_val_def LONG_MAX_def LONG_MIN_def)

lemma ctrl_start_trace: "trace ctrl_start = []" "lc_buf ctrl_start = replicate MAX_ASSERT_INFO_LEN NUL"
  by (simp_all add: ctrl_start_def ctrl_world.defs conn_start_defs)

lemma ok_os_uninit: "os_uninit ok_os tr v = 0"
  by (simp add: ok_os_def)

lemma conn_start_load: "cp_load_info conn_start = zero_load_value" "g_modem_state conn_start = MODEM_STATE_INIT"
  by (simp_all add: conn_start_defs)

lemma emits_bind_yields:
  assumes "emits P m" "yields Q m" "\<And>a. Q a \<Longrightarrow> emits P (f a)"
  shows "emits P (bind m f)"
  unfolding emits_def wp_bind
proof
  fix s :: "'a world_scheme"
  let ?E = "\<lambda>_ t. \<exists>es. trace t = trace s @ es \<and> list_all P es"
  have "wp (f a) ?E ?E t" if "(\<exists>es. trace t = trace s @ es \<and> list_all P es) \<and> Q a" for a t
    by (rule wp_conseq [OF assms(3) [unfolded emits_def, rule_format, of a t]]) (use that in fastforce)+
  then show "wp m (\<lambda>a. wp (f a) ?E ?E) ?E s"
    by (intro wp_conseq [OF wp_conj [OF assms(1) [unfolded emits_def, rule_format, of s]
          assms(2) [unfolded yields_def, rule_format, of s]]]) auto
qed

text \<open>
  C28: The wait for the modem's own reset always ends, after at least one and at most fifty
  pauses of 100 ms (5 s), and it ends early only when the flag has been cleared.
\<close>

theorem wait_reset_loop_ends:
  "\<exists>t es. wait_reset_loop os n s = Ret () t \<and> trace t = trace s @ es \<and> length es = pauses es \<and> pauses es \<le> n \<and>
     (0 < n \<longrightarrow> 0 < pauses es) \<and> (wait_modem_reset t \<longrightarrow> pauses es = n)"
proof (induction n arbitrary: s)
  case 0
  show ?case by (simp add: return_def pauses_def)
next
  case (Suc n)
  obtain u where u: "others os (s\<lparr>trace := trace s @ [Sleep 100000]\<rparr>) = Ret () u" "trace u = trace s @ [Sleep 100000]"
    by (simp add: others_def modify_def case_prod_beta Let_def)
  have now: "pauses [Sleep 100000] = 1"
    by (simp add: pauses_def pause_def)
  show ?case
  proof (cases "0 < n \<and> wait_modem_reset u")
    case True
    obtain t es where "wait_reset_loop os n u = Ret () t" "trace t = trace u @ es" "length es = pauses es" "pauses es \<le> n"
      "wait_modem_reset t \<longrightarrow> pauses es = n"
      using Suc.IH by blast
    with True u show ?thesis
      by (intro exI [of _ t] exI [of _ "Sleep 100000 # es"])
        (simp add: seq_def bind_def syscall_defs syscall_def gets_def pauses_def pause_def)
  next
    case False
    then have "wait_reset_loop os (Suc n) s = Ret () u"
      using u by (auto simp: seq_def bind_def syscall_defs syscall_def gets_def return_def)
    with False u now show ?thesis
      by (intro exI [of _ u] exI [of _ "[Sleep 100000]"]) auto
  qed
qed

theorem wait_reset_loop_ends_witness:
  "\<exists>t es. wait_reset_loop (ok_os\<lparr>os_others := (\<lambda>tr (st, w, sec). (st, False, sec))\<rparr>) 50 (ctl_start\<lparr>wait_modem_reset := True\<rparr>) = Ret () t \<and>
     trace t = es \<and> 0 < pauses es \<and> pauses es \<le> 50"
  using wait_reset_loop_ends [of "ok_os\<lparr>os_others := (\<lambda>tr (st, w, sec). (st, False, sec))\<rparr>" 50 "ctl_start\<lparr>wait_modem_reset := True\<rparr>"]
  by (auto simp: ctl_start_def)

text \<open>
  The alarm is acted upon once: after the handler has returned, the timer is stopped or
  the modem is alive, and a further alarm changes nothing.
\<close>

theorem alive_timeout_once:
  fixes s :: "'z conn_world_scheme"
  assumes "modem_ctrl_alive_timeout os cfg SIGALRM s = Ret () t"
  shows "modem_ctrl_alive_timeout os cfg signo t = Ret () t"
proof -
  let ?J = "\<lambda>t :: 'z conn_world_scheme. g_modem_state t = MODEM_STATE_ALIVE \<or> alive_timer_sec t = 0"
  let ?Z = "\<lambda>t :: 'z conn_world_scheme. alive_timer_sec t = 0"
  have Z: "io_blind ?Z"
    by (simp add: io_blind_def)
  have data: "keeps ?Z (modem_write_data_to_clients os buf)" for buf
  proof -
    have "keeps ?Z (write_clients os buf is ret)" for "is" ret
      by (induction "is" arbitrary: ret) (auto intro!: keeps_intros keeps_modify io_blind_keeps Z)
    moreover have "keeps ?Z (modem_ctrl_process_message os buf)"
      unfolding modem_ctrl_process_message_def readIMEI_def control_nvitemd_def atoi_property_def Let_def
      by (rule keeps_intros keeps_modify io_blind_keeps io_blind_retry Z | simp)+
    ultimately show ?thesis
      unfolding modem_write_data_to_clients_def by (intro keeps_intros io_blind_keeps Z)
  qed
  have stopped: "ensures (modify (\<lambda>s. s\<lparr>alive_timer_sec := 0\<rparr>)) ?Z"
    by (simp add: ensures_def wp_rules)
  have main: "ensures (seq (modify (\<lambda>s. s\<lparr>alive_timer_sec := 0\<rparr>)) m) ?J" if "keeps ?Z m"
    for m :: "('z conn_world_scheme, unit) io"
    using ensures_seq_first [OF stopped that] unfolding ensures_def by (blast intro: wp_conseq)
  have "ensures (modem_ctrl_alive_timeout os cfg SIGALRM) ?J"
    unfolding modem_ctrl_alive_timeout_def modem_ctrl_reboot_all_system_def ctl_defs atoi_property_def simp_thms if_False
    by (rule ensures_gets_if main keeps_intros keeps_modify io_blind_keeps Z data | simp)+
  then have "?J t"
    using assms by (auto simp: ensures_def wp_def dest!: spec [of _ s])
  then show ?thesis
    by (auto simp: modem_ctrl_alive_timeout_def ctl_defs io_simps)
qed

theorem alive_timeout_once_witness:
  "modem_ctrl_alive_timeout ok_os base_config 14 (conn_start\<lparr>g_modem_state := MODEM_STATE_ALIVE\<rparr>) =
     Ret () (conn_start\<lparr>g_modem_state := MODEM_STATE_ALIVE\<rparr>)"
  by (rule alive_timeout_once [where s = "conn_start\<lparr>g_modem_state := MODEM_STATE_ALIVE\<rparr>"])
    (simp add: modem_ctrl_alive_timeout_def ctl_defs io_simps)

text \<open>
  Once \<open>select\<close> has timed out, the thread that waits for the first message is deaf: the
  set it passes on is empty, and the device is never read again.
\<close>

theorem alive_loop_deaf:
  "emits (\<lambda>e. \<forall>fd n d. e \<noteq> Read fd n d) (alive_loop os fd n [])"
proof -
  let ?P = "\<lambda>e. \<forall>fd n d. e \<noteq> Read fd n d"
  have calls: "emits ?P (select_retry os [] k)" "emits ?P (others os)" "emits ?P (sys_sleep 1)" for k
    by (induction k) (auto simp: others_def case_prod_beta Let_def syscall_defs intro!: emits_intros emits_syscall)
  have empty: "yields (\<lambda>r. r = None \<or> r = Some []) (select_retry os [] k)" for k
    by (induction k) (auto simp: yields_def wp_rules syscall_defs Let_def)
  show ?thesis
  proof (induction n)
    case (Suc n)
    show ?case
      unfolding alive_loop.simps
      by (rule emits_intros emits_bind_yields [OF _ empty] calls Suc)+ (auto intro: Suc)
  qed (simp add: emits_return)
qed

text \<open>
  The device the first message comes from is opened again and again, also when it was
  opened before: each of the rounds leaves one more descriptor open, of which only the last is
  closed.
\<close>

theorem open_alive_leaks:
  assumes "\<forall>tr p fl. 0 \<le> os_open os tr p fl" "run_events fd_step {#} (trace s) = Some M"
  shows "\<exists>r t M'. open_alive os dev n fd s = Ret r t \<and> run_events fd_step {#} (trace t) = Some M' \<and> size M' = size M + n"
  using assms(2)
proof (induction n arbitrary: s fd M)
  case (Suc n)
  let ?fd = "os_open os (trace s) dev O_RDONLY"
  let ?s = "s\<lparr>trace := trace s @ [Open dev O_RDONLY ?fd, Sleep 100000]\<rparr>"
  have "run_events fd_step {#} (trace ?s) = Some (add_mset ?fd M)"
    using Suc.prems assms(1) by (simp add: run_events_append not_less)
  from Suc.IH [OF this, of ?fd] show ?case
    by (simp add: syscall_defs io_simps Let_def)
qed (simp add: return_def)

theorem open_alive_leaks_witness:
  "\<exists>r t M. open_alive ok_os ''/dev/stty_lte0'' 600 (- 1) ctl_start = Ret r t \<and>
     run_events fd_step {#} (trace t) = Some M \<and> size M = 600"
  using open_alive_leaks [of ok_os ctl_start "{#}" "''/dev/stty_lte0''" 600 "- 1"] by (simp add: ctl_start_def)



text \<open>
  A message in any other state ends the round with the suspend blocker still taken.
\<close>

theorem skipped_message_keeps_blocker:
  "\<exists>t. listen_clients_round (ok_os\<lparr>os_read := (\<lambda>tr fd n. Some (MODEM_RESET @ [NUL]))\<rparr>) base_config sample_params
       (ctrl_start\<lparr>s_fdModemCtrlRead := 3, g_modem_state := MODEM_STATE_ALIVE\<rparr>) = Ret () t \<and>
     run_events wake_step False (trace t) = Some True"
  by (simp add: listen_clients_round_def modem_read_data_from_clients_def handle_message_def ctl_defs has_substr_def
      MODEM_BLOCK_def MODEM_RESET_def MAX_ASSERT_INFO_LEN_def cstr_def modem_ctrl_enable_wake_lock_def ctrl_start_trace
      wake_lock_path_def syscall_defs io_simps Let_def)

text \<open>
  Messages of the control pipe that arrive together are taken for one: of a report of a
  blocked modem and the request to reset it, read at once, the request is lost, and the modem
  stays blocked.
\<close>

theorem coalesced_message_lost:
  "\<exists>t. listen_clients_round (ok_os\<lparr>os_read := (\<lambda>tr fd n. Some (MODEM_BLOCK @ [NUL] @ MODEM_RESET @ [NUL]))\<rparr>)
       base_config sample_params (ctrl_start\<lparr>s_fdModemCtrlRead := 3\<rparr>) = Ret () t \<and>
     g_modem_state t = MODEM_STATE_BLOCK \<and> requests (trace t) = []"
  by (simp add: listen_clients_round_def modem_read_data_from_clients_def handle_message_def handle_blocked_def
      atoi_property_def ctl_defs has_substr_def MODEM_BLOCK_def MODEM_RESET_def PREPARE_RESET_def MAX_ASSERT_INFO_LEN_def
      cstr_def modem_ctrl_enable_wake_lock_def unset_property ctrl_start_trace syscall_defs io_simps Let_def)

text \<open>
  C40: The alarm handler writes to the clients, so it takes the write mutex: when the alarm
  interrupts a thread that holds that mutex, and the handler is not skipped, it comes back
  only by asking for the mutex once more, so it blocks for ever (or reboots the system).
\<close>

theorem alarm_deadlocks:
  fixes s :: "'z conn_world_scheme"
  assumes "run_events mutex_step r0 (trace s) = Some H" "''s_writeMutex'' \<in> set H"
    "g_modem_state s \<noteq> MODEM_STATE_ALIVE" "alive_timer_sec s \<noteq> 0"
    "modem_ctrl_alive_timeout os cfg SIGALRM s = Ret () t"
  shows "run_events mutex_step r0 (trace t) = None"
proof -
  define handler :: "('z conn_world_scheme, unit) io" where "handler = bind (if FEATURE_EXTERNAL_MODEM cfg
       then bind (property_get os MODEM_SYSDUMP_PROP ''off'') (\<lambda>v. return (has_substr v ''on''))
       else bind (uninit os ''is_dump_orca'') (\<lambda>u. return (u \<noteq> 0))) (\<lambda>is_dump_orca.
     bind (atoi_property os MODEM_RESET_PROP) (\<lambda>is_reset.
     if is_reset \<noteq> 0 \<and> \<not> is_dump_orca then modem_ctrl_reboot_all_system
     else seq (modem_ctrl_set_modem_state MODEM_STATE_ASSERT)
       (seq (modem_write_data_to_clients os MODEM_NOT_ALIVE) (return ()))))"
  let ?m = "seq (modify (\<lambda>s. s\<lparr>alive_timer_sec := 0\<rparr>)) (seq (sys_sleep 6) handler)"
  have "relocks H ?m"
    unfolding handler_def modem_ctrl_reboot_all_system_def ctl_defs atoi_property_def uninit_def
    by (rule relocks_intros emits_intros mutex.ev_calls no_mutex_calls assms(2) | simp)+
  moreover have "?m s = Ret () t"
    using assms(3-5) by (simp add: modem_ctrl_alive_timeout_def handler_def ctl_defs io_simps)
  ultimately show ?thesis
    using assms(1) by (fastforce simp: relocks_def wp_def)
qed

theorem alarm_deadlocks_witness:
  "\<exists>t. seq (mutex_lock ''s_writeMutex'') (modem_ctrl_alive_timeout ok_os base_config SIGALRM)
       (conn_start\<lparr>alive_timer_sec := 60, s_clientFd := replicate MAX_CLIENT_NUM (- 1)\<rparr>) = Ret () t \<and>
     run_events mutex_step [] (trace t) = None"
proof -
  let ?s = "conn_start\<lparr>alive_timer_sec := 60, s_clientFd := replicate MAX_CLIENT_NUM (- 1),
    trace := [Mutex_Lock ''s_writeMutex'']\<rparr>"
  have "\<exists>t. modem_ctrl_alive_timeout ok_os base_config SIGALRM ?s = Ret () t"
    by (simp add: modem_ctrl_alive_timeout_def ctl_defs atoi_property_def unset_property conn_start_load conn_start_need
        modem_write_data_to_clients_def modem_ctrl_process_message_def not_alive_message control_nvitemd_def
        write_clients_none base_config_def syscall_defs io_simps Let_def ok_os_uninit)
  then obtain t where t: "modem_ctrl_alive_timeout ok_os base_config SIGALRM ?s = Ret () t" ..
  moreover have "run_events mutex_step [] (trace t) = None"
    by (rule alarm_deadlocks [OF _ _ _ _ t, of _ "[''s_writeMutex'']"]) (simp_all add: conn_start_load)
  ultimately show ?thesis
    by (auto simp: io_simps mutex_lock_def syscall_def conn_start_trace)
qed

text \<open>
  When the indeterminate count is 600 or more, the device is never opened and the
  indeterminate descriptor is used in its place.
\<close>

theorem alive_uninitialised:
  "\<exists>t. modem_ctrl_try_read_modem_alive (ok_os\<lparr>os_uninit := (\<lambda>tr v. 1000), os_read := (\<lambda>tr fd n. None),
       os_others := (\<lambda>tr (st, w, sec). (st, w, if 4 < length tr then 0 else sec))\<rparr>)
       (conn_start\<lparr>alive_timer_sec := 60\<rparr>) = Ret () t \<and>
     run_events fd_step {#} (trace t) = None"
proof -
  note rounds = alive_loop.simps(2) [where n = 59, simplified] alive_loop.simps(2) [where n = 58, simplified]
    select_retry.simps(2) [where k = 4, simplified]
  show ?thesis
    unfolding modem_ctrl_try_read_modem_alive_def
    by (simp add: rounds modem_ctrl_get_alive_dev_def uninit_int_def others_def snprintf_def cstr_def unset_property
      conn_start_trace ok_os_def syscall_defs io_simps Let_def)
qed

end
