(* ===== verification/Listen_Modem.thy ===== *)
theory Listen_Modem
  imports Control_Service
begin

text \<open>
  \<open>internal_modem_control.c\<close> and \<open>external_modem_control.c\<close>: the thread that listens to the
  modem's own devices; \<open>modem_event.c\<close>: the events of an external modem; and the threads of
  \<open>eventmonitor.c\<close> that bring them.
\<close>

section \<open>Listening to the modem\<close>

definition ASSERT_DEV_PROP :: string where "ASSERT_DEV_PROP = ''ro.vendor.modem.assert''"
definition WDOG_BANK :: string where "WDOG_BANK = ''wdtirq''"

text \<open>The assert device is waited for without limit.\<close>

fun open_assert :: "os \<Rightarrow> string \<Rightarrow> nat \<Rightarrow> nat \<Rightarrow> ('z ctl_world_scheme, int) io" where
  "open_assert os dev cnt 0 = stop (Forever ''modem_ctrl_listen_modem: assert device'')"
| "open_assert os dev cnt (Suc k) =
     bind (sys_open os dev O_RDWR) (\<lambda>fd.
     if fd < 0 then seq (sys_usleep (if Suc cnt < 600 then 100000 else 1000000)) (open_assert os dev (Suc cnt) k)
     else return fd)"

text \<open>The alive device is listened to only when a property names it and it is another one.\<close>

definition alive_device :: "os \<Rightarrow> string \<Rightarrow> ('z ctl_world_scheme, string option) io" where
  "alive_device os assert_dev =
     bind (modem_ctrl_get_alive_dev os 256) (\<lambda>(alive_dev, has_alive_prop).
     return (if \<not> has_alive_prop \<or> alive_dev = assert_dev then None else Some alive_dev))"

definition watched :: "int \<times> int \<times> int \<Rightarrow> int list" where
  "watched fds = (case fds of (assert_fd, watchdog_fd, alive_fd) \<Rightarrow> filter (\<lambda>fd. 0 \<le> fd) [assert_fd, watchdog_fd, alive_fd])"

definition open_watched :: "os \<Rightarrow> string option \<Rightarrow> ('z ctl_world_scheme, int) io" where
  "open_watched os dev = (case dev of None \<Rightarrow> return (- 1) | Some d \<Rightarrow> sys_open os d O_RDONLY)"

text \<open>
  Up to the loop of \<open>modem_ctrl_listen_modem\<close>, of which there is one for an internal and one for
  an external modem; only the internal one has a watchdog device (the descriptor \<open>- 1\<close> stands
  for none). The set for \<open>select\<close> is made here, once.
\<close>

definition int_listen_setup :: "os \<Rightarrow> ('z ctrl_world_scheme, unit) io" where
  "int_listen_setup os =
     bind (property_get os ASSERT_DEV_PROP ''not_find'') (\<lambda>assert_dev.
     bind (property_get os PROC_DEV_PROP ''not_find'') (\<lambda>p.
     let watchdog_dev = take (PROPERTY_VALUE_MAX - 1) (p @ WDOG_BANK) in
     bind (alive_device os assert_dev) (\<lambda>alive_dev.
     seq (pthread_create os ''modem_ctrl_listen_clients'')
     (bind (open_assert os assert_dev 0 (os_patience os)) (\<lambda>assert_fd.
     bind (open_watched os (Some watchdog_dev)) (\<lambda>watchdog_fd.
     bind (open_watched os alive_dev) (\<lambda>alive_fd.
     modify (\<lambda>s. s\<lparr>lm_fds := Some (assert_fd, watchdog_fd, alive_fd),
       lm_rfds := watched (assert_fd, watchdog_fd, alive_fd)\<rparr>))))))))"

definition ext_listen_setup :: "os \<Rightarrow> ('z ctrl_world_scheme, unit) io" where
  "ext_listen_setup os =
     bind (property_get os ASSERT_DEV_PROP ''not_find'') (\<lambda>assert_dev.
     bind (alive_device os assert_dev) (\<lambda>alive_dev.
     seq (pthread_create os ''modem_ctrl_listen_clients'')
     (bind (open_assert os assert_dev 0 (os_patience os)) (\<lambda>assert_fd.
     bind (open_watched os alive_dev) (\<lambda>alive_fd.
     modify (\<lambda>s. s\<lparr>lm_fds := Some (assert_fd, - 1, alive_fd), lm_rfds := watched (assert_fd, - 1, alive_fd)\<rparr>))))))"

definition listen_modem_setup :: "os \<Rightarrow> build_config \<Rightarrow> ('z ctrl_world_scheme, unit) io" where
  "listen_modem_setup os cfg = (if FEATURE_EXTERNAL_MODEM cfg then ext_listen_setup os else int_listen_setup os)"

lemmas listen_setup_defs = listen_modem_setup_def ext_listen_setup_def int_listen_setup_def Let_def

definition ready_device :: "int \<times> int \<times> int \<Rightarrow> int list \<Rightarrow> int option" where
  "ready_device fds rfds =
     (case fds of (assert_fd, watchdog_fd, alive_fd) \<Rightarrow>
        if assert_fd \<in> set rfds then Some assert_fd
        else if 0 \<le> watchdog_fd \<and> watchdog_fd \<in> set rfds then Some watchdog_fd
        else if 0 \<le> alive_fd \<and> alive_fd \<in> set rfds then Some alive_fd
        else None)"

definition int_message :: "os \<Rightarrow> bytes \<Rightarrow> ('z conn_world_scheme, unit) io" where
  "int_message os buf =
     (let msg = cstr buf in
      bind (if has_substr msg MODEM_ALIVE then
              seq modem_ctrl_stop_wait_alive_timer
              (seq (modem_ctrl_set_modem_state MODEM_STATE_ALIVE) (return True))
            else if has_substr msg MODEM_RESET then
              seq (modem_ctrl_set_modem_state MODEM_STATE_RESET)
              (seq (modem_ctrl_set_wait_reset_flag False) (return False))
            else if has_substr msg MODEM_ASSERT then
              seq (modem_ctrl_set_modem_state MODEM_STATE_ASSERT)
              (seq (do_if (has_substr msg ''HUNG'')
                     (bind (atoi_property os MODEM_RESET_PROP) (\<lambda>is_reset.
                      do_if (is_reset \<noteq> 0) modem_ctrl_reboot_all_system)))
              (return True))
            else return False) (\<lambda>to_clients.
      do_if to_clients (modem_write_data_to_clients os buf)))"

definition ext_message :: "os \<Rightarrow> bytes \<Rightarrow> ('z conn_world_scheme, unit) io" where
  "ext_message os buf =
     (let msg = cstr buf in
      seq (do_if (has_substr msg MODEM_ALIVE)
             (seq modem_ctrl_stop_wait_alive_timer
             (seq (modem_ctrl_set_modem_state MODEM_STATE_ALIVE)
             (modem_write_data_to_clients os MODEM_ALIVE))))
      (seq (do_if (has_substr msg MODEM_RESET)
             (seq (modem_ctrl_set_modem_state MODEM_STATE_RESET)
             (seq (modem_write_data_to_clients os MODEM_RESET)
             (modem_ctrl_set_wait_reset_flag False))))
      (case strstr msg MODEM_ASSERT of
         None \<Rightarrow> return ()
       | Some info \<Rightarrow>
         seq (modem_ctrl_set_modem_state MODEM_STATE_ASSERT)
         (seq (modem_write_data_to_clients os info)
         (return ())))))"

text \<open>One round; \<open>select\<close> leaves in the set only the descriptors that are ready.\<close>

definition int_listen_round :: "os \<Rightarrow> int \<times> int \<times> int \<Rightarrow> ('z ctrl_world_scheme, unit) io" where
  "int_listen_round os fds =
     bind (gets lm_rfds) (\<lambda>rfds.
     bind (select_retry os rfds (os_patience os)) (\<lambda>r. case r of
       None \<Rightarrow> sys_sleep 1
     | Some ready \<Rightarrow>
       seq (modify (\<lambda>s. s\<lparr>lm_rfds := ready\<rparr>))
       (case ready_device fds ready of
          None \<Rightarrow> sys_sleep 1
        | Some fd \<Rightarrow>
          seq (modem_ctrl_enable_wake_lock os True)
          (bind (sys_read os fd 255) (\<lambda>d.
           if d = None \<or> d = Some [] then seq (modem_ctrl_enable_wake_lock os False) (sys_sleep 1)
           else seq (int_message os (the d)) (modem_ctrl_enable_wake_lock os False))))))"

definition ext_listen_round :: "os \<Rightarrow> int \<times> int \<times> int \<Rightarrow> ('z ctrl_world_scheme, unit) io" where
  "ext_listen_round os fds =
     bind (gets lm_rfds) (\<lambda>rfds.
     bind (select_retry os rfds (os_patience os)) (\<lambda>r. case r of
       None \<Rightarrow> sys_sleep 1
     | Some ready \<Rightarrow>
       seq (modify (\<lambda>s. s\<lparr>lm_rfds := ready\<rparr>))
       (case ready_device fds ready of
          None \<Rightarrow> sys_sleep 1
        | Some fd \<Rightarrow>
          seq (modem_ctrl_enable_wake_lock os True)
          (bind (sys_read os fd 255) (\<lambda>d.
           if d = None \<or> d = Some [] then seq (modem_ctrl_enable_wake_lock os False) (sys_sleep 1)
           else seq (ext_message os (the d)) (modem_ctrl_enable_wake_lock os False))))))"

definition listen_modem_round :: "os \<Rightarrow> build_config \<Rightarrow> int \<times> int \<times> int \<Rightarrow> ('z ctrl_world_scheme, unit) io" where
  "listen_modem_round os cfg fds = (if FEATURE_EXTERNAL_MODEM cfg then ext_listen_round os fds else int_listen_round os fds)"

lemmas listen_round_defs = listen_modem_round_def ext_listen_round_def int_listen_round_def

section \<open>Events of an external modem\<close>

definition MDM_WARM_RESET :: int where "MDM_WARM_RESET = 2"
definition MDM_CP_CRASH :: int where "MDM_CP_CRASH = 5"
definition MCD_SUBSYSTEM :: string where "MCD_SUBSYSTEM = ''modem_ctrl''"

definition modem_event_panic_process :: "os \<Rightarrow> build_config \<Rightarrow> ('z conn_world_scheme, unit) io" where
  "modem_event_panic_process os cfg =
     seq (modem_ctrl_set_miniap_panic True)
     (bind modem_ctrl_get_modem_state (\<lambda>pre_state.
     seq (modem_ctrl_set_modem_state MODEM_STATE_ASSERT)
     (seq (do_if (pre_state \<noteq> MODEM_STATE_BLOCK)
            (modem_write_data_to_clients os (snprintf 40 [MODEM_ASSERT, '': '', MINIAP_PANIC])))
     (do_if (FEATURE_PCIE_RESCAN cfg) (modem_rescan_ep_device os)))))"

definition modem_event_triger ::
  "os \<Rightarrow> build_config \<Rightarrow> secure_params \<Rightarrow> BaseUEventInfo \<Rightarrow> ('z conn_world_scheme, unit) io" where
  "modem_event_triger os cfg sp info =
     (case ev_action info of
        None \<Rightarrow> stop (Fault ''modem_event_triger: NULL action'')
      | Some action \<Rightarrow>
        if action \<noteq> ''change'' then return ()
        else if ev_modem_stat info = MDM_WARM_RESET then
          do_if (FEATURE_EXTERNAL_MODEM cfg) (load_spl_img os cfg sp)
        else if ev_modem_stat info = MDM_CP_CRASH then modem_event_panic_process os cfg
        else return ())"

definition modem_event_init :: "('z event_world_scheme, unit) io" where
  "modem_event_init = seq (modem_event_register MCD_SUBSYSTEM Modem_event_triger) (return ())"

text \<open>The thread of one event runs the handler that was found for it.\<close>

definition uevent_handle_thread ::
  "os \<Rightarrow> build_config \<Rightarrow> secure_params \<Rightarrow> event_handler \<Rightarrow> BaseUEventInfo \<Rightarrow> ('z conn_world_scheme, unit) io" where
  "uevent_handle_thread os cfg sp h info =
     (case h of Modem_event_triger \<Rightarrow> modem_event_triger os cfg sp info
      | Modem_pcie_event \<Rightarrow> modem_pcie_event os info)"

text \<open>
  A round of \<open>uevent_monitor_thread\<close>; \<open>pollin\<close> is whether \<open>poll\<close> reports input and nothing
  else, \<open>msgs\<close> what the socket then delivers. The result are the handler threads started.
\<close>

definition uevent_round ::
  "os \<Rightarrow> int \<Rightarrow> bool \<Rightarrow> bytes list \<Rightarrow> ('z event_world_scheme, (event_handler \<times> BaseUEventInfo) list) io" where
  "uevent_round os sock pollin msgs =
     bind (sys_poll os sock) (\<lambda>nr.
     if nr \<le> 0 then return []
     else if pollin then modem_event_device_fd os msgs
     else return [])"

section \<open>Descriptors\<close>

lemma int_message_conn: "keeps (conn_inv F) (int_message os buf)"
  unfolding int_message_def Let_def by (rule keeps_intros conn_rules)+

lemma ext_message_conn: "keeps (conn_inv F) (ext_message os buf)"
  unfolding ext_message_def Let_def by (rule keeps_intros conn_rules)+

lemma ready_watched: "ready_device fds rfds = Some fd \<Longrightarrow> 0 \<le> fst fds \<Longrightarrow> fd \<in> set (watched fds)"
  by (auto simp: ready_device_def watched_def split: prod.splits if_splits)

lemma listen_modem_conn:
  assumes "0 \<le> fst fds" "set (watched fds) \<subseteq> set F"
  shows "keeps (conn_inv F) (listen_modem_round os cfg fds)"
proof -
  have dev: "fd \<in> set F" if "ready_device fds r = Some fd" for fd r
    using ready_watched [OF that assms(1)] assms(2) by blast
  show ?thesis
    unfolding listen_round_defs
    by (rule keeps_intros conn_rules conn_modify conn_transfer int_message_conn ext_message_conn
        | erule dev | simp add: owns_def pipe_ends_def)+
qed

lemma event_conn:
  "keeps (conn_inv F) (modem_event_triger os cfg sp info)" "keeps (conn_inv F) (modem_pcie_event os info)"
  "keeps (conn_inv F) (uevent_round os sock pollin msgs)"
proof -
  show "keeps (conn_inv F) (modem_event_triger os cfg sp info)"
    unfolding modem_event_triger_def modem_event_panic_process_def by (rule keeps_intros conn_rules)+
  have owner: "keeps (conn_inv F) (modem_chane_ep_device_owner os)"
    by (rule conn_io [OF ep_owner_fd]) (unfold modem_chane_ep_device_owner_def ctl_defs, (rule keeps_intros io_blind_keeps | assumption)+)
  show "keeps (conn_inv F) (modem_pcie_event os info)"
    unfolding modem_pcie_event_def by (rule keeps_intros owner)+
  have calls: "keeps (conn_inv F) (sys_malloc os n)" "keeps (conn_inv F) (sys_poll os fd)" for n fd
    by (rule conn_io fd_cleanI fd_intros io_blind_keeps | assumption)+
  have "keeps (conn_inv F) (modem_event_device_fd os msgs)"
    by (induction msgs)
      (auto simp: modem_event_process_def Let_def intro!: keeps_intros calls conn_rules)
  then show "keeps (conn_inv F) (uevent_round os sock pollin msgs)"
    unfolding uevent_round_def by (intro keeps_intros calls)
qed

lemma handle_thread_conn: "keeps (conn_inv F) (uevent_handle_thread os cfg sp h info)"
  by (cases h) (simp_all add: uevent_handle_thread_def event_conn)

text \<open>The set-ups open the devices.\<close>

lemma open_assert_conn:
  "turns (conn_inv F :: 'z conn_world_scheme \<Rightarrow> bool) (open_assert os dev cnt k) (\<lambda>fd s. 0 \<le> fd \<and> conn_inv (F @ [fd]) s)"
proof (induction k arbitrary: cnt)
  case 0
  show ?case by (simp add: turns_def wp_rules)
next
  case (Suc k)
  show ?case
    unfolding open_assert.simps
    by (rule conn_open_next; simp)
      (auto intro!: turns_return turns_seq [OF keeps_turns [OF conn_quiet(1)] Suc])
qed

lemma open_watched_conn:
  "turns (conn_inv F) (open_watched os dev) (\<lambda>fd. conn_inv (F @ filter (\<lambda>fd. 0 \<le> fd) [fd]))"
proof (cases dev)
  case (Some d)
  show ?thesis
    unfolding open_watched_def Some option.case
    by (rule turns_post [OF conn_open]) (simp split: if_splits)
qed (simp add: open_watched_def turns_return)

lemma turns_fact: "(P \<Longrightarrow> turns I m J) \<Longrightarrow> turns (\<lambda>s. P \<and> I s) m J"
  by (auto simp: turns_def)

lemma conn_listener [simp]:
  "conn_inv F (lm_fds_update f s) = conn_inv F s" "conn_inv F (lm_rfds_update g s) = conn_inv F s"
  "conn_inv F (lsp_fd_update h s) = conn_inv F s" "conn_inv F (lc_buf_update k s) = conn_inv F s"
  by (simp_all add: conn_inv_def pipe_ends_def)

lemma listen_modem_setup_conn:
  "turns (conn_inv F) (listen_modem_setup os cfg)
     (\<lambda>_ s. case lm_fds s of None \<Rightarrow> False | Some fds \<Rightarrow> 0 \<le> fst fds \<and> lm_rfds s = watched fds \<and> conn_inv (F @ watched fds) s)"
proof -
  have names: "keeps (conn_inv F) (alive_device os d)" for d
    unfolding alive_device_def modem_ctrl_get_alive_dev_def case_prod_beta by (rule keeps_intros conn_quiet)+
  have finish: "turns (conn_inv (((F @ [a]) @ filter (\<lambda>fd. 0 \<le> fd) [w]) @ filter (\<lambda>fd. 0 \<le> fd) [l]))
      (modify (\<lambda>s. s\<lparr>lm_fds := Some (a, w, l), lm_rfds := watched (a, w, l)\<rparr>))
      (\<lambda>_ s. case lm_fds s of None \<Rightarrow> False | Some fds \<Rightarrow> 0 \<le> fst fds \<and> lm_rfds s = watched fds \<and> conn_inv (F @ watched fds) s)"
    if "0 \<le> a" for a w l
    by (rule turns_modify) (use that in \<open>auto simp: watched_def split: if_splits\<close>)
  have finish_ext: "turns (conn_inv ((F @ [a]) @ filter (\<lambda>fd. 0 \<le> fd) [l]))
      (modify (\<lambda>s. s\<lparr>lm_fds := Some (a, - 1, l), lm_rfds := watched (a, - 1, l)\<rparr>))
      (\<lambda>_ s. case lm_fds s of None \<Rightarrow> False | Some fds \<Rightarrow> 0 \<le> fst fds \<and> lm_rfds s = watched fds \<and> conn_inv (F @ watched fds) s)"
    if "0 \<le> a" for a l
    using finish [OF that, of "- 1" l] by simp
  show ?thesis
    unfolding listen_setup_defs
    by (rule turns_if | rule turns_bind [OF keeps_turns [OF conn_quiet(3)]]
        turns_bind [OF keeps_turns [OF names]] turns_seq [OF keeps_turns [OF conn_quiet(6)]]
        turns_bind [OF open_assert_conn] turns_fact turns_bind [OF open_watched_conn] finish finish_ext | assumption)+
qed

lemma open_sp_conn:
  "turns (conn_inv F :: 'z conn_world_scheme \<Rightarrow> bool) (open_sp os n)
     (\<lambda>r. conn_inv (F @ (case r of None \<Rightarrow> [] | Some fd \<Rightarrow> [fd])))"
proof (induction n)
  case (Suc n)
  show ?case
    unfolding open_sp.simps
    by (rule conn_open_next; simp)
      (auto intro!: turns_return turns_bind [OF keeps_turns [OF conn_sets(8)]] turns_if
         turns_seq [OF keeps_turns [OF conn_quiet(2)] Suc])
qed (simp add: turns_return)

lemma turns_conj:
  "turns I m J \<Longrightarrow> turns I' m J' \<Longrightarrow> turns (\<lambda>s. I s \<and> I' s) m (\<lambda>a s. J a s \<and> J' a s)"
  unfolding turns_def by (blast intro: wp_conj [THEN wp_conseq])

lemma listen_sp_setup_conn:
  fixes F :: "int list"
  shows "turns (\<lambda>s :: 'z ctrl_world_scheme. lsp_fd s = None \<and> conn_inv F s) (listen_sp_setup os)
     (\<lambda>_ s. conn_inv (F @ (case lsp_fd s of None \<Rightarrow> [] | Some fd \<Rightarrow> [fd])) s)"
proof -
  let ?N = "\<lambda>s :: 'z ctrl_world_scheme. lsp_fd s = None"
  have N: "io_blind ?N"
    by (simp add: io_blind_def)
  have none: "keeps ?N (open_sp os n)" for n
    by (induction n) (auto intro!: keeps_intros io_blind_keeps N)
  have opened: "turns (\<lambda>s. ?N s \<and> conn_inv F s) (open_sp os n)
      (\<lambda>r s. ?N s \<and> conn_inv (F @ (case r of None \<Rightarrow> [] | Some fd \<Rightarrow> [fd])) s)" for n
    by (rule turns_conj [OF keeps_turns [OF none] open_sp_conn])
  have told: "keeps (conn_inv (F @ [fd])) (do_if (debuggable = 0) (bind (property_get os p v) (\<lambda>v.
      do_if (v \<noteq> ''off'') (sys_write os fd w))))" for fd v p w and debuggable :: int
    by (rule keeps_intros conn_quiet conn_transfer | simp)+
  have rest: "turns (\<lambda>s. ?N s \<and> conn_inv (F @ [fd]) s)
      (bind (atoi_property os ''ro.debuggable'') (\<lambda>debuggable.
       seq (do_if (debuggable = 0) (bind (property_get os p v) (\<lambda>v. do_if (v \<noteq> ''off'') (sys_write os fd w))))
         (modify (\<lambda>s. s\<lparr>lsp_fd := Some fd\<rparr>))))
      (\<lambda>_ s. conn_inv (F @ (case lsp_fd s of None \<Rightarrow> [] | Some fd \<Rightarrow> [fd])) s)" for fd p v w
    by (rule turns_pre [where I = "conn_inv (F @ [fd])"])
      (rule turns_bind [OF keeps_turns [OF conn_atoi(1)]] turns_seq [OF keeps_turns [OF told]] turns_modify
        | simp)+
  have "turns (\<lambda>s. ?N s \<and> conn_inv (F @ (case r of None \<Rightarrow> [] | Some fd \<Rightarrow> [fd])) s)
      (case r of None \<Rightarrow> return () | Some fd \<Rightarrow> bind (atoi_property os ''ro.debuggable'') (\<lambda>debuggable.
       seq (do_if (debuggable = 0) (bind (property_get os p v) (\<lambda>v. do_if (v \<noteq> ''off'') (sys_write os fd w))))
         (modify (\<lambda>s. s\<lparr>lsp_fd := Some fd\<rparr>))))
      (\<lambda>_ s. conn_inv (F @ (case lsp_fd s of None \<Rightarrow> [] | Some fd \<Rightarrow> [fd])) s)" for r p v w
    by (cases r) (use rest in \<open>auto intro: turns_return\<close>)
  then show ?thesis
    unfolding listen_sp_setup_def by (rule turns_bind [OF opened])
qed

text \<open>A round of the listener of the service processor keeps its device or closes it.\<close>

lemma listen_sp_conn:
  fixes F :: "int list"
  assumes "4 \<le> length F"
  shows "turns (\<lambda>s :: 'z ctrl_world_scheme. lsp_fd s = Some fd \<and> conn_inv (F @ [fd]) s) (listen_sp_round os fd)
     (\<lambda>_ s. conn_inv (F @ (case lsp_fd s of None \<Rightarrow> [] | Some fd \<Rightarrow> [fd])) s)"
proof -
  let ?I = "\<lambda>s :: 'z ctrl_world_scheme. lsp_fd s = Some fd \<and> conn_inv (F @ [fd]) s"
  let ?J = "\<lambda>_ s :: 'z ctrl_world_scheme. conn_inv (F @ (case lsp_fd s of None \<Rightarrow> [] | Some fd \<Rightarrow> [fd])) s"
  let ?L = "\<lambda>s :: 'z ctrl_world_scheme. lsp_fd s = Some fd"
  have L: "conn_blind ?L"
    by (simp add: conn_blind_def load_blind_def io_blind_def)
  have both: "keeps ?L m \<Longrightarrow> keeps (conn_inv (F @ [fd])) m \<Longrightarrow> turns ?I m ?J" for m :: "('z ctrl_world_scheme, unit) io"
    by (rule turns_post [OF turns_conj [OF keeps_turns keeps_turns]]) auto
  have closing: "turns ?I (seq (sys_close fd) (modify (\<lambda>s. s\<lparr>lsp_fd := None\<rparr>))) ?J"
    by (rule turns_pre [where I = "conn_inv (F @ [fd])"], rule turns_seq [OF conn_close [OF assms]], rule turns_modify)
      simp_all
  have sel: "turns ?I (sys_select os [fd]) (\<lambda>_. ?I)" "turns ?I (get_errno os) (\<lambda>_. ?I)"
    by (rule turns_conj keeps_turns conn_rules io_blind_keeps conn_blindD(2) [OF L])+
  show ?thesis
    unfolding listen_sp_round_def modem_ctrl_get_boot_mode_def atoi_property_def
    by (rule turns_bind [OF sel(1)] turns_option turns_bind [OF sel(2)] closing)+
      (rule turns_if closing | rule both; (rule keeps_intros conn_rules conn_transfer io_blind_keeps io_blind_switch
         conn_blindD(2) [OF L] ctrl_blind [OF L] | simp)+)+
qed

section \<open>What the listeners leave alone\<close>

lemma listen_message_blind:
  assumes "conn_blind I"
  shows "keeps I (int_message os buf)" "keeps I (ext_message os buf)"
  unfolding int_message_def ext_message_def atoi_property_def ctl_defs Let_def
  by (rule blind_steps ctrl_blind conn_blindD [OF assms] assms | assumption)+

lemma event_blind:
  assumes "conn_blind I"
  shows "keeps I (uevent_handle_thread os cfg sp h info)" "keeps I (uevent_round os sock pollin msgs)"
proof -
  note io = conn_blindD(2) [OF assms]
  have owner: "keeps I (modem_chane_ep_device_owner os)"
    unfolding modem_chane_ep_device_owner_def ctl_defs by (rule keeps_intros io_blind_keeps io)+
  have "keeps I (modem_event_triger os cfg sp info)" "keeps I (modem_pcie_event os info)"
    unfolding modem_event_triger_def modem_event_panic_process_def modem_pcie_event_def ctl_defs
    by (rule blind_steps ctrl_blind load_spl_blind [OF load_blindD(4)] rescan_blind owner conn_blindD [OF assms] assms | assumption)+
  then show "keeps I (uevent_handle_thread os cfg sp h info)"
    by (cases h) (simp_all add: uevent_handle_thread_def)
  have "keeps I (modem_event_device_fd os msgs)"
    by (induction msgs) (auto simp: modem_event_process_def Let_def intro!: keeps_intros io_blind_keeps io)
  then show "keeps I (uevent_round os sock pollin msgs)"
    unfolding uevent_round_def by (intro keeps_intros io_blind_keeps io)
qed

lemma dump_wait_blind: "io_blind I \<Longrightarrow> keeps I (write_reset_to_modem_ctrl os fd)"
  unfolding write_reset_to_modem_ctrl_def by (rule keeps_intros io_blind_keeps | assumption)+

lemma dump_wait_conn: "fd \<in> set F \<Longrightarrow> keeps (conn_inv F) (write_reset_to_modem_ctrl os fd)"
  unfolding write_reset_to_modem_ctrl_def by (rule keeps_intros conn_quiet conn_transfer | assumption)+

section \<open>The write mutex\<close>

lemma listen_message_mutex:
  "tracks mutex_step [] (int_message os buf) (\<lambda>_. [])" "tracks mutex_step [] (ext_message os buf) (\<lambda>_. [])"
  unfolding int_message_def ext_message_def modem_ctrl_reboot_all_system_def atoi_property_def ctl_defs Let_def
  by (rule mutex_steps timer_mutex | simp)+

lemma listen_modem_mutex: "tracks mutex_step [] (listen_modem_round os cfg fds) (\<lambda>_. [])"
  unfolding listen_round_defs by (rule mutex_steps listen_message_mutex | simp)+

lemma mutex_poll: "tracks mutex_step H (sys_poll os fd) (\<lambda>_. H)"
  unfolding syscall_defs by (rule tracks_syscall) (simp add: Let_def)

lemma event_mutex:
  "tracks mutex_step [] (uevent_handle_thread os cfg sp h info) (\<lambda>_. [])"
  "tracks mutex_step [] (uevent_round os sock pollin msgs) (\<lambda>_. [])"
proof -
  have "tracks mutex_step [] (modem_event_triger os cfg sp info) (\<lambda>_. [])"
    "tracks mutex_step [] (modem_pcie_event os info) (\<lambda>_. [])"
    unfolding modem_event_triger_def modem_event_panic_process_def modem_pcie_event_def
      modem_chane_ep_device_owner_def ctl_defs
    by (rule mutex_steps | simp)+
  then show "tracks mutex_step [] (uevent_handle_thread os cfg sp h info) (\<lambda>_. [])"
    by (cases h) (simp_all add: uevent_handle_thread_def)
  have "tracks mutex_step [] (modem_event_device_fd os msgs) (\<lambda>_. [])"
  proof (induction msgs)
    case (Cons m msgs)
    show ?case
      unfolding modem_event_device_fd.simps modem_event_process_def Let_def by (rule mutex_steps Cons | simp)+
  qed (simp add: tracks_return)
  then show "tracks mutex_step [] (uevent_round os sock pollin msgs) (\<lambda>_. [])"
    unfolding uevent_round_def by (auto intro!: track_intros mutex_poll)
qed

lemma dump_wait_mutex: "tracks mutex_step [] (write_reset_to_modem_ctrl os fd) (\<lambda>_. [])"
  unfolding write_reset_to_modem_ctrl_def by (rule mutex_lock_call mutex_steps | simp)+

lemma listen_setup_mutex:
  "tracks mutex_step [] (listen_modem_setup os cfg) (\<lambda>_. [])" "tracks mutex_step [] (listen_sp_setup os) (\<lambda>_. [])"
proof -
  have assert: "tracks mutex_step [] (open_assert os dev cnt k) (\<lambda>_. [])" for dev cnt k
    by (induction k arbitrary: cnt) (auto intro!: mutex_steps)
  have opens: "tracks mutex_step [] (open_watched os d) (\<lambda>_. [])" for d
    by (cases d) (auto simp: open_watched_def intro!: mutex_steps)
  show "tracks mutex_step [] (listen_modem_setup os cfg) (\<lambda>_. [])"
    unfolding listen_setup_defs alive_device_def modem_ctrl_get_alive_dev_def case_prod_beta
    by (rule mutex_steps assert opens | simp)+
  have sp: "tracks mutex_step [] (open_sp os n) (\<lambda>_. [])" for n
    by (induction n) (auto intro!: mutex_steps simp: get_errno_def)
  show "tracks mutex_step [] (listen_sp_setup os) (\<lambda>_. [])"
    unfolding listen_sp_setup_def atoi_property_def by (rule mutex_steps sp | simp)+
qed

section \<open>Properties\<close>

lemma write_data_control:
  "keeps (\<lambda>s. P (g_modem_state s) (alive_timer_sec s) (wait_modem_reset s)) (modem_write_data_to_clients os buf)"
proof -
  let ?I = "\<lambda>s :: 'a conn_world_scheme. P (g_modem_state s) (alive_timer_sec s) (wait_modem_reset s)"
  have I: "io_blind ?I"
    by (simp add: io_blind_def)
  have "keeps ?I (write_clients os buf is ret)" for "is" ret
    by (induction "is" arbitrary: ret) (auto intro!: keeps_intros keeps_modify io_blind_keeps I)
  moreover have "keeps ?I (modem_ctrl_process_message os buf)"
    unfolding modem_ctrl_process_message_def readIMEI_def control_nvitemd_def atoi_property_def Let_def
    by (rule keeps_intros keeps_modify io_blind_keeps io_blind_retry I | simp)+
  ultimately show ?thesis
    unfolding modem_write_data_to_clients_def by (intro keeps_intros io_blind_keeps I)
qed

text \<open>
  A round of the listener of the modem gives back the suspend blocker: it is released
  after every round that started with it released.
\<close>

theorem listen_modem_releases:
  "keeps (\<lambda>s. run_events wake_step b (trace s) = Some False) (listen_modem_round os cfg fds)"
proof -
  let ?W = "\<lambda>s :: 'a ctrl_world_scheme. run_events wake_step b (trace s) = Some False"
  have quiet: "keeps ?W m" if "tracks wake_step False m (\<lambda>_. False)" for m :: "('a ctrl_world_scheme, 'b) io"
    using that unfolding keeps_def tracks_def by (blast intro: wp_conseq)
  have off: "ensures (modem_ctrl_enable_wake_lock os False) ?W"
    using wake_released [of os "()" b] by (simp add: ensures_def wp_rules)
  have sleeps: "tracks wake_step False (sys_sleep n) (\<lambda>_. False)" for n
    by (rule wake.quiet_intros)
  have retry: "tracks wake_step False (select_retry os fds k) (\<lambda>_. False)" for fds k
    by (induction k) (auto intro!: track_intros wake.quiet_intros)
  have dev: "ensures (seq (modem_ctrl_enable_wake_lock os True) (bind (sys_read os fd 255) (\<lambda>d.
           if d = None \<or> d = Some [] then seq (modem_ctrl_enable_wake_lock os False) (sys_sleep 1)
           else seq (h d) (modem_ctrl_enable_wake_lock os False)))) ?W" for fd h
    by (rule ensures_seq_first [OF off quiet [OF sleeps]] off ensures_intros)+
  show ?thesis
    unfolding listen_round_defs
    by (rule keeps_intros keeps_modify ensures_keeps [OF dev] quiet sleeps retry | simp)+
qed

text \<open>
  C31: What a message of an internal modem does to the controller's state: alive, reset or
  assert, in this order of precedence; an alive message stops the timer, and a reset message
  ends the wait for it.
\<close>

theorem int_message_state:
  fixes s :: "'z conn_world_scheme"
  assumes "int_message os buf s = Ret () t"
  shows "g_modem_state t =
      (if has_substr (cstr buf) MODEM_ALIVE then MODEM_STATE_ALIVE
       else if has_substr (cstr buf) MODEM_RESET then MODEM_STATE_RESET
       else if has_substr (cstr buf) MODEM_ASSERT then MODEM_STATE_ASSERT
       else g_modem_state s) \<and>
     alive_timer_sec t = (if has_substr (cstr buf) MODEM_ALIVE then 0 else alive_timer_sec s) \<and>
     (wait_modem_reset t \<longleftrightarrow> wait_modem_reset s \<and>
        (has_substr (cstr buf) MODEM_ALIVE \<or> \<not> has_substr (cstr buf) MODEM_RESET))"
proof -
  define Q where "Q = (\<lambda>st sec w. st = (if has_substr (cstr buf) MODEM_ALIVE then MODEM_STATE_ALIVE
       else if has_substr (cstr buf) MODEM_RESET then MODEM_STATE_RESET
       else if has_substr (cstr buf) MODEM_ASSERT then MODEM_STATE_ASSERT else g_modem_state s) \<and>
     sec = (if has_substr (cstr buf) MODEM_ALIVE then 0 else alive_timer_sec s) \<and>
     (w \<longleftrightarrow> wait_modem_reset s \<and> (has_substr (cstr buf) MODEM_ALIVE \<or> \<not> has_substr (cstr buf) MODEM_RESET)))"
  have data: "wp (modem_write_data_to_clients os buf) (\<lambda>_ v. Q (g_modem_state v) (alive_timer_sec v) (wait_modem_reset v))
      (\<lambda>_ _. True) u" if "Q (g_modem_state u) (alive_timer_sec u) (wait_modem_reset u)" for u :: "'z conn_world_scheme"
    using write_data_control [of Q os buf, unfolded keeps_def, rule_format, OF that] .
  have "wp (int_message os buf) (\<lambda>_ v. Q (g_modem_state v) (alive_timer_sec v) (wait_modem_reset v)) (\<lambda>_ _. True) s"
    unfolding int_message_def modem_ctrl_stop_wait_alive_timer_def modem_ctrl_reboot_all_system_def atoi_property_def
      ctl_defs Let_def
    by (auto simp: wp_rules Let_def intro!: data) (simp_all add: Q_def)
  then show ?thesis
    using assms by (simp add: wp_def Q_def)
qed

theorem int_message_state_witness:
  "\<exists>t. int_message ok_os ''Modem Reset'' (conn_start\<lparr>wait_modem_reset := True\<rparr>) = Ret () t \<and>
     g_modem_state t = MODEM_STATE_RESET \<and> \<not> wait_modem_reset t"
proof -
  have msg: "has_substr (cstr ''Modem Reset'') MODEM_RESET" "\<not> has_substr (cstr ''Modem Reset'') MODEM_ALIVE"
    by (simp_all add: has_substr_def cstr_def MODEM_RESET_def MODEM_ALIVE_def)
  have "\<exists>t. int_message ok_os ''Modem Reset'' (conn_start\<lparr>wait_modem_reset := True\<rparr>) = Ret () t"
    by (simp add: int_message_def msg ctl_defs io_simps Let_def)
  then obtain t where t: "int_message ok_os ''Modem Reset'' (conn_start\<lparr>wait_modem_reset := True\<rparr>) = Ret () t" ..
  with int_message_state [OF t] show ?thesis
    by (auto simp: msg)
qed

text \<open>
  A panic of the small processor that follows a blocked modem is not reported to the
  clients, and the controller is in the assert state afterwards.
\<close>

theorem panic_after_block_silent:
  assumes "g_modem_state s = MODEM_STATE_BLOCK" "\<not> FEATURE_PCIE_RESCAN cfg"
  shows "modem_event_panic_process os cfg s = Ret () (s\<lparr>b_miniap_panic := True, g_modem_state := MODEM_STATE_ASSERT\<rparr>)"
  using assms by (simp add: modem_event_panic_process_def ctl_defs io_simps)

theorem panic_after_block_silent_witness:
  "modem_event_panic_process ok_os base_config (conn_start\<lparr>g_modem_state := MODEM_STATE_BLOCK\<rparr>) =
     Ret () (conn_start\<lparr>g_modem_state := MODEM_STATE_ASSERT, b_miniap_panic := True\<rparr>)"
  using panic_after_block_silent [of "conn_start\<lparr>g_modem_state := MODEM_STATE_BLOCK\<rparr>" base_config ok_os]
  by (simp add: base_config_def)

end
