(* ===== verification/Modem_Main.thy ===== *)
theory Modem_Main
  imports Listen_Modem
begin

text \<open>
  \<open>main.c\<close>, and the running program: its threads as a step relation whose steps are the
  rounds of the threads in any order, with the invariants that every reachable state has.
\<close>

section \<open>Starting\<close>

definition CAP_CHOWN :: nat where "CAP_CHOWN = 0"
definition CAP_BLOCK_SUSPEND :: nat where "CAP_BLOCK_SUSPEND = 36"
definition CAP_LAST_CAP :: nat where "CAP_LAST_CAP = 37"
definition AID_SYSTEM :: nat where "AID_SYSTEM = 1000"
definition AID_RADIO :: nat where "AID_RADIO = 1001"
definition AID_SHELL :: nat where "AID_SHELL = 2000"
definition AID_WAKELOCK :: nat where "AID_WAKELOCK = 3010"

text \<open>Capability \<open>c\<close> is bit \<open>c mod 32\<close> of word \<open>c div 32\<close>; a word has an effective and a permitted part.\<close>

definition set_cap :: "nat \<Rightarrow> (nat \<times> nat) list \<Rightarrow> (nat \<times> nat) list" where
  "set_cap c data = data[c div 32 := (or (fst (data ! (c div 32))) (2 ^ (c mod 32)), or (snd (data ! (c div 32))) (2 ^ (c mod 32)))]"

definition switchUserToSystem :: "os \<Rightarrow> ('z world_scheme, unit) io" where
  "switchUserToSystem os =
     seq (sys_setgroups os [AID_SYSTEM, AID_RADIO, AID_SHELL, AID_WAKELOCK])
     (seq prctl_keepcaps
     (seq (sys_setuid os AID_SYSTEM)
     (seq (sys_capset os (set_cap CAP_CHOWN (set_cap CAP_BLOCK_SUSPEND (replicate (CAP_LAST_CAP div 32 + 1) (0, 0)))))
     (return ()))))"

definition dead_loop :: "('z world_scheme, unit) io" where
  "dead_loop = stop (Forever ''main: sleep'')"

definition modem_main :: "os \<Rightarrow> build_config \<Rightarrow> secure_params \<Rightarrow> xml_env \<Rightarrow> ('z conn_world_scheme, unit) io" where
  "modem_main os cfg sp xe =
     bind (modem_ctrl_init_boot_mode os) (\<lambda>mode.
     if mode = BOOT_MODE_RECOVERY then dead_loop
     else seq (do_if (mode = BOOT_MODE_NORMAL) (switchUserToSystem os))
       (bind (modem_ctrl_int_modem_type os) (\<lambda>r.
       if r \<noteq> 0 then dead_loop
       else bind (if FEATURE_EXTERNAL_MODEM cfg
                  then seq modem_event_init
                    (seq (do_if (FEATURE_PCIE_RESCAN cfg) (modem_pcie_init os))
                    (pthread_create os ''uevent_monitor_thread''))
                  else return True) (\<lambda>ok.
         if \<not> ok then dead_loop
         else seq (pthread_create os ''modem_setup_clients_connect'')
           (seq (modem_ctrl_boot_modem os cfg sp xe)
           dead_loop)))))"

section \<open>The running program\<close>

text \<open>
  A configuration is the state and the handler threads that were started and have not run.
  A step is a round of one thread that returns; a round that ends in an endless loop or a crash
  takes no step.
\<close>

type_synonym pending = "(event_handler \<times> BaseUEventInfo) list"

inductive system :: "os \<Rightarrow> build_config \<Rightarrow> secure_params \<Rightarrow> ctrl_world \<times> pending \<Rightarrow> ctrl_world \<times> pending \<Rightarrow> bool"
  for os cfg sp where
  accept: "accept_client os s = Ret () t \<Longrightarrow> system os cfg sp (s, hs) (t, hs)"
| reader: "read_thread_round os s = Ret () t \<Longrightarrow> system os cfg sp (s, hs) (t, hs)"
| dump_wait: "write_reset_to_modem_ctrl os (s_fdModemCtrlWrite s) s = Ret () t \<Longrightarrow> system os cfg sp (s, hs) (t, hs)"
| clients: "listen_clients_round os cfg sp s = Ret () t \<Longrightarrow> system os cfg sp (s, hs) (t, hs)"
| modem_setup: "lm_fds s = None \<Longrightarrow> listen_modem_setup os cfg s = Ret () t \<Longrightarrow> system os cfg sp (s, hs) (t, hs)"
| modem: "lm_fds s = Some fds \<Longrightarrow> listen_modem_round os cfg fds s = Ret () t \<Longrightarrow> system os cfg sp (s, hs) (t, hs)"
| sp_setup: "lsp_fd s = None \<Longrightarrow> listen_sp_setup os s = Ret () t \<Longrightarrow> system os cfg sp (s, hs) (t, hs)"
| sp_round: "lsp_fd s = Some fd \<Longrightarrow> listen_sp_round os fd s = Ret () t \<Longrightarrow> system os cfg sp (s, hs) (t, hs)"
| alarm: "modem_ctrl_alive_timeout os cfg SIGALRM s = Ret () t \<Longrightarrow> system os cfg sp (s, hs) (t, hs)"
| uevent: "uevent_round os sock pollin msgs s = Ret new t \<Longrightarrow> system os cfg sp (s, hs) (t, hs @ new)"
| handler: "uevent_handle_thread os cfg sp h info s = Ret () t \<Longrightarrow>
    system os cfg sp (s, before @ (h, info) # rest) (t, before @ rest)"

inductive reaches :: "os \<Rightarrow> build_config \<Rightarrow> secure_params \<Rightarrow> ctrl_world \<times> pending \<Rightarrow> ctrl_world \<times> pending \<Rightarrow> bool"
  for os cfg sp where
  start: "reaches os cfg sp c c"
| step: "reaches os cfg sp c d \<Longrightarrow> system os cfg sp d e \<Longrightarrow> reaches os cfg sp c e"

inductive_cases systemE: "system os cfg sp (s, hs) (t, ks)"

section \<open>Invariants\<close>

text \<open>
  An invariant of all rounds is an invariant of the program; the premises are what each thread
  has to keep.
\<close>

lemma reaches_invariant:
  assumes "\<And>s t hs ks. I s \<Longrightarrow> system os cfg sp (s, hs) (t, ks) \<Longrightarrow> I t" "reaches os cfg sp c d" "I (fst c)"
  shows "I (fst d)"
  using assms(2,3)
proof (induction rule: reaches.induct)
  case (step c d e)
  then show ?case
    using assms(1) [of "fst d" "snd d" "fst e" "snd e"] by simp
qed

lemma keepsD: "keeps I m \<Longrightarrow> m s = Ret a t \<Longrightarrow> I s \<Longrightarrow> I t"
  by (auto simp: keeps_def wp_def dest!: spec [of _ s])

lemma turnsD: "turns I m J \<Longrightarrow> m s = Ret a t \<Longrightarrow> I s \<Longrightarrow> J a t"
  by (auto simp: turns_def wp_def dest!: spec [of _ s])

subsection \<open>Mutexes\<close>

lemma system_mutex_step:
  assumes "system os cfg sp c d" "run_events mutex_step [] (trace (fst c)) = Some []"
  shows "run_events mutex_step [] (trace (fst d)) = Some []"
  using assms
  by (induction rule: system.induct)
    (auto dest: tracksD [OF accept_client_mutex] tracksD [OF read_round_mutex] tracksD [OF dump_wait_mutex]
      tracksD [OF listen_clients_mutex] tracksD [OF listen_setup_mutex(1)] tracksD [OF listen_modem_mutex]
      tracksD [OF listen_setup_mutex(2)] tracksD [OF listen_sp_mutex] tracksD [OF alive_timeout_mutex]
      tracksD [OF event_mutex(1)] tracksD [OF event_mutex(2)])

subsection \<open>Tables\<close>

definition tables :: "'z conn_world_scheme \<Rightarrow> load_value \<times> load_value \<times> load_value \<times> event_client list" where
  "tables s = (cp_load_info s, sp_load_info s, dp_load_info s, g_event_client s)"

lemma tables_blind: "conn_blind (\<lambda>s. tables s = X)"
  by (simp add: conn_blind_def load_blind_def io_blind_def tables_def)

text \<open>A thread with locals in the state keeps what depends neither on them nor on the connection.\<close>

lemma locals_blind:
  assumes "conn_blind I"
  shows "(\<And>s b. I s \<Longrightarrow> I (lc_buf_update b s)) \<Longrightarrow> keeps I (listen_clients_round os cfg sp)"
    "(\<And>s r. I s \<Longrightarrow> I (lm_rfds_update r s)) \<Longrightarrow> keeps I (listen_modem_round os cfg fds)"
    "(\<And>s f r. I s \<Longrightarrow> I (lm_rfds_update r (lm_fds_update f s))) \<Longrightarrow> keeps I (listen_modem_setup os cfg)"
    "(\<And>s f. I s \<Longrightarrow> I (lsp_fd_update f s)) \<Longrightarrow> keeps I (listen_sp_setup os)"
    "(\<And>s f. I s \<Longrightarrow> I (lsp_fd_update f s)) \<Longrightarrow> keeps I (listen_sp_round os fd)"
proof -
  note io = conn_blindD(2) [OF assms]
  note steps = blind_steps ctrl_blind [OF assms] listen_message_blind [OF assms] io
  show "(\<And>s b. I s \<Longrightarrow> I (lc_buf_update b s)) \<Longrightarrow> keeps I (listen_clients_round os cfg sp)"
    unfolding listen_clients_round_def modem_read_data_from_clients_def by (rule steps | assumption)+
  show "(\<And>s r. I s \<Longrightarrow> I (lm_rfds_update r s)) \<Longrightarrow> keeps I (listen_modem_round os cfg fds)"
    unfolding listen_round_defs by (rule steps | assumption)+
  have "keeps I (open_assert os dev cnt k)" for dev cnt k
    by (induction k arbitrary: cnt) (auto intro!: keeps_intros io_blind_keeps io)
  then show "(\<And>s f r. I s \<Longrightarrow> I (lm_rfds_update r (lm_fds_update f s))) \<Longrightarrow> keeps I (listen_modem_setup os cfg)"
    unfolding listen_setup_defs alive_device_def open_watched_def modem_ctrl_get_alive_dev_def case_prod_beta
    by - (rule steps | assumption)+
  have "keeps I (open_sp os n)" for n
    by (induction n) (auto intro!: keeps_intros io_blind_keeps io)
  then show "(\<And>s f. I s \<Longrightarrow> I (lsp_fd_update f s)) \<Longrightarrow> keeps I (listen_sp_setup os)"
    unfolding listen_sp_setup_def atoi_property_def by - (rule steps | assumption)+
  show "(\<And>s f. I s \<Longrightarrow> I (lsp_fd_update f s)) \<Longrightarrow> keeps I (listen_sp_round os fd)"
    unfolding listen_sp_round_def atoi_property_def ctl_defs by (rule steps | assumption)+
qed

lemma system_blind:
  fixes I :: "ctrl_world \<Rightarrow> bool"
  assumes I: "conn_blind I" and step: "system os cfg sp c d" and start: "I (fst c)"
    and lc: "\<And>s b. I s \<Longrightarrow> I (lc_buf_update b s)" and rf: "\<And>s r. I s \<Longrightarrow> I (lm_rfds_update r s)"
    and lm: "\<And>s f r. I s \<Longrightarrow> I (lm_rfds_update r (lm_fds_update f s))" and ls: "\<And>s f. I s \<Longrightarrow> I (lsp_fd_update f s)"
  shows "I (fst d)"
proof -
  note kept = keepsD [OF accept_blind [OF I]] keepsD [OF read_round_blind [OF I]]
    keepsD [OF dump_wait_blind [OF conn_blindD(2) [OF I]]] keepsD [OF alive_timeout_blind [OF I]]
    keepsD [OF event_blind(1) [OF I]] keepsD [OF event_blind(2) [OF I]]
  have locals: "keeps I (listen_clients_round os cfg sp)" "keeps I (listen_modem_round os cfg fds)"
    "keeps I (listen_modem_setup os cfg)" "keeps I (listen_sp_setup os)" "keeps I (listen_sp_round os fd)" for fds fd
    by (rule locals_blind [OF I]; fact lc rf lm ls)+
  show ?thesis
    using step start
    by (induction rule: system.induct)
      (auto dest: kept keepsD [OF locals(1)] keepsD [OF locals(2)] keepsD [OF locals(3)] keepsD [OF locals(4)] keepsD [OF locals(5)])
qed

lemma system_tables_step: "system os cfg sp c d \<Longrightarrow> tables (fst d) = tables (fst c)"
  using system_blind [OF tables_blind [of "tables (fst c)"], of os cfg sp c d] by (simp add: tables_def)

subsection \<open>Descriptors\<close>

definition listeners :: "'z ctrl_world_scheme \<Rightarrow> int list" where
  "listeners s = (case lm_fds s of None \<Rightarrow> [] | Some fds \<Rightarrow> watched fds) @ (case lsp_fd s of None \<Rightarrow> [] | Some fd \<Rightarrow> [fd])"

text \<open>
  The invariant of the descriptors: those of the pipes, of the clients and of the listeners are
  open, nothing was used outside its life, and the listener of the modem watches only its own.
\<close>

definition sys_inv :: "int list \<Rightarrow> 'z ctrl_world_scheme \<Rightarrow> bool" where
  "sys_inv F s \<longleftrightarrow> 4 \<le> length F \<and> conn_inv (F @ listeners s) s \<and>
     (case lm_fds s of None \<Rightarrow> True | Some fds \<Rightarrow> 0 \<le> fst fds \<and> set (lm_rfds s) \<subseteq> set (watched fds))"

definition locals_of :: "'z ctrl_world_scheme \<Rightarrow> (int \<times> int \<times> int) option \<times> int list \<times> int option" where
  "locals_of s = (lm_fds s, lm_rfds s, lsp_fd s)"

lemma locals_of_blind: "conn_blind (\<lambda>s. locals_of s = X)"
  by (simp add: conn_blind_def load_blind_def io_blind_def locals_of_def)

lemma sys_keeps:
  fixes m :: "('z ctrl_world_scheme, 'a) io"
  assumes conn: "\<And>G. keeps (conn_inv G) m" and loc: "\<And>X. keeps (\<lambda>s. locals_of s = X) m"
  shows "keeps (sys_inv F) m"
  unfolding keeps_def
proof (intro allI impI)
  fix s :: "'z ctrl_world_scheme"
  assume inv: "sys_inv F s"
  have "wp m (\<lambda>_ t. conn_inv (F @ listeners s) t \<and> locals_of t = locals_of s) (\<lambda>_ _. True \<and> True) s"
    by (rule wp_conj) (use inv conn [of "F @ listeners s"] loc [of "locals_of s"] in \<open>auto simp: keeps_def sys_inv_def\<close>)
  then show "wp m (\<lambda>_. sys_inv F) (\<lambda>_ _. True) s"
    by (rule wp_conseq) (use inv in \<open>auto simp: sys_inv_def locals_of_def listeners_def split: option.splits\<close>)
qed

lemma conn_perm: "4 \<le> length F \<Longrightarrow> conn_inv (F @ A @ B) s = conn_inv (F @ B @ A) s"
  by (simp add: conn_inv_def add_ac)

lemma sys_modem_setup:
  assumes "sys_inv F s" "lm_fds s = None" "listen_modem_setup os cfg s = Ret () t"
  shows "sys_inv F t"
proof -
  let ?sp = "case lsp_fd s of None \<Rightarrow> [] | Some fd \<Rightarrow> [fd]"
  have F: "4 \<le> length F" "conn_inv (F @ ?sp) s"
    using assms by (auto simp: sys_inv_def listeners_def)
  obtain fds where fds: "lm_fds t = Some fds" "0 \<le> fst fds" "lm_rfds t = watched fds" "conn_inv ((F @ ?sp) @ watched fds) t"
    using turnsD [OF listen_modem_setup_conn assms(3) F(2)] by (auto split: option.splits)
  have "keeps (\<lambda>u. lsp_fd u = lsp_fd s) (listen_modem_setup os cfg)"
    by (rule locals_blind(3)) (simp_all add: conn_blind_def load_blind_def io_blind_def)
  then have "lsp_fd t = lsp_fd s"
    using keepsD assms(3) by fastforce
  with fds F conn_perm [OF F(1), of "watched fds" ?sp t] show ?thesis
    by (simp add: sys_inv_def listeners_def)
qed

lemma sys_sp_setup:
  assumes "sys_inv F s" "lsp_fd s = None" "listen_sp_setup os s = Ret () t"
  shows "sys_inv F t"
proof -
  let ?lm = "case lm_fds s of None \<Rightarrow> [] | Some fds \<Rightarrow> watched fds"
  have "lsp_fd s = None \<and> conn_inv (F @ ?lm) s"
    using assms by (auto simp: sys_inv_def listeners_def)
  from turnsD [OF listen_sp_setup_conn assms(3) this] have conn: "conn_inv ((F @ ?lm) @ (case lsp_fd t of None \<Rightarrow> [] | Some fd \<Rightarrow> [fd])) t" .
  have "keeps (\<lambda>u. (lm_fds u, lm_rfds u) = (lm_fds s, lm_rfds s)) (listen_sp_setup os)"
    by (rule locals_blind(4)) (simp_all add: conn_blind_def load_blind_def io_blind_def)
  from keepsD [OF this assms(3)] conn assms(1) show ?thesis
    by (auto simp: sys_inv_def listeners_def split: option.splits)
qed

lemma sys_sp_round:
  assumes "sys_inv F s" "lsp_fd s = Some fd" "listen_sp_round os fd s = Ret () t"
  shows "sys_inv F t"
proof -
  let ?lm = "case lm_fds s of None \<Rightarrow> [] | Some fds \<Rightarrow> watched fds"
  have F: "4 \<le> length (F @ ?lm)" "lsp_fd s = Some fd \<and> conn_inv ((F @ ?lm) @ [fd]) s"
    using assms by (auto simp: sys_inv_def listeners_def)
  from turnsD [OF listen_sp_conn [OF F(1)] assms(3) F(2)]
  have conn: "conn_inv ((F @ ?lm) @ (case lsp_fd t of None \<Rightarrow> [] | Some fd \<Rightarrow> [fd])) t" .
  have "keeps (\<lambda>u. (lm_fds u, lm_rfds u) = (lm_fds s, lm_rfds s)) (listen_sp_round os fd)"
    by (rule locals_blind(5)) (simp_all add: conn_blind_def load_blind_def io_blind_def)
  from keepsD [OF this assms(3)] conn assms(1) show ?thesis
    by (auto simp: sys_inv_def listeners_def split: option.splits)
qed

text \<open>The set the listener of the modem watches only loses members.\<close>

lemma keeps_bind_yields:
  assumes "keeps I m" "yields Q m" "\<And>a. Q a \<Longrightarrow> keeps I (f a)"
  shows "keeps I (bind m f)"
  unfolding keeps_def wp_bind
proof (intro allI impI)
  fix s assume "I s"
  then have "wp m (\<lambda>a t. I t \<and> Q a) (\<lambda>_ _. True \<and> True) s"
    by (intro wp_conj) (use assms(1,2) in \<open>auto simp: keeps_def yields_def\<close>)
  then show "wp m (\<lambda>a. wp (f a) (\<lambda>_. I) (\<lambda>_ _. True)) (\<lambda>_ _. True) s"
    by (rule wp_conseq) (use assms(3) in \<open>auto simp: keeps_def\<close>)
qed

lemma keeps_gets_next: "(\<And>s. I s \<Longrightarrow> keeps I (f (g s))) \<Longrightarrow> keeps I (bind (gets g) f)"
  by (simp add: keeps_def wp_rules)

lemma select_within:
  "set fds \<subseteq> W \<Longrightarrow> yields (\<lambda>r. case r of None \<Rightarrow> True | Some ready \<Rightarrow> set ready \<subseteq> W) (select_retry os fds k)"
  by (induction k) (auto simp: yields_def wp_rules syscall_defs Let_def split: option.split)

lemma watched_shrinks:
  fixes W :: "int set"
  shows "keeps (\<lambda>s :: 'z ctrl_world_scheme. set (lm_rfds s) \<subseteq> W) (listen_modem_round os cfg fds)"
proof -
  let ?I = "\<lambda>s :: 'z ctrl_world_scheme. set (lm_rfds s) \<subseteq> W"
  have I: "conn_blind ?I"
    by (simp add: conn_blind_def load_blind_def io_blind_def)
  have shrink: "keeps ?I (modify (\<lambda>s. s\<lparr>lm_rfds := r\<rparr>))" if "set r \<subseteq> W" for r
    by (rule keeps_modify) (simp add: that)
  show ?thesis
    unfolding listen_round_defs
    by (rule keeps_if; (rule keeps_gets_next, rule keeps_bind_yields [OF io_blind_retry(2) [OF conn_blindD(2) [OF I]] select_within],
        assumption))
      (auto intro!: keeps_intros shrink io_blind_keeps io_blind_switch listen_message_blind I conn_blindD(2))
qed

lemma sys_modem_round:
  assumes "sys_inv F s" "lm_fds s = Some fds" "listen_modem_round os cfg fds s = Ret () t"
  shows "sys_inv F t"
proof -
  have fds: "0 \<le> fst fds" "set (lm_rfds s) \<subseteq> set (watched fds)"
    using assms by (auto simp: sys_inv_def)
  have "set (watched fds) \<subseteq> set (F @ listeners s)"
    using assms(2) by (auto simp: listeners_def)
  then have conn: "conn_inv (F @ listeners s) t"
    using keepsD [OF listen_modem_conn [OF fds(1)] assms(3)] assms(1) by (auto simp: sys_inv_def)
  have shrunk: "set (lm_rfds t) \<subseteq> set (watched fds)"
    by (rule keepsD [OF watched_shrinks assms(3) fds(2)])
  have "keeps (\<lambda>u. (lm_fds u, lsp_fd u) = (lm_fds s, lsp_fd s)) (listen_modem_round os cfg fds)"
    by (rule locals_blind(2)) (simp_all add: conn_blind_def load_blind_def io_blind_def)
  from keepsD [OF this assms(3)] have "lm_fds t = lm_fds s" "lsp_fd t = lsp_fd s"
    by simp_all
  with conn shrunk fds assms show ?thesis
    by (simp add: sys_inv_def listeners_def)
qed

lemma sys_inv_step:
  assumes "count_below os" "system os cfg sp c d" "sys_inv F (fst c)"
  shows "sys_inv F (fst d)"
proof -
  note L = locals_of_blind
  have rounds: "keeps (sys_inv F) (accept_client os)" "keeps (sys_inv F) (read_thread_round os)"
    "keeps (sys_inv F) (listen_clients_round os cfg sp)" "keeps (sys_inv F) (modem_ctrl_alive_timeout os cfg k)"
    "keeps (sys_inv F) (uevent_round os sock pollin msgs)" "keeps (sys_inv F) (uevent_handle_thread os cfg sp h info)"
    for k sock pollin msgs h info
    by (rule sys_keeps; rule accept_client_conn read_round_conn listen_clients_conn [OF assms(1)] alive_timeout_conn
        event_conn handle_thread_conn accept_blind [OF L] read_round_blind [OF L] alive_timeout_blind [OF L]
        event_blind [OF L] locals_blind(1) [OF L]; simp add: locals_of_def)+
  have dump: "sys_inv F t" if "sys_inv F s" "write_reset_to_modem_ctrl os (s_fdModemCtrlWrite s) s = Ret () t"
    for s t :: ctrl_world
  proof -
    have "s_fdModemCtrlWrite s \<in> set (F @ listeners s)"
      using that(1) conn_pipe(1,3) [of "F @ listeners s" s] pipe_end_mem [of "F @ listeners s" 1]
      by (simp only: sys_inv_def one_less_numeral_iff semiring_norm simp_thms)
    then have "conn_inv (F @ listeners s) t"
      using keepsD [OF dump_wait_conn that(2)] that(1) by (auto simp: sys_inv_def)
    moreover have "locals_of t = locals_of s"
      using keepsD [OF dump_wait_blind [OF conn_blindD(2) [OF L]] that(2)] by simp
    ultimately show ?thesis
      using that(1) by (auto simp: sys_inv_def locals_of_def listeners_def split: option.splits)
  qed
  show ?thesis
    using assms(2,3)
    by (induction rule: system.induct)
      (auto dest: keepsD [OF rounds(1)] keepsD [OF rounds(2)] keepsD [OF rounds(3)] keepsD [OF rounds(4)]
        keepsD [OF rounds(5)] keepsD [OF rounds(6)] intro: dump sys_modem_setup sys_modem_round sys_sp_setup sys_sp_round)
qed

section \<open>Properties\<close>

lemma clients_setup_start:
  fixes s0 :: "'z ctrl_world_scheme"
  assumes "\<forall>tr. 0 \<le> fst (os_pipe os tr)" "run_events fd_step {#} (trace s0) \<noteq> None" "lm_fds s0 = None" "lsp_fd s0 = None"
    "clients_setup os s0 = Ret r s"
  shows "sys_inv (pipe_ends s) s"
proof -
  have conn: "conn_inv (pipe_ends s) s"
    using setup_conn [of s0 _ os] assms by (auto simp: wp_def)
  have I: "io_blind (\<lambda>s :: 'z ctrl_world_scheme. lm_fds s = None \<and> lsp_fd s = None)"
    by (simp add: io_blind_def)
  have kept: "keeps (\<lambda>s :: 'z ctrl_world_scheme. lm_fds s = None \<and> lsp_fd s = None) (clients_setup os)"
    unfolding clients_setup_def case_prod_beta by (rule keeps_intros keeps_modify io_blind_keeps I | simp)+
  have "lm_fds s = None \<and> lsp_fd s = None"
    using keepsD [OF kept assms(5)] assms by simp
  with conn show ?thesis
    by (simp add: sys_inv_def listeners_def pipe_ends_def)
qed



text \<open>
  C13: Between the rounds of the threads no mutex is held, and none was ever locked twice by
  its holder or unlocked by another, in every interleaving of the rounds.
\<close>

theorem system_mutexes:
  assumes "reaches os cfg sp (s, hs) (t, ks)" "run_events mutex_step [] (trace s) = Some []"
  shows "run_events mutex_step [] (trace t) = Some []"
  using reaches_invariant [where I = "\<lambda>s. run_events mutex_step [] (trace s) = Some []", OF _ assms(1)] assms(2)
    system_mutex_step by fastforce

theorem system_mutexes_witness:
  "\<exists>t. accept_client ok_os ctrl_start = Ret () t \<and> run_events mutex_step [] (trace t) = Some []"
proof -
  have "\<exists>t. accept_client ok_os ctrl_start = Ret () t"
    by (auto simp: accept_client_def syscall_defs io_simps Let_def split: prod.splits option.splits)
  then obtain t where t: "accept_client ok_os ctrl_start = Ret () t" ..
  have "reaches ok_os base_config sample_params (ctrl_start, []) (t, [])"
    by (rule reaches.step [OF reaches.start system.accept [OF t]])
  with system_mutexes [OF this] t show ?thesis
    by (auto simp: ctrl_start_trace)
qed

text \<open>
  C38: The load tables and the registered event handlers never change while the program runs:
  every reload of the modem, whatever thread asks for it, uses the tables made at the start.
\<close>

theorem system_tables:
  assumes "reaches os cfg sp (s, hs) (t, ks)"
  shows "tables t = tables s"
  using reaches_invariant [where I = "\<lambda>u. tables u = tables s", OF _ assms] system_tables_step by fastforce

theorem system_tables_witness:
  "\<exists>t. accept_client ok_os ctrl_start = Ret () t \<and> tables t = tables ctrl_start"
proof -
  have "\<exists>t. accept_client ok_os ctrl_start = Ret () t"
    by (auto simp: accept_client_def syscall_defs io_simps Let_def split: prod.splits option.splits)
  then obtain t where t: "accept_client ok_os ctrl_start = Ret () t" ..
  have "reaches ok_os base_config sample_params (ctrl_start, []) (t, [])"
    by (rule reaches.step [OF reaches.start system.accept [OF t]])
  with system_tables [OF this] t show ?thesis by blast
qed

lemma watch_step:
  assumes "system os cfg sp c d" "lm_fds (fst c) = Some fds" "set (lm_rfds (fst c)) \<subseteq> W"
  shows "lm_fds (fst d) = Some fds \<and> set (lm_rfds (fst d)) \<subseteq> W"
proof -
  let ?I = "\<lambda>s :: ctrl_world. lm_fds s = Some fds \<and> set (lm_rfds s) \<subseteq> W"
  have I: "conn_blind ?I"
    by (simp add: conn_blind_def load_blind_def io_blind_def)
  have locals: "keeps ?I (listen_clients_round os cfg sp)" "keeps ?I (listen_sp_setup os)" "keeps ?I (listen_sp_round os fd)" for fd
    by (rule locals_blind [OF I]; simp)+
  have fds: "keeps (\<lambda>s :: ctrl_world. lm_fds s = Some fds) (listen_modem_round os cfg fds)"
    by (rule locals_blind(2)) (simp_all add: conn_blind_def load_blind_def io_blind_def)
  note kept = keepsD [OF accept_blind [OF I]] keepsD [OF read_round_blind [OF I]]
    keepsD [OF dump_wait_blind [OF conn_blindD(2) [OF I]]] keepsD [OF alive_timeout_blind [OF I]]
    keepsD [OF event_blind(1) [OF I]] keepsD [OF event_blind(2) [OF I]]
    keepsD [OF locals(1)] keepsD [OF locals(2)] keepsD [OF locals(3)]
  show ?thesis
    using assms
    by (induction rule: system.induct) (simp_all add: keepsD [OF fds] keepsD [OF watched_shrinks] kept)
qed

text \<open>
  Once the listener of the modem has started, the set of devices it watches only shrinks:
  a device that was not ready together with the others is never watched again.
\<close>

theorem system_watch_shrinks:
  assumes "reaches os cfg sp (s, hs) (t, ks)" "lm_fds s = Some fds"
  shows "lm_fds t = Some fds \<and> set (lm_rfds t) \<subseteq> set (lm_rfds s)"
proof -
  let ?I = "\<lambda>u. lm_fds u = Some fds \<and> set (lm_rfds u) \<subseteq> set (lm_rfds s)"
  have "?I v" if "?I u" "system os cfg sp (u, ps) (v, qs)" for u v ps qs
    using watch_step [OF that(2), of fds "set (lm_rfds s)"] that(1) by simp
  from reaches_invariant [where I = ?I, OF this assms(1)] show ?thesis
    using assms(2) by simp
qed

text \<open>
  In the witness the assert device is ready in the first round; afterwards the watchdog and the
  alive device are no longer watched.
\<close>

theorem system_watch_shrinks_witness:
  "\<exists>t. listen_modem_round (ok_os\<lparr>os_select := (\<lambda>tr fds. Some [3])\<rparr>) base_config (3, 4, 5)
       (ctrl_start\<lparr>lm_fds := Some (3, 4, 5), lm_rfds := [3, 4, 5]\<rparr>) = Ret () t \<and> lm_fds t = Some (3, 4, 5) \<and>
     set (lm_rfds t) \<subseteq> {3, 4, 5} \<and> lm_rfds t = [3]"
proof -
  let ?os = "ok_os\<lparr>os_select := (\<lambda>tr fds. Some [3])\<rparr>"
  let ?s = "ctrl_start\<lparr>lm_fds := Some (3, 4, 5), lm_rfds := [3, 4, 5]\<rparr>"
  note retry = select_retry.simps(2) [where k = 4, simplified]
  have "\<exists>t. listen_modem_round ?os base_config (3, 4, 5) ?s = Ret () t \<and> lm_rfds t = [3]"
    by (simp add: listen_round_defs retry ready_device_def int_message_def cstr_def has_substr_def
        MODEM_ALIVE_def MODEM_RESET_def MODEM_ASSERT_def modem_ctrl_enable_wake_lock_def base_config_def ctrl_start_trace
        ok_os_def syscall_defs io_simps Let_def)
  then obtain t where t: "listen_modem_round ?os base_config (3, 4, 5) ?s = Ret () t" "lm_rfds t = [3]" by blast
  have "reaches ?os base_config sample_params (?s, []) (t, [])"
    by (rule reaches.step [OF reaches.start system.modem [OF _ t(1)]]) simp
  with system_watch_shrinks [OF this] t show ?thesis by auto
qed


text \<open>
  The main thread never returns.
\<close>

theorem modem_main_never_returns: "modem_main os cfg sp xe s \<noteq> Ret u t"
proof -
  have "yields (\<lambda>_. False) (modem_main os cfg sp xe)"
    unfolding modem_main_def dead_loop_def by (rule yields_intros)+
  then show ?thesis
    by (auto dest: yields_result)
qed

text \<open>
  In recovery mode nothing is loaded and no thread is started: after the command line was
  read the main thread sleeps.
\<close>

theorem modem_main_recovery:
  assumes "0 \<le> fd" "fd = os_open os (trace s) ''/proc/cmdline'' O_RDONLY"
    "os_read os (trace s @ [Open ''/proc/cmdline'' O_RDONLY fd]) fd (CPCMDLINE_SIZE - 1) = Some d"
    "has_substr (cstr (take (CPCMDLINE_SIZE - 1) d)) ''androidboot.mode=recovery''"
  shows "\<exists>t. modem_main os cfg sp xe s = Stop (Forever ''main: sleep'') t \<and>
     trace t = trace s @ [Open ''/proc/cmdline'' O_RDONLY fd,
       Read fd (CPCMDLINE_SIZE - 1) (Some (take (CPCMDLINE_SIZE - 1) d)), Close fd]"
proof -
  have "take (CPCMDLINE_SIZE - 1) d \<noteq> []"
    using assms(4) by (auto simp: has_substr_def cstr_def)
  then show ?thesis
    using assms
    by (simp add: modem_main_def dead_loop_def modem_ctrl_init_boot_mode_def boot_mode_of_def ctl_defs syscall_defs io_simps Let_def)
qed

theorem modem_main_recovery_witness:
  "\<exists>t. modem_main (ok_os\<lparr>os_read := (\<lambda>tr fd n. Some ''quiet androidboot.mode=recovery'')\<rparr>) base_config sample_params xe0 conn_start =
       Stop (Forever ''main: sleep'') t \<and> length (trace t) = 3"
proof -
  let ?os = "ok_os\<lparr>os_read := (\<lambda>tr fd n. Some ''quiet androidboot.mode=recovery'')\<rparr>"
  have "has_substr (cstr (take (CPCMDLINE_SIZE - 1) ''quiet androidboot.mode=recovery'')) ''androidboot.mode=recovery''"
    by (simp add: has_substr_def cstr_def CPCMDLINE_SIZE_def)
  then have "\<exists>t. modem_main ?os base_config sample_params xe0 conn_start = Stop (Forever ''main: sleep'') t \<and>
      trace t = trace conn_start @ [Open ''/proc/cmdline'' O_RDONLY 3,
       Read 3 (CPCMDLINE_SIZE - 1) (Some (take (CPCMDLINE_SIZE - 1) ''quiet androidboot.mode=recovery'')), Close 3]"
    by (intro modem_main_recovery) (simp_all add: conn_start_trace)
  then show ?thesis
    by (auto simp: conn_start_trace)
qed

section \<open>Fuel\<close>

lemma brief_calls:
  "brief (sys_open os p fl)" "brief (sys_write os fd d)" "brief (sys_close fd)" "brief (sys_chown os p)" "brief (gets f)"
  by (simp_all add: brief_def syscall_defs io_simps Let_def pauses_def pause_def)

lemma brief_if: "brief m \<Longrightarrow> brief n \<Longrightarrow> brief (if b then m else n)"
  by simp

lemma rescan_brief: "brief (modem_rescan_ep_device os)"
  unfolding modem_rescan_ep_device_def modem_chane_ep_device_owner_def modem_write_file_def ctl_defs seq_def
  by (rule brief_bind brief_return brief_calls brief_if)+

text \<open>
  C29: The rescan loop returns when the rescan succeeds from some point on: as many
  repetitions as events until then are enough.
\<close>

theorem rescan_loop_returns:
  fixes s :: "'z pcie_world_scheme"
  assumes "\<forall>u :: 'z pcie_world_scheme. N \<le> length (trace u) \<longrightarrow> returns (modem_rescan_ep_device os u) = Some 0"
  shows "\<exists>t. rescan_loop os (Suc N) s = Ret () t"
proof -
  have attempt: "\<exists>r t. modem_rescan_ep_device os u = Ret r t \<and> prefix (trace u) (trace t)" for u :: "'z pcie_world_scheme"
  proof -
    obtain r t es where "modem_rescan_ep_device os u = Ret r t" "trace t = trace u @ es"
      using rescan_brief [of os] unfolding brief_def by blast
    then show ?thesis by auto
  qed
  have "\<exists>t. rescan_loop os (Suc k) u = Ret () t" if "N \<le> length (trace u) + k" for k and u :: "'z pcie_world_scheme"
    using that
  proof (induction k arbitrary: u)
    case 0
    then have "returns (modem_rescan_ep_device os u) = Some 0"
      using assms by simp
    then obtain t where "modem_rescan_ep_device os u = Ret 0 t"
      by (cases "modem_rescan_ep_device os u") auto
    then show ?case by (simp add: bind_def seq_def syscall_defs syscall_def return_def)
  next
    case (Suc k)
    obtain r t where t: "modem_rescan_ep_device os u = Ret r t" "prefix (trace u) (trace t)"
      using attempt by blast
    let ?t = "t\<lparr>trace := trace t @ [Sleep 1000000]\<rparr>"
    have "N \<le> length (trace ?t) + k"
      using Suc.prems prefix_length_le [OF t(2)] by simp
    from Suc.IH [OF this] t(1) show ?case
      by (simp add: io_simps syscall_defs rescan_loop.simps(2) [of os "Suc k"] del: rescan_loop.simps)
  qed
  from this [of s N] show ?thesis by simp
qed

theorem rescan_loop_returns_witness:
  "\<exists>t. rescan_loop ok_os 1 pcie_start = Ret () t"
proof -
  have "returns (modem_rescan_ep_device ok_os u) = Some 0" for u :: pcie_world
    by (auto simp: modem_rescan_ep_device_def modem_chane_ep_device_owner_def modem_write_file_def ctl_defs
        syscall_defs io_simps Let_def)
  then show ?thesis
    using rescan_loop_returns [of 0 ok_os pcie_start] by simp
qed

text \<open>
  A read that signals interrupt is repeated until it is not interrupted: when the
  interruptions stop, it returns.
\<close>

theorem read_retry_returns:
  fixes s :: "'z ctl_world_scheme"
  assumes "\<forall>tr. N \<le> length tr \<longrightarrow> os_errno os tr \<noteq> EINTR"
  shows "\<exists>d t. read_retry os fd n (Suc N) s = Ret d t"
proof -
  have "\<exists>d t. read_retry os fd n (Suc k) u = Ret d t" if "N \<le> length (trace u) + k" for k and u :: "'z ctl_world_scheme"
    using that
  proof (induction k arbitrary: u)
    case 0
    then show ?case
      using assms by (simp add: syscall_defs io_simps Let_def)
  next
    case (Suc k)
    let ?d = "map_option (take n) (os_read os (trace u) fd n)"
    let ?u = "u\<lparr>trace := trace u @ [Read fd n ?d]\<rparr>"
    have eq: "read_retry os fd n (Suc (Suc k)) u =
        (if ?d = None \<and> os_errno os (trace ?u) = EINTR then read_retry os fd n (Suc k) ?u else Ret ?d ?u)"
      by (subst read_retry.simps(2))
        (cases "os_read os (trace u) fd n"; simp del: read_retry.simps add: syscall_defs io_simps Let_def)
    have "N \<le> length (trace ?u) + k"
      using Suc.prems by simp
    from Suc.IH [OF this] show ?case
      unfolding eq by (metis (full_types))
  qed
  from this [of s N] show ?thesis by simp
qed

theorem read_retry_returns_witness:
  "\<exists>d t. read_retry (ok_os\<lparr>os_read := (\<lambda>tr fd n. None), os_errno := (\<lambda>tr. if length tr < 3 then EINTR else EAGAIN)\<rparr>)
     7 10 4 ctl_start = Ret d t"
  using read_retry_returns [of 3 "ok_os\<lparr>os_read := (\<lambda>tr fd n. None), os_errno := (\<lambda>tr. if length tr < 3 then EINTR else EAGAIN)\<rparr>" 7 10 ctl_start]
  by simp

end
