(* ===== verification/Modem_Dbg.thy ===== *)
theory Modem_Dbg
  imports Io_Control
begin

text \<open>
  \<open>modem_ctrl_dbg.c\<close>: the command line tool that prints the memory regions of a modem and dumps
  one of them to a file. It is a program of its own; it shares only the device requests with the
  daemon. The dump loop follows \<open>os_patience\<close> repetitions.
\<close>

section \<open>Commands\<close>

definition CP_DEV_PATH :: string where "CP_DEV_PATH = ''/dev/modem''"
definition SP_DEV_PATH :: string where "SP_DEV_PATH = ''dev/pmsys''"
definition DP_DEV_PATH :: string where "DP_DEV_PATH = ''/dev/dpsys''"
definition MAX_ONECE_READ_SIZE :: u32 where "MAX_ONECE_READ_SIZE = 32 * 1024 * 1024"
definition INVALID_INDEX :: u32 where "INVALID_INDEX = 0xFFFF"
definition MODEM_STORE_PATH :: string where "MODEM_STORE_PATH = ''/data/modem_dump/''"
definition MODEM_READ_ALL_MEM :: u32 where "MODEM_READ_ALL_MEM = 0xFF"
definition MODEM_READ_MODEM_MEM :: u32 where "MODEM_READ_MODEM_MEM = 0xFE"

definition ERROR_OPEN_DIR :: int where "ERROR_OPEN_DIR = 1"
definition ERROR_OPEN_READ_FILE :: int where "ERROR_OPEN_READ_FILE = 2"
definition ERROR_OPEN_WRITE_FILE :: int where "ERROR_OPEN_WRITE_FILE = 3"
definition ERROR_READ_FILE :: int where "ERROR_READ_FILE = 4"
definition ERROR_WRITE_FILE :: int where "ERROR_WRITE_FILE = 5"
definition ERROR_INVALID_INDEX :: int where "ERROR_INVALID_INDEX = 6"
definition ERROR_UNDEFINE_SYSTEM :: int where "ERROR_UNDEFINE_SYSTEM = 7"
definition ERROR_UNDEFINE_CMD :: int where "ERROR_UNDEFINE_CMD = 8"
definition ERROR_GET_LOAD_INFO :: int where "ERROR_GET_LOAD_INFO = 9"

datatype dbg_system = MODEM_CP | MODEM_SP | MODEM_DP | MODEM_CNT

datatype dbg_action = ACTION_HELP | ACTION_GET_INFO | ACTION_DUMP_MEMORY

record modem_cmd =
  cmd_action :: dbg_action
  cmd_system :: dbg_system
  cmd_index :: u32

record dbg_world = ctl_world +
  g_cp_load_info :: modem_load_info
  g_sp_load_info :: modem_load_info
  g_dp_load_info :: modem_load_info

text \<open>
  \<open>strtol (s, NULL, 10)\<close> with \<open>errno\<close> cleared before: a value that does not fit is an error,
  a word that is no number is 0. The result goes through an \<open>int\<close> into the index.
\<close>

definition parse_index :: "string \<Rightarrow> u32 option" where
  "parse_index s =
     (let (neg, t) = sign_of (dropWhile isspace s);
          v = int (fst (digits_of 10 0 t));
          w = (if neg then - v else v)
      in if LONG_MIN \<le> w \<and> w \<le> LONG_MAX then Some (word_of_int w) else None)"

text \<open>The command of the words after the program's name.\<close>

definition parse_cmd :: "string list \<Rightarrow> modem_cmd" where
  "parse_cmd args =
     \<lparr>cmd_action = (case args of [] \<Rightarrow> ACTION_HELP
        | a # _ \<Rightarrow> if a = ''dump'' then ACTION_DUMP_MEMORY else if a = ''get'' then ACTION_GET_INFO else ACTION_HELP),
      cmd_system = (case args of _ # y # _ \<Rightarrow>
          if y = ''cp'' then MODEM_CP else if y = ''sp'' then MODEM_SP else if y = ''dp'' then MODEM_DP else MODEM_CNT
        | _ \<Rightarrow> MODEM_CNT),
      cmd_index = (case args of _ # _ # z # _ \<Rightarrow>
          (case parse_index z of None \<Rightarrow> INVALID_INDEX | Some i \<Rightarrow> i)
        | _ \<Rightarrow> INVALID_INDEX)\<rparr>"

section \<open>Texts\<close>

definition NL :: string where "NL = [CHR 0x0A]"

definition digit :: "nat \<Rightarrow> char" where
  "digit d = char_of (if d < 10 then 48 + d else 87 + d)"

fun show_nat :: "nat \<Rightarrow> nat \<Rightarrow> string" where
  "show_nat b n = (if n < b \<or> b < 2 then [digit n] else show_nat b (n div b) @ [digit (n mod b)])"

declare show_nat.simps [simp del]

definition pad :: "nat \<Rightarrow> string \<Rightarrow> string" where
  "pad k s = replicate (k - length s) (CHR ''0'') @ s"

definition show_int :: "int \<Rightarrow> string" where
  "show_int i = (if i < 0 then CHR ''-'' # show_nat 10 (nat (- i)) else show_nat 10 (nat i))"

definition usage_text :: "build_config \<Rightarrow> string" where
  "usage_text cfg = NL @ ''get modem info'' @ NL @ ''==== Usage: ===='' @ NL @ ''[get] [cp]'' @ NL @ ''[get] [sp]'' @ NL @
     (if FEATURE_EXTERNAL_MODEM cfg then ''[get] [dp]'' @ NL else []) @ NL @
     ''dump modem memory, the dump file'' @ NL @ ''will store in /data/modem_dump/'' @ NL @ ''==== Usage: ===='' @ NL @
     ''[dump] [cp] [index]'' @ NL @ ''[dump] [sp] [index]'' @ NL @
     (if FEATURE_EXTERNAL_MODEM cfg then ''[dump] [dp] [index]'' @ NL else []) @ NL @
     ''==== eg: ===='' @ NL @ ''get cp'' @ NL @ ''dump cp 0'' @ NL"

definition usage :: "build_config \<Rightarrow> ('z world_scheme, int) io" where
  "usage cfg = seq (sys_print (usage_text cfg)) (return 0)"

definition region_line :: "nat \<Rightarrow> u64 \<Rightarrow> u32 \<Rightarrow> string \<Rightarrow> string" where
  "region_line i address sz name =
     ''  index ='' @ pad 3 (show_nat 10 i) @ '', address = 0x'' @ pad 8 (show_nat 16 (unat address)) @
     '', size = 0x'' @ pad 8 (show_nat 16 (unat sz)) @ '', name = '' @ cstr name @ ''.'' @ NL"

section \<open>Operations\<close>

definition get_load_info :: "os \<Rightarrow> string \<Rightarrow> modem_load_info \<Rightarrow> ('z ctl_world_scheme, int \<times> modem_load_info) io" where
  "get_load_info os path info =
     seq (modem_lock_read os path)
     (bind (modem_get_load_info os path info) (\<lambda>r.
     seq (modem_unlock_read os path)
     (return r)))"

definition init_load_info :: "os \<Rightarrow> build_config \<Rightarrow> ('z dbg_world_scheme, int) io" where
  "init_load_info os cfg =
     bind (gets g_cp_load_info) (\<lambda>cp.
     bind (get_load_info os CP_DEV_PATH cp) (\<lambda>(r1, cp).
     seq (modify (\<lambda>s. s\<lparr>g_cp_load_info := cp\<rparr>))
     (bind (gets g_sp_load_info) (\<lambda>spi.
     bind (get_load_info os SP_DEV_PATH spi) (\<lambda>(r2, spi).
     seq (modify (\<lambda>s. s\<lparr>g_sp_load_info := spi\<rparr>))
     (if FEATURE_EXTERNAL_MODEM cfg then
        bind (gets g_dp_load_info) (\<lambda>dp.
        bind (get_load_info os DP_DEV_PATH dp) (\<lambda>(r3, dp).
        seq (modify (\<lambda>s. s\<lparr>g_dp_load_info := dp\<rparr>))
        (return (r1 + r2 + r3))))
      else return (r1 + r2)))))))"

text \<open>The regions live in an array of \<open>MAX_REGION_CNT\<close>; the count comes from the driver.\<close>

fun print_regions :: "modem_region_info list \<Rightarrow> nat list \<Rightarrow> ('z world_scheme, unit) io" where
  "print_regions rs [] = return ()"
| "print_regions rs (i # is) =
     (if length rs \<le> i then stop (Fault ''modem_dbg_print_info: regions'')
      else seq (sys_print (region_line i (reg_address (rs ! i)) (reg_size (rs ! i)) (reg_name (rs ! i))))
          (print_regions rs is))"

definition modem_dbg_print_info :: "modem_load_info \<Rightarrow> dbg_system \<Rightarrow> ('z world_scheme, int) io" where
  "modem_dbg_print_info info y =
     seq (sys_print (''The '' @ (case y of MODEM_CP \<Rightarrow> ''cp'' | MODEM_SP \<Rightarrow> ''sp'' | _ \<Rightarrow> ''dp'') @ '' system info:'' @ NL))
     (seq (print_regions (regions info) [0..<unat (region_cnt info)])
     (seq (do_if (y = MODEM_CP)
            (seq (sys_print (region_line (unat MODEM_READ_MODEM_MEM) (li_modem_base info) (li_modem_size info) ''all modem''))
            (sys_print (region_line (unat MODEM_READ_ALL_MEM) (li_all_base info) (li_all_size info) ''all memory''))))
     (return 0)))"

text \<open>The error, or the descriptors of the device and of the file.\<close>

definition modem_dbg_open_files :: "os \<Rightarrow> string \<Rightarrow> string \<Rightarrow> ('z ctl_world_scheme, int + int \<times> int) io" where
  "modem_dbg_open_files os rd_path wr_path =
     bind (sys_mkdir os MODEM_STORE_PATH) (\<lambda>made.
     bind (get_errno os) (\<lambda>e.
     if \<not> made \<and> e \<noteq> EEXIST then
       seq (sys_print (''create '' @ MODEM_STORE_PATH @ '' fail!'' @ NL)) (return (Inl ERROR_OPEN_DIR))
     else bind (sys_open os rd_path O_RDONLY) (\<lambda>fdin.
     if fdin < 0 then
       seq (sys_print (''open: '' @ rd_path @ '' fail!'' @ NL)) (return (Inl ERROR_OPEN_READ_FILE))
     else bind (sys_open os wr_path O_CREAT_WRONLY) (\<lambda>fdout.
     if fdout < 0 then
       seq (sys_close fdin)
       (seq (sys_print (''open: '' @ wr_path @ '' fail!'' @ NL)) (return (Inl ERROR_OPEN_WRITE_FILE)))
     else return (Inr (fdin, fdout))))))"

definition modem_dbg_get_read_path :: "dbg_system \<Rightarrow> string" where
  "modem_dbg_get_read_path y = (if y = MODEM_CP then CP_DEV_PATH else if y = MODEM_SP then SP_DEV_PATH else DP_DEV_PATH)"

text \<open>The copy; \<open>sz\<close> is what is left of the region, and wraps when the device delivers more.\<close>

fun dump_loop :: "os \<Rightarrow> int \<Rightarrow> int \<Rightarrow> nat \<Rightarrow> u32 \<Rightarrow> nat \<Rightarrow> ('z ctl_world_scheme, int) io" where
  "dump_loop os fdin fdout rsize sz 0 = stop (Forever ''modem_dbg_dump_region: endless device'')"
| "dump_loop os fdin fdout rsize sz (Suc k) =
     bind (sys_read os fdin rsize) (\<lambda>d. case d of
       None \<Rightarrow> seq (sys_print (''read err: [ret=-1]'' @ NL)) (return ERROR_READ_FILE)
     | Some buf \<Rightarrow>
       if buf = [] then seq (sys_print ''no more data.'') (return 0)
       else bind (sys_write os fdout buf) (\<lambda>wsize.
         if wsize \<noteq> int (length buf) then
           seq (sys_print (''write err: [wsize='' @ show_int wsize @ '', rrsize=0x'' @ show_nat 16 (length buf) @
             '', remain=0x'' @ show_nat 16 (unat sz) @ '']'' @ NL))
           (return ERROR_WRITE_FILE)
         else if 0 < sz - of_nat (length buf)
           then dump_loop os fdin fdout rsize (sz - of_nat (length buf)) k
           else return 0))"

definition modem_dbg_dump_region ::
  "os \<Rightarrow> modem_load_info \<Rightarrow> u32 \<Rightarrow> dbg_system \<Rightarrow> ('z ctl_world_scheme, int) io" where
  "modem_dbg_dump_region os info index y =
     seq (sys_print (''modem_dbg_dump_region, index = '' @ show_int (sint index) @ ''.'' @ NL))
     (if region_cnt info \<le> index \<and> index \<noteq> MODEM_READ_ALL_MEM \<and> index \<noteq> MODEM_READ_MODEM_MEM then return ERROR_INVALID_INDEX
      else if index \<noteq> MODEM_READ_ALL_MEM \<and> index \<noteq> MODEM_READ_MODEM_MEM \<and> length (regions info) \<le> unat index
      then stop (Fault ''modem_dbg_dump_region: regions'')
      else let (sz, name) = (if index = MODEM_READ_ALL_MEM then (li_all_size info, ''all'')
               else if index = MODEM_READ_MODEM_MEM then (li_modem_size info, ''all_modem'')
               else (reg_size (regions info ! unat index), reg_name (regions info ! unat index)));
             rd_path = modem_dbg_get_read_path y;
             wr_path = snprintf (MAX_PATH_LEN + 1) [MODEM_STORE_PATH, name, ''.mem''];
             rsize = (if sz < MAX_ONECE_READ_SIZE then sz else MAX_ONECE_READ_SIZE) in
        seq (sys_print (''dump '' @ cstr name @ '': size = 0x'' @ show_nat 16 (unat sz) @ ''.'' @ NL))
        (bind (sys_malloc os (uint rsize)) (\<lambda>ok.
        bind (modem_dbg_open_files os rd_path wr_path) (\<lambda>r. case r of
          Inl e \<Rightarrow> return e
        | Inr (fdin, fdout) \<Rightarrow>
          seq (modem_lock_write os rd_path)
          (seq (modem_set_read_region os rd_path index)
          (seq (modem_unlock_write os rd_path)
          (seq (modem_lock_read os rd_path)
          (bind (dump_loop os fdin fdout (if ok then unat rsize else 64 * 1024) sz (os_patience os)) (\<lambda>ret.
          seq (modem_unlock_read os rd_path)
          (seq (do_if (ret = 0) (sys_print (''dump succ '' @ wr_path @ ''.'' @ NL)))
          (seq (sys_close fdin)
          (seq (sys_close fdout)
          (return ret)))))))))))))"

definition modem_dbg_proc_get :: "build_config \<Rightarrow> modem_cmd \<Rightarrow> ('z dbg_world_scheme, int) io" where
  "modem_dbg_proc_get cfg cmd =
     (case cmd_system cmd of
        MODEM_CP \<Rightarrow> bind (gets g_cp_load_info) (\<lambda>i. modem_dbg_print_info i MODEM_CP)
      | MODEM_SP \<Rightarrow> bind (gets g_sp_load_info) (\<lambda>i. modem_dbg_print_info i MODEM_SP)
      | MODEM_DP \<Rightarrow> if FEATURE_EXTERNAL_MODEM cfg then bind (gets g_dp_load_info) (\<lambda>i. modem_dbg_print_info i MODEM_DP)
          else return ERROR_UNDEFINE_SYSTEM
      | MODEM_CNT \<Rightarrow> return ERROR_UNDEFINE_SYSTEM)"

definition modem_dbg_proc_dump :: "os \<Rightarrow> build_config \<Rightarrow> modem_cmd \<Rightarrow> ('z dbg_world_scheme, int) io" where
  "modem_dbg_proc_dump os cfg cmd =
     (case cmd_system cmd of
        MODEM_CP \<Rightarrow> bind (gets g_cp_load_info) (\<lambda>i. modem_dbg_dump_region os i (cmd_index cmd) MODEM_CP)
      | MODEM_SP \<Rightarrow> bind (gets g_sp_load_info) (\<lambda>i. modem_dbg_dump_region os i (cmd_index cmd) MODEM_SP)
      | MODEM_DP \<Rightarrow> if FEATURE_EXTERNAL_MODEM cfg
          then bind (gets g_dp_load_info) (\<lambda>i. modem_dbg_dump_region os i (cmd_index cmd) MODEM_DP)
          else return ERROR_UNDEFINE_SYSTEM
      | MODEM_CNT \<Rightarrow> return ERROR_UNDEFINE_SYSTEM)"

definition modem_dbg_proc :: "os \<Rightarrow> build_config \<Rightarrow> modem_cmd \<Rightarrow> ('z dbg_world_scheme, int) io" where
  "modem_dbg_proc os cfg cmd =
     (if cmd_action cmd = ACTION_HELP then usage cfg
      else if cmd_system cmd = MODEM_CNT \<or> cmd_action cmd = ACTION_DUMP_MEMORY \<and> cmd_index cmd = INVALID_INDEX
      then return ERROR_INVALID_INDEX
      else bind (init_load_info os cfg) (\<lambda>ret.
        if ret \<noteq> 0 then return ERROR_GET_LOAD_INFO
        else if cmd_action cmd = ACTION_GET_INFO then modem_dbg_proc_get cfg cmd
        else if cmd_action cmd = ACTION_DUMP_MEMORY then modem_dbg_proc_dump os cfg cmd
        else return ERROR_UNDEFINE_CMD))"

definition modem_ctrl_dbg_main :: "os \<Rightarrow> build_config \<Rightarrow> string list \<Rightarrow> ('z dbg_world_scheme, int) io" where
  "modem_ctrl_dbg_main os cfg args = modem_dbg_proc os cfg (parse_cmd args)"

section \<open>Properties\<close>

lemma open_files_fd:
  "tracks fd_step M (modem_dbg_open_files os p q)
     (\<lambda>r. case r of Inl e \<Rightarrow> M | Inr (a, b) \<Rightarrow> add_mset b (add_mset a M))"
  unfolding modem_dbg_open_files_def
  by (rule track_intros fd_intros | simp split: sum.split prod.split)+

lemma dump_loop_fd:
  "fdin \<in># M \<Longrightarrow> fdout \<in># M \<Longrightarrow> tracks fd_step M (dump_loop os fdin fdout n sz k) (\<lambda>_. M)"
  by (induction k arbitrary: sz) (auto intro!: track_intros fd_intros)

text \<open>
  The tool closes the device and the file it opened, exactly once, on every path, and uses
  them only while they are open.
\<close>

theorem dump_region_descriptors: "fd_clean (modem_dbg_dump_region os info index y)"
proof (rule fd_cleanI)
  fix M
  have copied: "tracks fd_step (add_mset b (add_mset a M)) (seq (modem_lock_write os p) (seq (modem_set_read_region os p i)
      (seq (modem_unlock_write os p) (seq (modem_lock_read os p) (bind (dump_loop os a b n sz k) (\<lambda>ret.
      seq (modem_unlock_read os p) (seq (do_if (ret = 0) (sys_print msg)) (seq (sys_close a) (seq (sys_close b) (return ret)))))))))) (\<lambda>_. M)"
    for a b p i n sz k msg
    by (rule track_intros ioctrl_fd [THEN fd_cleanD] dump_loop_fd fd_intros | simp)+
  show "tracks fd_step M (modem_dbg_dump_region os info index y) (\<lambda>_. M)"
    unfolding modem_dbg_dump_region_def Let_def case_prod_beta
    by (rule track_intros open_files_fd fd_intros copied | simp add: copied split: sum.split prod.split | intro allI impI conjI)+
qed

lemma if_fun: "(if b then f else g) x = (if b then f x else g x)"
  by simp

text \<open>
  C34: A dump that reports success has written to the file exactly the bytes the device
  delivered, in order, and it stopped because the region's size was reached (modulo
  \<open>2 ^ 32\<close>) or the device had no more data.
\<close>

theorem dump_loop_copies:
  assumes "dump_loop os fdin fdout n sz k s = Ret 0 t"
  shows "\<exists>es. trace t = trace s @ es \<and> accepted_data es = read_data es \<and>
     (of_nat (length (read_data es)) = sz \<or> Read fdin n (Some []) \<in> set es)"
  using assms
proof (induction k arbitrary: sz s)
  case 0
  then show ?case by (simp add: stop_def)
next
  case (Suc k)
  show ?case
  proof (cases "os_read os (trace s) fdin n")
    case None
    with Suc.prems show ?thesis
      by (simp add: syscall_defs io_simps ERROR_READ_FILE_def Let_def)
  next
    case (Some raw)
    define buf where "buf = take n raw"
    let ?s1 = "s\<lparr>trace := trace s @ [Read fdin n (Some buf)]\<rparr>"
    let ?w = "max (- 1) (min (int (length buf)) (os_write os (trace ?s1) fdout buf))"
    let ?s2 = "s\<lparr>trace := trace s @ [Read fdin n (Some buf), Write fdout buf ?w]\<rparr>"
    have run: "(if buf = [] then seq (sys_print ''no more data.'') (return 0) ?s1
        else if ?w \<noteq> int (length buf) then
          seq (sys_print (''write err: [wsize='' @ show_int ?w @ '', rrsize=0x'' @ show_nat 16 (length buf) @
             '', remain=0x'' @ show_nat 16 (unat sz) @ '']'' @ NL)) (return ERROR_WRITE_FILE) ?s2
        else if 0 < sz - of_nat (length buf) then dump_loop os fdin fdout n (sz - of_nat (length buf)) k ?s2
        else Ret 0 ?s2) = Ret 0 t"
      using Suc.prems Some unfolding dump_loop.simps(2)
      by (simp add: sys_read_def sys_write_def bind_def syscall_def Let_def return_def buf_def [symmetric] if_fun split del: if_split cong: if_cong)
    consider "buf = []" | "buf \<noteq> []" "?w = int (length buf)" "0 < sz - of_nat (length buf)"
        "dump_loop os fdin fdout n (sz - of_nat (length buf)) k ?s2 = Ret 0 t"
      | "buf \<noteq> []" "?w = int (length buf)" "sz = of_nat (length buf)" "t = ?s2"
      using run by (auto simp: syscall_defs io_simps ERROR_WRITE_FILE_def word_gt_0 split: if_splits)
    then show ?thesis
    proof cases
      case 1
      with run have "trace t = trace s @ [Read fdin n (Some []), Print ''no more data.'']"
        by (auto simp: syscall_defs io_simps)
      then show ?thesis by (intro exI [of _ "[Read fdin n (Some []), Print ''no more data.'']"]) simp
    next
      case 2
      obtain es where es: "trace t = trace ?s2 @ es" "accepted_data es = read_data es"
        "of_nat (length (read_data es)) = sz - of_nat (length buf) \<or> Read fdin n (Some []) \<in> set es"
        using Suc.IH [OF 2(4)] by blast
      with 2 show ?thesis
        by (intro exI [of _ "Read fdin n (Some buf) # Write fdout buf ?w # es"]) auto
    next
      case 3
      then show ?thesis
        by (intro exI [of _ "[Read fdin n (Some buf), Write fdout buf ?w]"]) simp
    qed
  qed
qed

theorem dump_loop_copies_witness:
  "\<exists>t es. dump_loop ok_os 3 4 2 4 5 ctl_start = Ret 0 t \<and> trace t = es \<and> accepted_data es = read_data es"
proof -
  have "\<exists>t. dump_loop ok_os 3 4 2 4 5 ctl_start = Ret 0 t"
    by (simp add: numeral_eq_Suc ok_os_def syscall_defs io_simps Let_def)
  then obtain t where t: "dump_loop ok_os 3 4 2 4 5 ctl_start = Ret 0 t" ..
  from dump_loop_copies [OF t] t show ?thesis
    by (auto simp: ctl_start_def)
qed

text \<open>
  The rest of the region is not compared with the size of a read: a device that delivers
  more than the rest makes it wrap around, and the dump goes on after the end of the region.
\<close>

theorem dump_loop_wraps:
  "dump_loop ok_os fdin fdout 2 3 (Suc (Suc k)) s = dump_loop ok_os fdin fdout 2 (- 1) k
     (s\<lparr>trace := trace s @ [Read fdin 2 (Some [NUL, NUL]), Write fdout [NUL, NUL] 2, Read fdin 2 (Some [NUL, NUL]), Write fdout [NUL, NUL] 2]\<rparr>)"
  by (simp add: ok_os_def numeral_2_eq_2 word_gt_0 syscall_defs io_simps Let_def)

text \<open>
  A command without a known system, or a dump without an index, is refused before any
  device is touched.
\<close>

theorem dbg_refuses:
  assumes "cmd_action (parse_cmd args) \<noteq> ACTION_HELP"
    "length args < 2 \<or> args ! 1 \<notin> {''cp'', ''sp'', ''dp''} \<or> args ! 0 = ''dump'' \<and> length args < 3"
  shows "modem_ctrl_dbg_main os cfg args s = Ret ERROR_INVALID_INDEX s"
  using assms
  by (auto simp: modem_ctrl_dbg_main_def modem_dbg_proc_def parse_cmd_def io_simps split: list.splits if_splits)

theorem dbg_refuses_witness:
  "modem_ctrl_dbg_main os cfg [''dump'', ''cp''] s = Ret ERROR_INVALID_INDEX s"
  by (rule dbg_refuses) (simp_all add: parse_cmd_def)

end
