(* ===== verification/Load_Verified.thy ===== *)
theory Load_Verified
  imports Load_Frame
begin

text \<open>
  What the trusted application is asked to verify. In a verified-boot build every signed image
  is entered into the table of \<open>secure_boot_load.c\<close> while it is loaded by \<open>modem_load.c\<close>, and
  the table is handed over by \<open>secure_boot_verify_all\<close>. The lemmas follow one slot of the
  table through a whole load: \<open>places k g m\<close> says that \<open>m\<close> changes slot \<open>k\<close> by \<open>g\<close>.
\<close>

section \<open>Signed images and their places\<close>

definition signed_entry :: "image_load \<Rightarrow> bool" where
  "signed_entry e \<longleftrightarrow> GET_FLAG (img_flag e) SECURE_FLAG \<and> \<not> GET_FLAG (img_flag e) CMDLINE_FLAG \<and>
     \<not> GET_FLAG (img_flag e) NV_FLAG \<and> \<not> GET_FLAG (img_flag e) BOOT_CODE"

definition signed_loads :: "u32 \<Rightarrow> u32 \<Rightarrow> image_load list \<Rightarrow> image_load list" where
  "signed_loads lf sf es = filter (\<lambda>e. to_load lf sf e \<and> signed_entry e) es"

text \<open>The signed images an internal modem's load goes through, in order.\<close>

definition signed_images :: "build_config \<Rightarrow> u32 \<Rightarrow> 'z load_world_scheme \<Rightarrow> image_load list" where
  "signed_images cfg load_type s =
     (let lt = (if FEATURE_REMOVE_SPRD_MODEM cfg then LOAD_SP_IMG else load_type);
          of_part = (\<lambda>b flag li. if has_bits lt b \<and> (drv_is_ok li \<or> ioctrl_is_ok li)
                        then signed_loads flag NONE_IMAG_FLAG (load_table li) else [])
      in of_part LOAD_SP_IMG SP_IMG_FLAG (sp_load_info s) @ of_part LOAD_MODEM_IMG MODEM_IMG_FLAG (cp_load_info s))"

type_synonym place = "u64 \<times> u32 \<times> u32"

definition place :: "kbc_slot \<Rightarrow> kbc_load_table \<Rightarrow> place" where
  "place k t = (kbc_img_addr (kbc_get k t), kbc_img_len (kbc_get k t), kbc_map_len (kbc_get k t))"

definition enter :: "build_config \<Rightarrow> kbc_slot \<Rightarrow> place \<Rightarrow> image_load \<Rightarrow> place" where
  "enter cfg k x e = (if kbc_slot_of cfg (path_w e) = Some k then (img_addr e, img_size e, img_size e) else x)"

lemma enter_last:
  "kbc_slot_of cfg (path_w e) = Some k \<Longrightarrow> \<forall>f \<in> set ys. kbc_slot_of cfg (path_w f) \<noteq> Some k \<Longrightarrow>
   foldl (enter cfg k) x (xs @ e # ys) = (img_addr e, img_size e, img_size e)"
proof -
  have "foldl (enter cfg k) y ys = y" if "\<forall>f \<in> set ys. kbc_slot_of cfg (path_w f) \<noteq> Some k" for y
    using that by (induction ys) (simp_all add: enter_def)
  then show "kbc_slot_of cfg (path_w e) = Some k \<Longrightarrow> \<forall>f \<in> set ys. kbc_slot_of cfg (path_w f) \<noteq> Some k \<Longrightarrow> ?thesis"
    by (simp add: enter_def)
qed

lemma place_fields [simp]:
  "place k (t\<lparr>kbc_packed_offset := w\<rparr>) = place k t" "place k (t\<lparr>kbc_flag := f\<rparr>) = place k t"
  by (cases k; simp add: place_def)+

section \<open>Following a slot\<close>

definition places :: "kbc_slot \<Rightarrow> (place \<Rightarrow> place) \<Rightarrow> ('z sec_world_scheme, 'a) io \<Rightarrow> bool" where
  "places k g m \<longleftrightarrow> (\<forall>s. wp m (\<lambda>_ t. place k (kbc_table t) = g (place k (kbc_table s))) (\<lambda>_ _. True) s)"

named_theorems places_intros "how a program changes a slot of the verification table"

lemma places_keeps: "(\<And>x. keeps (\<lambda>s. place k (kbc_table s) = x) m) \<Longrightarrow> places k (\<lambda>x. x) m"
  by (auto simp: places_def keeps_def)

lemma places_bind: "places k g m \<Longrightarrow> (\<And>a. places k h (f a)) \<Longrightarrow> places k (\<lambda>x. h (g x)) (bind m f)"
  unfolding places_def wp_bind
proof
  fix s :: "'a sec_world_scheme"
  assume m: "\<forall>s. wp m (\<lambda>_ t. place k (kbc_table t) = g (place k (kbc_table s))) (\<lambda>_ _. True) s"
    and f: "\<And>a. \<forall>s. wp (f a) (\<lambda>_ t. place k (kbc_table t) = h (place k (kbc_table s))) (\<lambda>_ _. True) s"
  show "wp m (\<lambda>a. wp (f a) (\<lambda>_ t. place k (kbc_table t) = h (g (place k (kbc_table s)))) (\<lambda>_ _. True)) (\<lambda>_ _. True) s"
    by (rule wp_conseq [OF m [rule_format]]) (metis f, simp)
qed

lemma places_seq: "places k g m \<Longrightarrow> places k h n \<Longrightarrow> places k (\<lambda>x. h (g x)) (seq m n)"
  unfolding seq_def by (rule places_bind)

lemma places_after: "places k (\<lambda>x. x) m \<Longrightarrow> places k h n \<Longrightarrow> places k h (seq m n)"
  using places_seq [of k "\<lambda>x. x" m h n] by simp

lemma places_before: "places k g m \<Longrightarrow> (\<And>a. places k (\<lambda>x. x) (f a)) \<Longrightarrow> places k g (bind m f)"
  using places_bind [of k g m "\<lambda>x. x" f] by simp

lemma places_return: "places k (\<lambda>x. x) (return a)"
  by (simp add: places_def wp_rules)

lemma places_load_img:
  assumes "\<not> SECURE_BOOT_ENABLE cfg" "\<not> CONFIG_SPRD_SECBOOT cfg" "CONFIG_VBOOT_V2 cfg"
  shows "places k (\<lambda>x. enter cfg k x e) (secure_boot_load_img os cfg sp e)"
proof (cases "kbc_slot_of cfg (path_w e)")
  case (Some slot)
  have "place k t' = enter cfg k (place k t) e" if "kbc_entered slot e t t'" for t t'
    using that Some by (auto simp: kbc_entered_def place_def enter_def)
  then show ?thesis
    unfolding places_def by (blast intro: wp_conseq [OF vboot_enters [OF assms Some]])
next
  case None
  have "keeps (\<lambda>s. place k (kbc_table s) = x) (secure_boot_load_img os cfg sp e)" for x
    unfolding secure_boot_load_img_def get_image_footer_byname_def fill_verify_table_def case_prod_beta
    using assms None
    by (auto intro!: keeps_intros keeps_modify secure_patiton_blind image_blind simp: io_blind_def)
  from places_keeps [OF this] show ?thesis
    by (simp add: enter_def None)
qed

lemma entry_other_blind:
  assumes "io_blind I" "\<not> (any_secure cfg \<and> signed_entry e)"
  shows "keeps I (load_entry os cfg sp load i e)"
  using assms(2)
  unfolding load_entry_def modem_load_cp_cmdline_def modem_load_cp_nv_def modem_load_cp_boot_code_def
    modem_head_get_boot_code_def modem_get_patiton_info_def monitors_on_def Let_def case_prod_beta signed_entry_def
  by (auto intro!: keeps_intros io_blind_keeps [OF assms(1)] io_blind_switch [OF assms(1)] image_blind [OF assms(1)]
      nv_blind [OF assms(1)] spuk_blind [OF assms(1)] ioctrl_blind [OF assms(1)])

lemma load_entry_signed:
  "signed_entry e \<Longrightarrow> any_secure cfg \<Longrightarrow> load_entry os cfg sp load i e =
     seq (do_if (ioctrl_is_ok load) (modem_set_write_region os (io_ctrl load) (of_nat i))) (secure_boot_load_img os cfg sp e)"
  by (simp add: load_entry_def signed_entry_def)

lemma places_set_region: "places k (\<lambda>x. x) (do_if b (modem_set_write_region os p w))"
  by (rule places_keeps) (auto intro!: keeps_intros ioctrl_blind simp: io_blind_def)

lemma places_entry:
  assumes "\<not> SECURE_BOOT_ENABLE cfg" "\<not> CONFIG_SPRD_SECBOOT cfg" "CONFIG_VBOOT_V2 cfg"
  shows "places k (\<lambda>x. if signed_entry e then enter cfg k x e else x) (load_entry os cfg sp load i e)"
proof (cases "signed_entry e")
  case True
  then show ?thesis
    using assms(3) by (simp add: load_entry_signed any_secure_def places_after [OF places_set_region places_load_img [OF assms]])
next
  case False
  then show ?thesis
    by (auto intro!: places_keeps entry_other_blind simp: io_blind_def)
qed

lemma places_entries:
  assumes "\<not> SECURE_BOOT_ENABLE cfg" "\<not> CONFIG_SPRD_SECBOOT cfg" "CONFIG_VBOOT_V2 cfg"
  shows "places k (\<lambda>x. foldl (enter cfg k) x (signed_loads lf sf es)) (load_entries os cfg sp load lf sf i es)"
proof (induction es arbitrary: i)
  case Nil
  show ?case by (simp add: signed_loads_def places_return)
next
  case (Cons e es)
  show ?case
  proof (cases "to_load lf sf e")
    case True
    then have fold: "(\<lambda>x. foldl (enter cfg k) x (signed_loads lf sf (e # es))) =
        (\<lambda>x. foldl (enter cfg k) (if signed_entry e then enter cfg k x e else x) (signed_loads lf sf es))"
      by (auto simp: signed_loads_def)
    show ?thesis
      unfolding fold using True places_bind [OF places_entry [OF assms] places_before [OF Cons places_return]] by simp
  qed (use Cons in \<open>simp add: signed_loads_def\<close>)
qed

lemma places_table:
  assumes "\<not> SECURE_BOOT_ENABLE cfg" "\<not> CONFIG_SPRD_SECBOOT cfg" "CONFIG_VBOOT_V2 cfg"
  shows "places k (\<lambda>x. foldl (enter cfg k) x (signed_loads lf sf (load_table load)))
    (load_img_from_table os cfg sp load lf sf)"
  unfolding load_img_from_table_def by (rule places_entries [OF assms])

text \<open>The two tables of a load, of which the second is read after the first was loaded.\<close>

lemma part_places:
  assumes "\<not> SECURE_BOOT_ENABLE cfg" "\<not> CONFIG_SPRD_SECBOOT cfg" "CONFIG_VBOOT_V2 cfg"
  shows "wp (do_if b (bind (gets f) (\<lambda>li. do_if (drv_is_ok li \<or> ioctrl_is_ok li) (load_img_from_table os cfg sp li lf sf))))
     (\<lambda>_ t. \<forall>k. place k (kbc_table t) = foldl (enter cfg k) (place k (kbc_table s))
        (if b \<and> (drv_is_ok (f s) \<or> ioctrl_is_ok (f s)) then signed_loads lf sf (load_table (f s)) else []))
     (\<lambda>_ _. True) s"
proof -
  have "wp (load_img_from_table os cfg sp (f s) lf sf) (\<lambda>_ t. place k (kbc_table t) =
      foldl (enter cfg k) (place k (kbc_table s)) (signed_loads lf sf (load_table (f s)))) (\<lambda>_ _. True) s" for k
    by (rule places_table [OF assms, unfolded places_def, rule_format])
  then show ?thesis
    by (auto simp: wp_do_if wp_bind wp_gets wp_def split: result.splits)
qed

section \<open>The verdict\<close>

interpretation any_event: boot_events "\<lambda>_. True"
  by unfold_locales simp_all

lemma trace_grows:
  assumes "emits (\<lambda>_. True) m"
  shows "wp m (\<lambda>_ t. \<exists>us. trace t = trace s @ us) (\<lambda>_ _. True) s"
  by (rule wp_grows [OF emits_grows [OF assms]]) (auto simp: prefix_def)

lemma verify_all_verdict:
  fixes s :: "'z sec_world_scheme"
  assumes "kbc_secure cfg"
  shows "wp (secure_boot_verify_all os cfg)
     (\<lambda>_ t. \<exists>es v. trace t = trace s @ es @ [Kbc_Verify (kbc_table s) v] \<and> 0 \<le> v) (\<lambda>_ _. True) s"
proof -
  have "emits (\<lambda>_. True) (modem_check_cmdline os w)" for w
    unfolding modem_check_cmdline_def Let_def by (rule emits_intros any_event.ev_calls)+
  note grows = trace_grows [OF this]
  have "keeps (\<lambda>u :: 'z sec_world_scheme. kbc_table u = kbc_table s) (modem_check_cmdline os w)" for w
    unfolding modem_check_cmdline_def Let_def by (rule keeps_intros io_blind_keeps | simp add: io_blind_def)+
  then have "wp (modem_check_cmdline os w) (\<lambda>_ u. kbc_table u = kbc_table s) (\<lambda>_ _. True) s" for w
    by (simp add: keeps_def)
  from wp_conj [OF this grows]
  have "wp (modem_check_cmdline os w) (\<lambda>_ u. kbc_table u = kbc_table s \<and> (\<exists>es. trace u = trace s @ es)) (\<lambda>_ _. True) s" for w
    by simp
  then have check: "wp (modem_check_cmdline os w) (\<lambda>_ u. kbc_table u = kbc_table s \<and> (\<exists>es. trace u = trace s @ es)) (\<lambda>_ _. True) s" for w .
  show ?thesis
    unfolding secure_boot_verify_all_def wp_do_if wp_seq using assms
    by simp (rule wp_conseq [OF check], auto simp: syscall_defs wp_rules Let_def)
qed

text \<open>What a load leaves alone until the first image is loaded.\<close>

definition unloaded :: "'z pcie_world_scheme \<Rightarrow> 'z pcie_world_scheme \<Rightarrow> bool" where
  "unloaded s u \<longleftrightarrow> sp_load_info u = sp_load_info s \<and> cp_load_info u = cp_load_info s \<and>
     (\<forall>k. place k (kbc_table u) = place k (kbc_table s))"

lemma unloaded_start:
  "keeps (unloaded s) (modem_ctrl_enable_wake_lock os b)"
  "keeps (unloaded s) (do_if c (seq (secure_boot_set_flag lt) (secure_boot_unlock_ddr os)))"
  "keeps (unloaded s) (modem_load_stop os cfg lt)"
  "keeps (unloaded s) (modem_ctrl_set_modem_state st)"
proof -
  have I: "io_blind (unloaded s)"
    by (simp add: io_blind_def unloaded_def)
  show "keeps (unloaded s) (modem_ctrl_enable_wake_lock os b)" "keeps (unloaded s) (modem_load_stop os cfg lt)"
    by (rule io_blind_switch load_run_blind I)+
  show "keeps (unloaded s) (do_if c (seq (secure_boot_set_flag lt) (secure_boot_unlock_ddr os)))"
    unfolding secure_boot_set_flag_def secure_boot_unlock_ddr_def
    by (rule keeps_intros keeps_modify io_blind_keeps I | simp add: unloaded_def)+
  show "keeps (unloaded s) (modem_ctrl_set_modem_state st)"
    unfolding ctl_defs by (rule keeps_modify) (simp add: unloaded_def)
qed

text \<open>The part of a load that goes through one table.\<close>

definition load_part ::
  "os \<Rightarrow> build_config \<Rightarrow> secure_params \<Rightarrow> bool \<Rightarrow> ('z pcie_world_scheme \<Rightarrow> load_value) \<Rightarrow> u32 \<Rightarrow> ('z pcie_world_scheme, unit) io" where
  "load_part os cfg sp b f lf =
     do_if b (bind (gets f) (\<lambda>li. do_if (drv_is_ok li \<or> ioctrl_is_ok li) (load_img_from_table os cfg sp li lf NONE_IMAG_FLAG)))"

definition part_images :: "bool \<Rightarrow> u32 \<Rightarrow> load_value \<Rightarrow> image_load list" where
  "part_images b lf li = (if b \<and> (drv_is_ok li \<or> ioctrl_is_ok li) then signed_loads lf NONE_IMAG_FLAG (load_table li) else [])"

definition entered :: "build_config \<Rightarrow> 'z pcie_world_scheme \<Rightarrow> image_load list \<Rightarrow> 'z pcie_world_scheme \<Rightarrow> bool" where
  "entered cfg s es u \<longleftrightarrow> sp_load_info u = sp_load_info s \<and> cp_load_info u = cp_load_info s \<and>
     (\<exists>tr. trace u = trace s @ tr) \<and> (\<forall>k. place k (kbc_table u) = foldl (enter cfg k) (place k (kbc_table s)) es)"

lemma load_part_enters:
  fixes s :: "'z pcie_world_scheme"
  assumes "\<not> SECURE_BOOT_ENABLE cfg" "\<not> CONFIG_SPRD_SECBOOT cfg" "CONFIG_VBOOT_V2 cfg" "entered cfg s es u"
  shows "wp (load_part os cfg sp b f lf) (\<lambda>_. entered cfg s (es @ part_images b lf (f u))) (\<lambda>_ _. True) u"
proof -
  let ?I = "\<lambda>w :: 'z pcie_world_scheme. sp_load_info w = sp_load_info s \<and> cp_load_info w = cp_load_info s"
  have "sec_blind ?I"
    by (simp add: sec_blind_def io_blind_def)
  then have "keeps ?I (load_part os cfg sp b f lf)"
    unfolding load_part_def by (intro keeps_intros load_table_blind [where I = ?I])
  then have tables: "wp (load_part os cfg sp b f lf) (\<lambda>_. ?I) (\<lambda>_ _. True) u"
    using assms(4) by (simp add: keeps_def entered_def)
  have grows: "emits (\<lambda>_. True) (load_part os cfg sp b f lf)"
    unfolding load_part_def by (rule emits_intros any_event.ev_table)+
  have "wp (load_part os cfg sp b f lf) (\<lambda>_ w. \<forall>k. place k (kbc_table w) =
      foldl (enter cfg k) (place k (kbc_table u)) (part_images b lf (f u))) (\<lambda>_ _. True) u"
    unfolding load_part_def part_images_def by (rule part_places [OF assms(1-3)])
  from wp_conj [OF wp_conj [OF tables trace_grows [OF grows]] this] show ?thesis
    by (rule wp_conseq) (use assms(4) in \<open>auto simp: entered_def\<close>)
qed

lemma entered_keeps:
  assumes "keeps (unloaded s) m" "emits (\<lambda>_. True) m"
  shows "keeps (entered cfg s []) m"
  unfolding keeps_def
proof (intro allI impI)
  fix u
  assume u: "entered cfg s [] u"
  then have "unloaded s u"
    by (simp add: entered_def unloaded_def)
  then have "wp m (\<lambda>_. unloaded s) (\<lambda>_ _. True) u"
    using assms(1) by (simp add: keeps_def)
  from wp_conj [OF this trace_grows [OF assms(2)]] show "wp m (\<lambda>_. entered cfg s []) (\<lambda>_ _. True) u"
    by (rule wp_conseq) (use u in \<open>auto simp: entered_def unloaded_def\<close>)
qed

lemma load_modem_img_int_parts:
  "load_modem_img_int os cfg sp load_type =
     (let lt = (if FEATURE_REMOVE_SPRD_MODEM cfg then LOAD_SP_IMG else load_type) in
      seq (modem_ctrl_enable_wake_lock os True)
      (seq (do_if (kbc_secure cfg) (seq (secure_boot_set_flag lt) (secure_boot_unlock_ddr os)))
      (seq (modem_load_stop os cfg lt)
      (seq (modem_ctrl_set_modem_state MODEM_STATE_LOADING)
      (seq (load_part os cfg sp (has_bits lt LOAD_SP_IMG) sp_load_info SP_IMG_FLAG)
      (seq (load_part os cfg sp (has_bits lt LOAD_MODEM_IMG) cp_load_info MODEM_IMG_FLAG)
      (seq (do_if (any_secure cfg) (secure_boot_verify_all os cfg))
      (seq (modem_load_start os cfg lt)
      (seq (modem_ctrl_set_modem_state MODEM_STATE_BOOTING)
      (seq (modem_ctrl_enable_wake_lock os False)
      (return 0)))))))))))"
  by (simp add: load_modem_img_int_def load_part_def)

definition verified_after :: "build_config \<Rightarrow> 'z pcie_world_scheme \<Rightarrow> image_load list \<Rightarrow> 'z pcie_world_scheme \<Rightarrow> bool" where
  "verified_after cfg s es t \<longleftrightarrow> (\<exists>tr T v. trace t = trace s @ tr \<and> Kbc_Verify T v \<in> set tr \<and> 0 \<le> v \<and>
     (\<forall>k. place k T = foldl (enter cfg k) (place k (kbc_table s)) es))"

lemma verified_afterI:
  assumes "trace t = trace s @ tr" "Kbc_Verify T v \<in> set tr" "0 \<le> v"
    "\<forall>k. place k T = foldl (enter cfg k) (place k (kbc_table s)) es"
  shows "verified_after cfg s es t"
  using assms unfolding verified_after_def by blast

lemma verify_entered:
  assumes "kbc_secure cfg" "entered cfg s es u"
  shows "wp (secure_boot_verify_all os cfg) (\<lambda>_. verified_after cfg s es) (\<lambda>_ _. True) u"
proof -
  obtain tr where "trace u = trace s @ tr" "\<forall>k. place k (kbc_table u) = foldl (enter cfg k) (place k (kbc_table s)) es"
    using assms(2) by (auto simp: entered_def)
  then show ?thesis
    by (intro wp_conseq [OF verify_all_verdict [OF assms(1), of os u]]) (auto intro: verified_afterI)
qed

lemma verified_keeps: "emits (\<lambda>_. True) m \<Longrightarrow> keeps (verified_after cfg s es) m"
proof (rule grows_keeps [OF emits_grows])
  fix u t :: "'a pcie_world_scheme"
  assume "prefix (trace u) (trace t)" "verified_after cfg s es u"
  then obtain zs tr T v where "trace t = trace s @ tr @ zs" "Kbc_Verify T v \<in> set tr" "0 \<le> v"
    "\<forall>k. place k T = foldl (enter cfg k) (place k (kbc_table s)) es"
    by (auto simp: verified_after_def prefix_def)
  then show "verified_after cfg s es t"
    by (intro verified_afterI [of t s "tr @ zs" T v]) auto
qed

lemma wp_then:
  "wp m (\<lambda>_. I) (\<lambda>_ _. True) u \<Longrightarrow> (\<And>t. I t \<Longrightarrow> wp n Q (\<lambda>_ _. True) t) \<Longrightarrow> wp (seq m n) Q (\<lambda>_ _. True) u"
  unfolding wp_seq by (blast intro: wp_conseq)

lemma wp_then_kept:
  "I u \<Longrightarrow> keeps I m \<Longrightarrow> (\<And>t. I t \<Longrightarrow> wp n Q (\<lambda>_ _. True) t) \<Longrightarrow> wp (seq m n) Q (\<lambda>_ _. True) u"
  by (rule wp_then [where I = I]) (auto simp: keeps_def)

lemma load_modem_img_int_verifies:
  assumes "\<not> SECURE_BOOT_ENABLE cfg" "\<not> CONFIG_SPRD_SECBOOT cfg" "CONFIG_VBOOT_V2 cfg"
  shows "wp (load_modem_img_int os cfg sp load_type) (\<lambda>_. verified_after cfg s (signed_images cfg load_type s)) (\<lambda>_ _. True) s"
proof -
  define lt where "lt = (if FEATURE_REMOVE_SPRD_MODEM cfg then LOAD_SP_IMG else load_type)"
  define sps where "sps = part_images (has_bits lt LOAD_SP_IMG) SP_IMG_FLAG (sp_load_info s)"
  define cps where "cps = part_images (has_bits lt LOAD_MODEM_IMG) MODEM_IMG_FLAG (cp_load_info s)"
  have images: "signed_images cfg load_type s = sps @ cps"
    by (simp add: signed_images_def part_images_def lt_def sps_def cps_def Let_def)
  have sec: "kbc_secure cfg" "any_secure cfg"
    using assms(3) by (simp_all add: kbc_secure_def any_secure_def)
  note ev = any_event.ev_intros any_event.ev_stop any_event.ev_start any_event.ev_secure_boot any_event.ev_secure
  have start: "keeps (entered cfg s []) (modem_ctrl_enable_wake_lock os b)"
    "keeps (entered cfg s []) (do_if (kbc_secure cfg) (seq (secure_boot_set_flag lt) (secure_boot_unlock_ddr os)))"
    "keeps (entered cfg s []) (modem_load_stop os cfg lt)" "keeps (entered cfg s []) (modem_ctrl_set_modem_state st)" for b st
    by (rule entered_keeps unloaded_start emits_intros ev | simp add: ctl_defs)+
  have rest: "keeps (verified_after cfg s (sps @ cps)) (seq (modem_load_start os cfg lt)
      (seq (modem_ctrl_set_modem_state MODEM_STATE_BOOTING) (seq (modem_ctrl_enable_wake_lock os False) (return (0 :: int)))))"
    unfolding ctl_defs by (rule verified_keeps emits_intros ev | simp)+
  have verdict: "wp (seq (do_if (any_secure cfg) (secure_boot_verify_all os cfg)) (seq (modem_load_start os cfg lt)
      (seq (modem_ctrl_set_modem_state MODEM_STATE_BOOTING) (seq (modem_ctrl_enable_wake_lock os False) (return (0 :: int))))))
      (\<lambda>_. verified_after cfg s (sps @ cps)) (\<lambda>_ _. True) u" if "entered cfg s (sps @ cps) u" for u
    by (rule wp_then [where I = "verified_after cfg s (sps @ cps)"])
      (use sec rest verify_entered [OF sec(1) that] in \<open>auto simp: wp_do_if keeps_def\<close>)
  have part: "wp (load_part os cfg sp (has_bits lt LOAD_SP_IMG) sp_load_info SP_IMG_FLAG) (\<lambda>_. entered cfg s sps) (\<lambda>_ _. True) u"
    if "entered cfg s [] u" for u
    using load_part_enters [OF assms that, of os sp "has_bits lt LOAD_SP_IMG" sp_load_info SP_IMG_FLAG] that
    by (simp add: entered_def sps_def)
  have part': "wp (load_part os cfg sp (has_bits lt LOAD_MODEM_IMG) cp_load_info MODEM_IMG_FLAG)
      (\<lambda>_. entered cfg s (sps @ cps)) (\<lambda>_ _. True) u" if "entered cfg s sps u" for u
    using load_part_enters [OF assms that, of os sp "has_bits lt LOAD_MODEM_IMG" cp_load_info MODEM_IMG_FLAG] that
    by (simp add: entered_def cps_def)
  have "entered cfg s [] s"
    by (simp add: entered_def)
  then show ?thesis
    unfolding load_modem_img_int_parts lt_def [symmetric] Let_def images
    by (rule wp_then_kept [OF _ start(1)], elim wp_then_kept [OF _ start(2)] wp_then_kept [OF _ start(3)]
        wp_then_kept [OF _ start(4)])
      (rule wp_then [OF part], assumption, rule wp_then [OF part'], assumption, rule verdict)
qed

section \<open>Properties\<close>



end
