(* ===== verification/Controller_Spec.thy ===== *)
theory Controller_Spec
  imports Modem_Main
begin

text \<open>
  What the controller promises: an abstract machine on the state of the modem and the alive
  timer, and the proof that every round of every thread, and so the running program, takes only
  its steps. While a round waits, the other threads are assumed to take steps of the machine
  that bring messages of the modem (\<open>background\<close>); the rounds themselves are shown to.
\<close>

section \<open>The abstract controller\<close>

type_synonym control = "modem_state \<times> nat"

definition control :: "'z ctl_world_scheme \<Rightarrow> control" where
  "control s = (g_modem_state s, alive_timer_sec s)"

text \<open>The states in which the controller accepts a request to load the modem again.\<close>

definition down :: "modem_state \<Rightarrow> bool" where
  "down st \<longleftrightarrow> st \<in> {MODEM_STATE_BLOCK, MODEM_STATE_ASSERT, MODEM_STATE_RESET}"

text \<open>What comes from the modem: it is alive, it resets itself, it failed, it stays silent.\<close>

inductive background :: "control \<Rightarrow> control \<Rightarrow> bool" where
  alive: "background (st, sec) (MODEM_STATE_ALIVE, 0)"
| reset: "background (st, sec) (MODEM_STATE_RESET, sec)"
| failed: "background (st, sec) (MODEM_STATE_ASSERT, sec)"
| silent: "st \<noteq> MODEM_STATE_ALIVE \<Longrightarrow> 0 < sec \<Longrightarrow> background (st, sec) (MODEM_STATE_ASSERT, 0)"

text \<open>What the clients may ask for: a report that the modem is blocked, and a reload.\<close>

inductive controller :: "control \<Rightarrow> control \<Rightarrow> bool" where
  modem: "background c d \<Longrightarrow> controller c d"
| blocked: "controller (st, sec) (MODEM_STATE_BLOCK, sec)"
| reload: "down st \<Longrightarrow> controller (st, sec) (MODEM_STATE_BOOTING, 60)"

inductive_cases controllerE: "controller (st, sec) d"
inductive_cases backgroundE: "background (st, sec) d"

lemma background_controller: "background\<^sup>*\<^sup>* c d \<Longrightarrow> controller\<^sup>*\<^sup>* c d"
  by (rule rtranclp_mono [THEN predicate2D]) (auto intro: controller.modem)

text \<open>The waiting threads rely on the others to keep to the machine.\<close>

definition orderly :: "os \<Rightarrow> bool" where
  "orderly os \<longleftrightarrow> (\<forall>tr st w sec. background\<^sup>*\<^sup>* (st, sec)
     (let (st', w', sec') = os_others os tr (st, w, sec) in (st', sec')))"

section \<open>What no round touches\<close>

lemma control_fields [simp]:
  "control (s\<lparr>s_clientFd := cl\<rparr>) = control s" "control (s\<lparr>s_modemState := st\<rparr>) = control s"
  "control (s\<lparr>s_needResetModem := b\<rparr>) = control s" "control (s\<lparr>s_wakeLocking := b\<rparr>) = control s"
  "control (s\<lparr>rt_later_reset := b\<rparr>) = control s" "control (s\<lparr>rt_state := ds\<rparr>) = control s"
  by (simp_all add: control_def)

lemma control_flags [simp]:
  "control (s\<lparr>wait_modem_reset := b\<rparr>) = control s" "control (s\<lparr>b_miniap_panic := b\<rparr>) = control s"
  by (simp_all add: control_def)

lemma control_locals [simp]:
  "control (s\<lparr>lc_buf := buf\<rparr>) = control s" "control (s\<lparr>lm_fds := f\<rparr>) = control s"
  "control (s\<lparr>lm_rfds := r\<rparr>) = control s" "control (s\<lparr>lsp_fd := fd\<rparr>) = control s"
  by (simp_all add: control_def)

lemma control_io: "io_blind (\<lambda>s. P (control s))"
  by (simp add: io_blind_def control_def)

lemma control_sec: "sec_blind (\<lambda>s. P (control s))"
  by (simp add: sec_blind_def io_blind_def control_def)

lemmas control_steps = keeps_intros keeps_modify io_blind_keeps [OF control_io] io_blind_retry [OF control_io]
  io_blind_switch [OF control_io]

lemma write_data_keeps_control: "keeps (\<lambda>s. P (control s)) (modem_write_data_to_clients os buf)"
  unfolding control_def by (rule write_data_control [where P = "\<lambda>st sec _. P (st, sec)"])

lemma prepare_reset_keeps_control: "keeps (\<lambda>s. P (control s)) (prepare_reset_modem os)"
proof -
  have drain: "keeps (\<lambda>s. P (control s)) (drain os fd k)" for fd k
    by (induction k) (auto intro!: control_steps)
  have log: "keeps (\<lambda>s. P (control s)) (empty_log os fd r k)" for fd r k
    by (induction k arbitrary: r) (auto intro!: control_steps drain)
  show ?thesis
    unfolding prepare_reset_modem_def open_log_def modem_ctrl_read_empty_log_def ctl_defs
    by (rule control_steps drain log | simp)+
qed

lemma client_keeps_control:
  "keeps (\<lambda>s. P (control s)) (accept_client os)"
  "keeps (\<lambda>s. P (control s)) (read_thread_round os :: ('z conn_world_scheme, unit) io)"
  "keeps (\<lambda>s. P (control s)) (write_reset_to_modem_ctrl os fd)"
proof -
  let ?I = "\<lambda>s :: 'z conn_world_scheme. P (control s)"
  show "keeps (\<lambda>s. P (control s)) (accept_client os)"
    unfolding accept_client_def case_prod_beta by (rule control_steps | simp)+
  show "keeps (\<lambda>s. P (control s)) (write_reset_to_modem_ctrl os fd)"
    unfolding write_reset_to_modem_ctrl_def by (rule control_steps)+
  have loop_test: "keeps ?I (dispatch_loop_test os)"
    unfolding dispatch_loop_test_def by (rule control_steps)+
  have dispatch: "keeps ?I (dispatch_modem_blocked os fd)" for fd
    unfolding dispatch_modem_blocked_def control_nvitemd_def atoi_property_def
    by (rule control_steps loop_test write_data_keeps_control | simp)+
  have message: "keeps ?I (client_message os d)" for d
    unfolding client_message_def Let_def
    by (rule control_steps dispatch write_data_keeps_control | simp)+
  have "keeps ?I (read_clients os ready is num)" for ready "is" num
    by (induction "is" arbitrary: num) (auto intro!: control_steps message)
  then show "keeps ?I (read_thread_round os)"
    unfolding read_thread_round_def by (intro control_steps)
qed

section \<open>Steps of the machine\<close>

text \<open>
  A round keeps \<open>R\<^sup>*\<^sup>* c \<circ> control\<close> when it takes only steps of \<open>R\<close>, whatever \<open>c\<close> the steps before
  it started from.
\<close>

definition ruled :: "(control \<Rightarrow> control \<Rightarrow> bool) \<Rightarrow> ('z ctl_world_scheme, 'a) io \<Rightarrow> bool" where
  "ruled R m \<longleftrightarrow> (\<forall>c. keeps (\<lambda>s. R\<^sup>*\<^sup>* c (control s)) m)"

lemma ruledI: "(\<And>c. keeps (\<lambda>s. R\<^sup>*\<^sup>* c (control s)) m) \<Longrightarrow> ruled R m"
  unfolding ruled_def by blast

lemma ruledD: "ruled R m \<Longrightarrow> keeps (\<lambda>s. R\<^sup>*\<^sup>* c (control s)) m"
  unfolding ruled_def by blast

lemma ruled_step:
  assumes "ruled R m" "m s = Ret a t"
  shows "R\<^sup>*\<^sup>* (control s) (control t)"
  by (rule keepsD [OF ruledD [OF assms(1)] assms(2)]) simp

lemma others_ruled:
  assumes "orderly os" "background \<le> R"
  shows "ruled R (others os)"
proof (rule ruledI, unfold others_def, rule keeps_modify)
  fix c and s :: "'a ctl_world_scheme"
  obtain st w sec where o: "os_others os (trace s) (g_modem_state s, wait_modem_reset s, alive_timer_sec s) = (st, w, sec)"
    by (metis prod_cases3)
  with assms(1) have "background\<^sup>*\<^sup>* (control s) (st, sec)"
    unfolding orderly_def control_def by (metis (mono_tags, lifting) case_prod_conv)
  then have "R\<^sup>*\<^sup>* (control s) (st, sec)"
    by (rule rtranclp_mono [OF assms(2), THEN predicate2D])
  moreover assume "R\<^sup>*\<^sup>* c (control s)"
  ultimately show "R\<^sup>*\<^sup>* c (control (let (st, w, sec) = os_others os (trace s) (g_modem_state s, wait_modem_reset s, alive_timer_sec s)
      in s\<lparr>g_modem_state := st, wait_modem_reset := w, alive_timer_sec := sec\<rparr>))"
    by (simp add: o control_def)
qed

lemma allowed: "background \<le> R \<Longrightarrow> background d e \<Longrightarrow> R\<^sup>*\<^sup>* c d \<Longrightarrow> R\<^sup>*\<^sup>* c e"
  by (meson predicate2D rtranclp.rtrancl_into_rtrancl)

lemma set_state_ruled:
  assumes "background \<le> R" "st \<in> {MODEM_STATE_RESET, MODEM_STATE_ASSERT}"
  shows "keeps (\<lambda>s. R\<^sup>*\<^sup>* c (control s)) (modem_ctrl_set_modem_state st)"
  unfolding ctl_defs
proof (rule keeps_modify)
  fix s :: "'a ctl_world_scheme"
  assume "R\<^sup>*\<^sup>* c (control s)"
  then show "R\<^sup>*\<^sup>* c (control (s\<lparr>g_modem_state := st\<rparr>))"
    using assms(2) by (auto simp: control_def intro: allowed [OF assms(1)] background.intros)
qed

lemma alive_ruled:
  assumes "background \<le> R" "keeps (\<lambda>s. R\<^sup>*\<^sup>* c (control s)) n"
  shows "keeps (\<lambda>s. R\<^sup>*\<^sup>* c (control s))
     (seq modem_ctrl_stop_wait_alive_timer (seq (modem_ctrl_set_modem_state MODEM_STATE_ALIVE) n))"
  unfolding keeps_def
proof (intro allI impI)
  fix s :: "'a ctl_world_scheme"
  assume "R\<^sup>*\<^sup>* c (control s)"
  then have "R\<^sup>*\<^sup>* c (MODEM_STATE_ALIVE, 0)"
    unfolding control_def by (rule allowed [OF assms(1) background.alive])
  then have n: "wp n (\<lambda>_ s. R\<^sup>*\<^sup>* c (control s)) (\<lambda>_ _. True) u"
    if "g_modem_state u = MODEM_STATE_ALIVE" "alive_timer_sec u = 0" for u
    using assms(2) that by (simp add: keeps_def control_def)
  show "wp (seq modem_ctrl_stop_wait_alive_timer (seq (modem_ctrl_set_modem_state MODEM_STATE_ALIVE) n))
      (\<lambda>_ s. R\<^sup>*\<^sup>* c (control s)) (\<lambda>_ _. True) s"
    by (simp add: modem_ctrl_stop_wait_alive_timer_def ctl_defs wp_rules syscall_defs) (rule n; simp)
qed

lemma reboot_system_ruled: "keeps I modem_ctrl_reboot_all_system"
  by (simp add: modem_ctrl_reboot_all_system_def keeps_def ctl_defs wp_rules syscall_defs)

lemmas ruled_steps = control_steps write_data_keeps_control alive_ruled set_state_ruled reboot_system_ruled

lemma message_ruled:
  assumes "background \<le> R"
  shows "keeps (\<lambda>s. R\<^sup>*\<^sup>* c (control s)) (int_message os buf)" "keeps (\<lambda>s. R\<^sup>*\<^sup>* c (control s)) (ext_message os buf)"
  unfolding int_message_def ext_message_def atoi_property_def modem_ctrl_set_wait_reset_flag_def Let_def
  by (rule alive_ruled set_state_ruled ruled_steps assms | simp)+

lemma panic_ruled:
  assumes "background \<le> R"
  shows "keeps (\<lambda>s. R\<^sup>*\<^sup>* c (control s)) (uevent_handle_thread os cfg sp h info)"
proof (cases h)
  case Modem_event_triger
  have "keeps (\<lambda>s. R\<^sup>*\<^sup>* c (control s)) (modem_event_triger os cfg sp info)"
    unfolding modem_event_triger_def modem_event_panic_process_def modem_ctrl_get_modem_state_def
      modem_ctrl_set_miniap_panic_def
    by (rule set_state_ruled ruled_steps load_spl_blind [OF control_sec] rescan_blind [OF control_io] assms | simp)+
  with Modem_event_triger show ?thesis
    by (simp add: uevent_handle_thread_def)
next
  case Modem_pcie_event
  have "keeps (\<lambda>s. R\<^sup>*\<^sup>* c (control s)) (modem_pcie_event os info)"
    unfolding modem_pcie_event_def modem_chane_ep_device_owner_def modem_ctrl_get_boot_mode_def
    by (rule control_steps | simp)+
  with Modem_pcie_event show ?thesis
    by (simp add: uevent_handle_thread_def)
qed

lemma try_alive_ruled:
  assumes "orderly os" "background \<le> R"
  shows "keeps (\<lambda>s. R\<^sup>*\<^sup>* c (control s)) (modem_ctrl_try_read_modem_alive os)"
proof -
  note steps = alive_ruled [OF assms(2)] others_ruled [OF assms, THEN ruledD] ruled_steps
  have opens: "keeps (\<lambda>s. R\<^sup>*\<^sup>* c (control s)) (open_alive os dev n fd)" for dev n fd
    by (induction n arbitrary: fd) (auto intro!: control_steps)
  have loop: "keeps (\<lambda>s. R\<^sup>*\<^sup>* c (control s)) (alive_loop os fd n rfds)" for fd n rfds
  proof (induction n arbitrary: rfds)
    case (Suc n)
    show ?case
      unfolding alive_loop.simps by (rule steps Suc)+
  qed (simp add: keeps_return)
  show ?thesis
    unfolding modem_ctrl_try_read_modem_alive_def uninit_int_def modem_ctrl_get_alive_dev_def case_prod_beta
    by (rule control_steps opens loop)+
qed

text \<open>The timer has expired: the silent modem is taken to have failed.\<close>

lemma alive_timeout_ruled:
  assumes "background \<le> R"
  shows "keeps (\<lambda>s. R\<^sup>*\<^sup>* c (control s)) (modem_ctrl_alive_timeout os cfg signo)"
proof -
  let ?I = "\<lambda>s :: 'a conn_world_scheme. R\<^sup>*\<^sup>* c (control s)"
  let ?J = "\<lambda>s :: 'a conn_world_scheme. R\<^sup>*\<^sup>* c (MODEM_STATE_ASSERT, 0) \<and> alive_timer_sec s = 0"
  have J: "io_blind ?J"
    by (simp add: io_blind_def)
  have fail: "turns ?J (seq (modem_ctrl_set_modem_state MODEM_STATE_ASSERT)
      (seq (modem_write_data_to_clients os MODEM_NOT_ALIVE) (return ()))) (\<lambda>_. ?I)"
    unfolding modem_ctrl_set_modem_state_def
    by (rule turns_seq [OF turns_modify keeps_turns], simp add: control_def) (intro keeps_intros write_data_keeps_control)
  have asked: "turns ?J (if b then modem_ctrl_reboot_all_system else seq (modem_ctrl_set_modem_state MODEM_STATE_ASSERT)
      (seq (modem_write_data_to_clients os MODEM_NOT_ALIVE) (return ()))) (\<lambda>_. ?I)" for b
    using fail by (auto simp: turns_def modem_ctrl_reboot_all_system_def ctl_defs wp_rules syscall_defs)
  have expired: "turns ?J (seq (sys_sleep 6)
      (bind (if FEATURE_EXTERNAL_MODEM cfg
             then bind (property_get os MODEM_SYSDUMP_PROP ''off'') (\<lambda>v. return (has_substr v ''on''))
             else bind (uninit os ''is_dump_orca'') (\<lambda>u. return (u \<noteq> 0))) (\<lambda>dump.
       bind (atoi_property os MODEM_RESET_PROP) (\<lambda>is_reset.
       if is_reset \<noteq> 0 \<and> \<not> dump then modem_ctrl_reboot_all_system
       else seq (modem_ctrl_set_modem_state MODEM_STATE_ASSERT)
         (seq (modem_write_data_to_clients os MODEM_NOT_ALIVE) (return ())))))) (\<lambda>_. ?I)"
    unfolding atoi_property_def uninit_def
    by (rule turns_seq [OF keeps_turns] turns_bind [OF keeps_turns] asked | rule keeps_intros io_blind_keeps J)+
  have gate: "keeps ?I (if signo \<noteq> SIGALRM then return () else bind (gets g_modem_state) (\<lambda>st.
      if st = MODEM_STATE_ALIVE then return () else bind (gets alive_timer_sec) (\<lambda>sec.
      if sec = 0 then return () else seq (modify (\<lambda>s. s\<lparr>alive_timer_sec := 0\<rparr>)) tail)))"
    if "turns ?J tail (\<lambda>_. ?I)" for tail :: "('a conn_world_scheme, unit) io"
    unfolding keeps_def
  proof (intro allI impI)
    fix s :: "'a conn_world_scheme"
    assume I: "?I s"
    have "R\<^sup>*\<^sup>* c (MODEM_STATE_ASSERT, 0)" if "g_modem_state s \<noteq> MODEM_STATE_ALIVE" "alive_timer_sec s \<noteq> 0"
      using I that by (auto simp: control_def intro: allowed [OF assms] background.silent)
    then have "wp tail (\<lambda>_. ?I) (\<lambda>_ _. True) (s\<lparr>alive_timer_sec := 0\<rparr>)"
      if "g_modem_state s \<noteq> MODEM_STATE_ALIVE" "alive_timer_sec s \<noteq> 0"
      using that \<open>turns ?J tail (\<lambda>_. ?I)\<close> by (simp add: turns_def)
    with I show "wp (if signo \<noteq> SIGALRM then return () else bind (gets g_modem_state) (\<lambda>st.
        if st = MODEM_STATE_ALIVE then return () else bind (gets alive_timer_sec) (\<lambda>sec.
        if sec = 0 then return () else seq (modify (\<lambda>s. s\<lparr>alive_timer_sec := 0\<rparr>)) tail)))
        (\<lambda>_. ?I) (\<lambda>_ _. True) s"
      by (simp add: wp_rules)
  qed
  show ?thesis
    unfolding modem_ctrl_alive_timeout_def modem_ctrl_get_modem_state_def by (rule gate [OF expired])
qed

section \<open>The requests of the clients\<close>

lemma turns_fixed: "turns (\<lambda>_. P) m (\<lambda>_ _. P)"
  by (cases P) (simp_all add: turns_def wp_def split: result.splits)

lemma turns_do_if: "turns I m (\<lambda>_. J) \<Longrightarrow> (\<And>s. I s \<Longrightarrow> J s) \<Longrightarrow> turns I (do_if b m) (\<lambda>_. J)"
  by (simp add: do_if_def turns_def wp_rules)

lemma reload_ruled:
  assumes "orderly os" "background \<le> R" "ensures m (\<lambda>s. g_modem_state s = MODEM_STATE_BOOTING)"
  shows "turns (\<lambda>_. R\<^sup>*\<^sup>* c (MODEM_STATE_BOOTING, 60)) (seq m (modem_ctrl_start_wait_alive_timer os))
     (\<lambda>_ s. R\<^sup>*\<^sup>* c (control s))"
proof (rule turns_seq)
  show "turns (\<lambda>_. R\<^sup>*\<^sup>* c (MODEM_STATE_BOOTING, 60)) m
      (\<lambda>_ s. R\<^sup>*\<^sup>* c (MODEM_STATE_BOOTING, 60) \<and> g_modem_state s = MODEM_STATE_BOOTING)"
    using assms(3) by (auto simp: turns_def ensures_def intro: wp_conseq)
  show "turns (\<lambda>s. R\<^sup>*\<^sup>* c (MODEM_STATE_BOOTING, 60) \<and> g_modem_state s = MODEM_STATE_BOOTING)
      (modem_ctrl_start_wait_alive_timer os) (\<lambda>_ s. R\<^sup>*\<^sup>* c (control s))"
    unfolding modem_ctrl_start_wait_alive_timer_def
    by (rule turns_seq [OF turns_modify keeps_turns], simp add: control_def)
      (intro keeps_intros try_alive_ruled [OF assms(1,2)] control_steps)
qed

lemma loading_boots:
  "ensures (seq (load_modem_img os cfg sp lt) (return ())) (\<lambda>s. g_modem_state s = MODEM_STATE_BOOTING)"
  "ensures (modem_ctrl_reboot_external_modem os cfg sp) (\<lambda>s. g_modem_state s = MODEM_STATE_BOOTING)"
proof -
  have load: "ensures (load_modem_img os cfg sp lt) (\<lambda>s. g_modem_state s = MODEM_STATE_BOOTING)" for lt
    using load_modem_img_leaves [of os cfg sp lt True] by (auto simp: ensures_def intro: wp_conseq)
  then show "ensures (seq (load_modem_img os cfg sp lt) (return ())) (\<lambda>s. g_modem_state s = MODEM_STATE_BOOTING)"
    by (intro ensures_seq_first keeps_intros)
  show "ensures (modem_ctrl_reboot_external_modem os cfg sp) (\<lambda>s. g_modem_state s = MODEM_STATE_BOOTING)"
    unfolding modem_ctrl_reboot_external_modem_def modem_reboot_all_modem_def
    by (intro ensures_seq_last ensures_seq_first keeps_intros load)
qed

lemma handle_reset_ruled:
  assumes "orderly os" "background \<le> R"
  shows "turns (\<lambda>_. R\<^sup>*\<^sup>* c (MODEM_STATE_BOOTING, 60)) (handle_reset os cfg sp) (\<lambda>_ s. R\<^sup>*\<^sup>* c (control s))"
  unfolding handle_reset_def
  by (intro turns_seq [OF turns_fixed] reload_ruled [OF assms] ensures_if ensures_last loading_boots)

text \<open>What is known when a request is accepted: the steps so far, and that a reload may follow.\<close>

abbreviation granted :: "(control \<Rightarrow> control \<Rightarrow> bool) \<Rightarrow> control \<Rightarrow> 'z ctl_world_scheme \<Rightarrow> bool" where
  "granted R c s \<equiv> R\<^sup>*\<^sup>* c (MODEM_STATE_BOOTING, 60) \<and> R\<^sup>*\<^sup>* c (control s)"

lemma prepared_ruled:
  assumes "orderly os" "background \<le> R"
  shows "keeps (granted R c) (prepare_reset_modem os)" "keeps (granted R c) (wait_reset_loop os n)"
    "keeps (granted R c) (modem_only os)"
proof -
  show "keeps (granted R c) (prepare_reset_modem os)"
    by (rule prepare_reset_keeps_control [where P = "\<lambda>d. R\<^sup>*\<^sup>* c (MODEM_STATE_BOOTING, 60) \<and> R\<^sup>*\<^sup>* c d"])
  note io = io_blind_keeps [OF control_io [where P = "\<lambda>d. R\<^sup>*\<^sup>* c (MODEM_STATE_BOOTING, 60) \<and> R\<^sup>*\<^sup>* c d"]]
  have other: "keeps (granted R c) (others os)"
    using ruledD [OF others_ruled [OF assms], of c] by (cases "R\<^sup>*\<^sup>* c (MODEM_STATE_BOOTING, 60)") (simp_all add: keeps_def)
  show "keeps (granted R c) (wait_reset_loop os n)"
    by (induction n) (auto intro!: keeps_intros io other)
  show "keeps (granted R c) (modem_only os)"
    unfolding modem_only_def atoi_property_def by (intro keeps_intros io)
qed

lemma handle_self_reset_ruled:
  assumes "orderly os" "background \<le> R"
  shows "turns (granted R c) (handle_self_reset os cfg sp) (\<lambda>_ s. R\<^sup>*\<^sup>* c (control s))"
proof -
  have "turns (granted R c) (seq modem_ctrl_stop_wait_alive_timer (seq m (modem_ctrl_start_wait_alive_timer os)))
      (\<lambda>_ s. R\<^sup>*\<^sup>* c (control s))" if "ensures m (\<lambda>s. g_modem_state s = MODEM_STATE_BOOTING)" for m
    by (rule turns_pre [OF turns_seq [OF turns_fixed reload_ruled [OF assms that]]]) simp
  note reload = this
  show ?thesis
    unfolding handle_self_reset_def
    by (intro turns_seq [OF keeps_turns] turns_bind [OF keeps_turns] turns_do_if prepared_ruled assms reload ensures_if
        loading_boots keeps_gets) simp
qed

lemma handle_prepare_reset_ruled:
  assumes "orderly os" "background \<le> R"
  shows "turns (granted R c) (handle_prepare_reset os cfg sp) (\<lambda>_ s. R\<^sup>*\<^sup>* c (control s))"
proof -
  have reload: "turns (granted R c) (seq modem_ctrl_stop_wait_alive_timer (seq (modem_ctrl_reboot_external_modem os cfg sp)
      (modem_ctrl_start_wait_alive_timer os))) (\<lambda>_ s. R\<^sup>*\<^sup>* c (control s))"
    by (rule turns_pre [OF turns_seq [OF turns_fixed reload_ruled [OF assms loading_boots(2)]]]) simp
  have flag: "turns (granted R c) (modify (\<lambda>s. s\<lparr>b_miniap_panic := False\<rparr>)) (\<lambda>_. granted R c)"
    by (rule turns_modify) simp
  show ?thesis
    unfolding handle_prepare_reset_def
    by (intro turns_if turns_seq [OF flag] turns_bind [OF keeps_turns] prepared_ruled assms reload handle_self_reset_ruled)
qed

lemma handle_blocked_ruled: "keeps (\<lambda>s. controller\<^sup>*\<^sup>* c (control s)) (handle_blocked os)"
proof -
  let ?I = "\<lambda>s :: 'a conn_world_scheme. controller\<^sup>*\<^sup>* c (control s)"
  have "controller (control s) (control (s\<lparr>g_modem_state := MODEM_STATE_BLOCK\<rparr>))" for s :: "'a conn_world_scheme"
    by (simp add: control_def controller.blocked)
  then have "keeps ?I (modem_ctrl_set_modem_state MODEM_STATE_BLOCK)"
    unfolding modem_ctrl_set_modem_state_def by (intro keeps_modify) (meson rtranclp.rtrancl_into_rtrancl)
  then show ?thesis
    unfolding handle_blocked_def atoi_property_def
    by (intro keeps_intros control_steps assert_modem_blind control_io)
qed

lemma handle_message_ruled:
  assumes "orderly os"
  shows "keeps (\<lambda>s. controller\<^sup>*\<^sup>* c (control s)) (handle_message os cfg sp msg)"
proof -
  let ?I = "\<lambda>s :: 'a conn_world_scheme. controller\<^sup>*\<^sup>* c (control s)"
  have le: "background \<le> controller"
    by (auto intro: controller.modem)
  let ?request = "seq (if has_substr msg MODEM_RESET then handle_reset os cfg sp
      else if has_substr msg PREPARE_RESET then handle_prepare_reset os cfg sp else return ())
    (modem_ctrl_enable_wake_lock os False)"
  have "turns (granted controller c) ?request (\<lambda>_. ?I)"
    unfolding modem_ctrl_enable_wake_lock_def
    by (intro turns_seq [OF _ keeps_turns] turns_if turns_pre [OF handle_reset_ruled] handle_prepare_reset_ruled turns_return
        keeps_intros control_steps assms le) simp_all
  moreover have reloaded: "controller\<^sup>*\<^sup>* c (MODEM_STATE_BOOTING, 60)" if "controller\<^sup>*\<^sup>* c (st, sec)" "down st" for st sec
    using that by (meson controller.reload rtranclp.rtrancl_into_rtrancl)
  ultimately have request: "wp ?request (\<lambda>_. ?I) (\<lambda>_ _. True) s" if "?I s" "down (g_modem_state s)" for s
    using that reloaded by (auto simp: turns_def control_def)
  have "keeps ?I (bind (gets g_modem_state) (\<lambda>st.
      if st \<noteq> MODEM_STATE_BLOCK \<and> st \<noteq> MODEM_STATE_ASSERT \<and> st \<noteq> MODEM_STATE_RESET then return () else ?request))"
    unfolding keeps_def wp_bind wp_gets wp_if [of _ "return ()"] wp_return using request by (auto simp: down_def)
  then show ?thesis
    unfolding handle_message_def modem_ctrl_get_modem_state_def
    by - (rule keeps_seq, rule keeps_do_if, rule handle_blocked_ruled, assumption)
qed

section \<open>The rounds\<close>

lemma listen_clients_ruled:
  assumes "orderly os"
  shows "keeps (\<lambda>s. controller\<^sup>*\<^sup>* c (control s)) (listen_clients_round os cfg sp)"
  unfolding listen_clients_round_def modem_read_data_from_clients_def modem_ctrl_enable_wake_lock_def
  by (rule control_steps handle_message_ruled assms | simp)+

lemma listen_modem_ruled:
  assumes "background \<le> R"
  shows "keeps (\<lambda>s. R\<^sup>*\<^sup>* c (control s)) (listen_modem_round os cfg fds)"
  unfolding listen_round_defs modem_ctrl_enable_wake_lock_def
  by (rule control_steps message_ruled assms | simp)+

lemma setup_ruled:
  "keeps (\<lambda>s. P (control s)) (listen_modem_setup os cfg)" "keeps (\<lambda>s. P (control s)) (listen_sp_setup os)"
  "keeps (\<lambda>s. P (control s)) (uevent_round os sock pollin msgs)"
proof -
  have dev: "keeps (\<lambda>s. P (control s)) (open_assert os dev cnt k)" for dev cnt k
    by (induction k arbitrary: cnt) (auto intro!: control_steps)
  then show "keeps (\<lambda>s. P (control s)) (listen_modem_setup os cfg)"
    unfolding listen_setup_defs alive_device_def open_watched_def modem_ctrl_get_alive_dev_def case_prod_beta
    by - (rule control_steps dev | simp)+
  have "keeps (\<lambda>s. P (control s)) (open_sp os n)" for n
    by (induction n) (auto intro!: control_steps)
  then show "keeps (\<lambda>s. P (control s)) (listen_sp_setup os)"
    unfolding listen_sp_setup_def atoi_property_def by - (rule control_steps | assumption | simp)+
  have "keeps (\<lambda>s. P (control s)) (modem_event_device_fd os msgs)"
    by (induction msgs) (auto simp: modem_event_process_def Let_def intro!: control_steps)
  then show "keeps (\<lambda>s. P (control s)) (uevent_round os sock pollin msgs)"
    unfolding uevent_round_def by - (rule control_steps | assumption)+
qed

lemma listen_sp_keeps_control: "keeps (\<lambda>s. P (control s)) (listen_sp_round os fd)"
  unfolding listen_sp_round_def atoi_property_def modem_ctrl_get_boot_mode_def modem_ctrl_enable_wake_lock_def
  by (rule control_steps write_data_keeps_control reboot_system_ruled | simp)+

lemma system_ruled:
  fixes c :: control
  assumes "orderly os" "system os cfg sp (s, hs) (t, ks)" "controller\<^sup>*\<^sup>* c (control s)"
  shows "controller\<^sup>*\<^sup>* c (control t)"
proof -
  let ?I = "\<lambda>s :: ctrl_world. controller\<^sup>*\<^sup>* c (control s)"
  have le: "background \<le> controller"
    by (auto intro: controller.modem)
  note same = client_keeps_control [where P = "controller\<^sup>*\<^sup>* c", THEN keepsD] setup_ruled [where P = "controller\<^sup>*\<^sup>* c", THEN keepsD]
    listen_sp_keeps_control [where P = "controller\<^sup>*\<^sup>* c", THEN keepsD]
  note steps = keepsD [OF listen_clients_ruled [OF assms(1)]] keepsD [OF listen_modem_ruled [OF le]]
    keepsD [OF alive_timeout_ruled [OF le]] keepsD [OF panic_ruled [OF le]]
  show ?thesis
    using assms(2)
    by (cases rule: systemE) (use assms(3) in \<open>auto dest: steps same\<close>)
qed

lemma system_control:
  assumes "orderly os" "reaches os cfg sp (s, hs) (t, ks)"
  shows "controller\<^sup>*\<^sup>* (control s) (control t)"
  using reaches_invariant [where I = "\<lambda>u. controller\<^sup>*\<^sup>* (control s) (control u)", OF _ assms(2)]
    system_ruled [OF assms(1)] by fastforce

text \<open>
  The assumption \<open>orderly\<close> is met by the program: the thread that takes requests is the only one
  that waits for the others inside a round, and every round of the others, from whatever state
  and without an assumption on the rest, takes only steps that bring messages of the modem.
\<close>

lemma background_rounds:
  "ruled background (accept_client os)" "ruled background (read_thread_round os)"
  "ruled background (write_reset_to_modem_ctrl os fd)" "ruled background (listen_modem_setup os cfg)"
  "ruled background (listen_modem_round os cfg fds)" "ruled background (listen_sp_setup os)"
  "ruled background (listen_sp_round os fd)" "ruled background (modem_ctrl_alive_timeout os cfg signo)"
  "ruled background (uevent_round os sock pollin msgs)" "ruled background (uevent_handle_thread os cfg sp h info)"
  by (rule ruledI, rule client_keeps_control setup_ruled listen_sp_keeps_control
      listen_modem_ruled [OF order.refl] alive_timeout_ruled [OF order.refl] panic_ruled [OF order.refl])+

section \<open>Properties of the running program\<close>



lemma timer_off_step: "controller c d \<Longrightarrow> (fst c = MODEM_STATE_ALIVE \<longrightarrow> snd c = 0) \<Longrightarrow> fst d = MODEM_STATE_ALIVE \<Longrightarrow> snd d = 0"
  by (auto elim!: controller.cases background.cases)

lemma timer_off_run: "controller\<^sup>*\<^sup>* c d \<Longrightarrow> (fst c = MODEM_STATE_ALIVE \<longrightarrow> snd c = 0) \<Longrightarrow> fst d = MODEM_STATE_ALIVE \<longrightarrow> snd d = 0"
  by (induction rule: rtranclp_induct) (use timer_off_step in blast)+



lemma blocked_down: "keeps (\<lambda>s. down (g_modem_state s)) (handle_blocked os)"
proof (rule ensures_keeps)
  have "io_blind (\<lambda>s. down (g_modem_state s))"
    by (simp add: io_blind_def)
  then show "ensures (handle_blocked os) (\<lambda>s. down (g_modem_state s))"
    unfolding handle_blocked_def atoi_property_def modem_ctrl_set_modem_state_def
    by - (rule ensures_seq_first, simp add: ensures_def wp_rules down_def,
      (rule keeps_intros io_blind_keeps assert_modem_blind | assumption)+)
qed



end
