(* ===== verification/Spec2Isabelle.thy ===== *)
theory Spec2Isabelle
  imports Modem_Main Modem_Dbg Load_Verified Controller_Spec
begin

text \<open>
  Verification of the modem control daemon (\<open>modem_control\<close>) and of its debugging tool
  (\<open>modem_ctrl_dbg\<close>).

  The program. \<open>main.c\<close> reads the boot mode and the kind of modem, drops its privileges, starts
  the thread that serves the clients and boots the modem. Booting reads a description of the
  memory of the modem (built-in tables, XML files, or old driver nodes), copies every image of
  the table from its partition into that memory, has the trusted application verify the signed
  ones, and starts the processors. From then on one thread listens to the devices on which the
  modem reports (alive, reset, assert, watchdog), one accepts clients, one reads their messages
  and puts requests into a pipe, one takes the requests from the pipe and loads the modem again,
  one listens to the service processor, and, with an external modem, one turns kernel events
  into calls of handlers. A timer whose signal handler runs in any thread watches over a modem
  that was started.

  State. Each component extends the record of the one below by its own file-scope variables:
  \<open>world\<close> (the trace of the system calls), \<open>ctl_world\<close> (\<open>modem_control.c\<close>: state of the modem,
  alive timer, flag of the reset), \<open>sec_world\<close> (\<open>secure_boot_load.c\<close>), \<open>head_world\<close>
  (\<open>modem_head_parse.c\<close>), \<open>load_world\<close> (\<open>modem_load.c\<close>: the load values of the modem, the
  service processor and the DP), \<open>xml_world\<close> (\<open>xml_parse.c\<close>), \<open>event_world\<close> (\<open>eventmonitor.c\<close>),
  \<open>pcie_world\<close>, \<open>conn_world\<close> (\<open>modem_connect.c\<close>) and \<open>ctrl_world\<close>, which adds the locals that
  the endless threads carry from one round of their loop to the next. A function of the program
  is a definition of its name of type \<open>('z some_world_scheme, 'a) io\<close>: it takes the state and
  either returns (\<open>Ret\<close>) a value and a state, or stops (\<open>Stop\<close>) in an endless loop (\<open>Forever\<close>)
  or where C gives no meaning to what the code does (\<open>Fault\<close>). A struct is a record, an enum a
  datatype, an unsigned integer a word of its width; a buffer is a list of characters and its
  place in an array a slot of a list.

  The operating system is the oracle \<open>os\<close>: the outcome of a call is a function of the trace so
  far and of the arguments, so a theorem for every \<open>os\<close> holds for every behaviour of the kernel,
  also for reads that come in pieces, writes that fail half way and devices that appear late.
  The build options of \<open>Android.mk\<close> are the record \<open>build_config\<close>.

  Theories, from the bottom:

    \<open>Prelude\<close>: C strings, conversions, little-endian buffers.
    \<open>OS_World\<close>: the system calls, the monad, its weakest preconditions (\<open>wp\<close>) and the derived
      notions \<open>keeps\<close>, \<open>ensures\<close>, \<open>grows\<close>, \<open>tracks\<close>, \<open>emits\<close> with a collection of rules each.
    \<open>Modem_Types\<close>: the structures and flag words of the headers.
    \<open>Trace_Discipline\<close>: automata over traces (descriptors, suspend blocker) and the locales that
      lift them to programs.
    \<open>Control_Base\<close>: the variables and small helpers of \<open>modem_control.c\<close> and \<open>main.c\<close>.
    \<open>Io_Control\<close>: \<open>modem_io_control.c\<close>.
    \<open>Load_Image\<close>: \<open>modem_load_image\<close>, \<open>modem_clear_region\<close> and the image headers.
    \<open>Nv_Read\<close>: \<open>nv_read.c\<close>, checksums, validation and repair of the two copies.
    \<open>Secure_Boot\<close>: \<open>secure_boot_load.c\<close>, \<open>modem_verify.c\<close>.
    \<open>Head_Parse\<close>: \<open>modem_head_parse.c\<close>, both formats of the header.
    \<open>Load_Tables\<close>, \<open>Xml_Parse\<close>: where the tables come from.
    \<open>Simlock\<close>, \<open>Event_Monitor\<close>, \<open>Pcie_Control\<close>: the file of the same name.
    \<open>Modem_Load\<close>: the loader proper; \<open>Load_Frame\<close> (what it leaves alone), \<open>Load_Protocol\<close> and
      \<open>Load_Verified\<close> (what it promises).
    \<open>Modem_Connect\<close> and \<open>Connect_Service\<close>: the clients, and what is promised to them.
    \<open>Modem_Control\<close>, \<open>Listen_Modem\<close> and \<open>Control_Service\<close>: the timer, the control pipe, the
      listeners (both variants) and \<open>modem_event.c\<close>, and how they behave.
    \<open>Modem_Main\<close>: \<open>main.c\<close>, the running program and its invariants.
    \<open>Controller_Spec\<close>: the abstract controller and the proof that the program refines it.
    \<open>Modem_Dbg\<close>: \<open>modem_ctrl_dbg.c\<close>.
\<close>

text \<open>
  What the lemmas show.

  Loading: a load that reports success has moved exactly the bytes asked for, a table that loads
  without complaint has every selected image in place, every path closes its descriptors and
  switches the bus monitor and the memory protection on again, and loading ends in the booting
  state with the suspend blocker released. NV data is delivered only from a copy with right
  magic and checksum, a damaged copy is repaired from the intact one, any single changed byte is
  seen, and the two checksum routines agree with each other and with the ones-complement sum.

  Verification: between the unlocking of the memory and a verdict that is not negative no
  processor is started by an internal load, and the table that is verified holds every signed
  image the load went through, except where a later one has the same slot. An external load
  starts the service processor before the verification.

  Descriptions: parsing a header, a kernel event or the partition tags gives back what was
  written, the tables stay within their arrays, and what goes to the driver fits its structure.

  Clients: the table of the clients implements a bounded multiset that loses no descriptor, and
  a message is offered to every client once, those who cannot take it being closed and removed.

  The running program: in every interleaving of the rounds no descriptor is used outside its
  life, no mutex is left locked, the tables do not change, the alive timer is off while the
  modem is alive, and the state of the modem and the timer take only the steps of the abstract
  controller. A request to reset a modem that is down leads to a reload under the timer.

  Waiting: each bounded loop of the code ends within its bound (50 looks at the reset flag, 100
  at a flag of the external modem, 60 rounds of the alive loop), the unbounded ones end when the
  condition they wait for comes true.

  Where the code does not do what it means to, a lemma shows what it does on an input.

  Bounds. The bounded loops of the code are recursions on their own bound. A loop without one
  (\<open>select\<close> and \<open>read\<close> interrupted, a device that cannot be opened, emptying a log, the rescan)
  recurs \<open>os_patience os\<close> times and then stops as an endless loop. No theorem fixes
  \<open>os_patience\<close>, so what holds of a returned result holds for every number of repetitions;
  \<open>rescan_loop_returns\<close> and \<open>read_retry_returns\<close> show that enough repetitions give the result.

  Threads. A thread is the definition of what it does before its loop and of one round of the
  loop; \<open>system\<close> has a step for each round that returns, and its start is the state after the
  set-up of the connection. Rounds are atomic, except that a round that waits for another thread
  (\<open>wait_reset_loop\<close>, \<open>alive_loop\<close>) reads the shared variables after \<open>others\<close>, which sets them
  as the oracle says; \<open>orderly\<close> states that these are steps of the abstract controller that
  bring messages of the modem, and \<open>background_rounds\<close> shows it of every round of every thread but
  the one that waits. Data races inside a round are not modelled. \<open>count_below\<close> states that the counter
  that \<open>modem_ctrl_try_read_modem_alive\<close> does not initialise starts below its limit;
  \<open>alive_uninitialised\<close> shows what happens otherwise.

  Not modelled. Log output, \<open>dumpHex\<close> and the end tag handler of the XML parser, which only
  write to the log. The expat parser (the sequence of its calls is the parameter \<open>xml_env\<close>), the
  trusted applications and their library (their verdicts are oracles), the signature routines
  behind \<open>secure_check\<close> and the kernel driver are not part of the repository. The number of the
  last capability is that of the kernel headers.
\<close>

end
